theory Spec2Isabelle
  imports Main "HOL-Library.Word" "HOL-Library.Sublist" "HOL-Library.AList"
begin

unbundle bit_operations_syntax

section \<open>Bytes and byte slices\<close>

text \<open>
  A Go \<open>byte\<close> is an 8-bit word and \<open>[]byte\<close> a list of them. Where the source tests a
  slice against \<open>nil\<close> the model carries the slice as \<open>byte list option\<close>
  (\<open>None\<close> is \<open>nil\<close>); \<open>len\<close> of a nil slice is 0 and writing one writes nothing.
\<close>

type_synonym byte = "8 word"
type_synonym bytes = "byte list"

definition slice_bytes :: "bytes option \<Rightarrow> bytes" where
  "slice_bytes s = (case s of None \<Rightarrow> [] | Some bs \<Rightarrow> bs)"

definition slice_len :: "bytes option \<Rightarrow> nat" where
  "slice_len s = length (slice_bytes s)"

section \<open>Strings\<close>

text \<open>
  A Go \<open>string\<close> is an immutable byte sequence, and \<open>string(b)\<close> and \<open>[]byte(s)\<close>
  keep the bytes: strings are modelled as byte lists. \<open>str\<close> turns an ASCII literal
  into its bytes.
\<close>

type_synonym gostring = bytes

definition str :: "string \<Rightarrow> gostring" where
  "str s = map (\<lambda>c. of_nat (of_char c)) s"

text \<open>The verb \<open>%d\<close> of \<open>fmt\<close> on a number that is not negative: its decimal digits.\<close>

fun decimal :: "nat \<Rightarrow> gostring" where
  "decimal n =
     (if n < 10 then [of_nat (48 + n)] else decimal (n div 10) @ [of_nat (48 + n mod 10)])"

declare decimal.simps [simp del]

section \<open>Panics\<close>

text \<open>
  Go panics at an index or a slice bound out of range. The two checked operations below
  make that panic a value, so that a function that indexes can be shown not to panic.
  (\<open>s[:hi]\<close> is allowed up to the capacity; the model is stricter and asks
  \<open>hi \<le> len(s)\<close>.)
\<close>

datatype go_panic = IndexOutOfRange | SliceBoundsOutOfRange

definition index_chk :: "bytes \<Rightarrow> int \<Rightarrow> go_panic + byte" where
  "index_chk xs i =
     (if 0 \<le> i \<and> i < int (length xs) then Inr (xs ! nat i) else Inl IndexOutOfRange)"

definition slice_to_chk :: "bytes \<Rightarrow> int \<Rightarrow> go_panic + bytes" where
  "slice_to_chk xs hi =
     (if 0 \<le> hi \<and> hi \<le> int (length xs) then Inr (take (nat hi) xs)
      else Inl SliceBoundsOutOfRange)"

section \<open>Message padding (internal/protocol/binary.go)\<close>

definition blockSizes :: "int list" where
  "blockSizes = [256, 512, 1024, 2048]"

text \<open>
  \<open>Pad\<close>: \<open>make\<close> gives a zeroed slice of \<open>len(data)+paddingNeeded\<close> bytes, \<open>copy\<close>
  puts the data at its front, the loop overwrites positions \<open>len(data) .. len(padded)-2\<close>
  with \<open>byte(i % 256)\<close>, and the last position receives \<open>byte(paddingNeeded)\<close>.
\<close>

definition Pad :: "bytes \<Rightarrow> int \<Rightarrow> bytes" where
  "Pad data targetSize =
     (if int (length data) \<ge> targetSize then data
      else
        let paddingNeeded = targetSize - int (length data) in
        if paddingNeeded > 255 then data
        else
          let padded0 = data @ replicate (nat paddingNeeded) (0 :: byte);
              padded1 = fold (\<lambda>i p. p[i := of_nat (i mod 256)])
                             [length data ..< length padded0 - 1] padded0
          in padded1[length padded1 - 1 := of_int paddingNeeded])"

definition Unpad :: "bytes \<Rightarrow> go_panic + bytes" where
  "Unpad data =
     (if length data = 0 then Inr data
      else
        case index_chk data (int (length data) - 1) of
          Inl p \<Rightarrow> Inl p
        | Inr b \<Rightarrow>
            let paddingLength = uint b in
            if paddingLength \<le> 0 \<or> paddingLength > int (length data) then Inr data
            else slice_to_chk data (int (length data) - paddingLength))"

text \<open>
  Go's \<open>int\<close> is a signed machine integer, 64 bits wide on the platforms the repository
  builds for, and its arithmetic wraps around. \<open>int_wrap\<close> gives the value that an
  \<open>int\<close> expression with the mathematical value \<open>x\<close> has on the machine. \<open>Pad\<close> and
  \<open>Unpad\<close> cannot leave the range: their differences are only taken between a
  representable target or length and a smaller non-negative length. The sum in
  \<open>OptimalBlockSize\<close> can.
\<close>

definition int_wrap :: "int \<Rightarrow> int" where
  "int_wrap x = (x + 2 ^ 63) mod 2 ^ 64 - 2 ^ 63"

definition OptimalBlockSize :: "int \<Rightarrow> int" where
  "OptimalBlockSize dataSize =
     (let totalSize = int_wrap (dataSize + 16) in
      case find (\<lambda>blockSize. totalSize \<le> blockSize) blockSizes of
        Some blockSize \<Rightarrow> blockSize
      | None \<Rightarrow> dataSize)"

section \<open>The binary codec (internal/protocol/types.go, binary.go)\<close>

text \<open>
  \<open>MessageType\<close> is a \<open>uint8\<close>. The packet struct keeps the source's fields; the four
  byte slices may be \<open>nil\<close>.
\<close>

type_synonym MessageType = byte

definition MessageTypeAnnounce :: MessageType where "MessageTypeAnnounce = 0x01"
definition MessageTypeKeyExchange :: MessageType where "MessageTypeKeyExchange = 0x02"
definition MessageTypeLeave :: MessageType where "MessageTypeLeave = 0x03"
definition MessageTypeMessage :: MessageType where "MessageTypeMessage = 0x04"
definition MessageTypeFragmentStart :: MessageType where "MessageTypeFragmentStart = 0x05"
definition MessageTypeFragmentContinue :: MessageType where "MessageTypeFragmentContinue = 0x06"
definition MessageTypeFragmentEnd :: MessageType where "MessageTypeFragmentEnd = 0x07"
definition MessageTypeChannelAnnounce :: MessageType where "MessageTypeChannelAnnounce = 0x08"
definition MessageTypeChannelRetention :: MessageType where "MessageTypeChannelRetention = 0x09"
definition MessageTypeDeliveryAck :: MessageType where "MessageTypeDeliveryAck = 0x0A"
definition MessageTypeDeliveryStatusReq :: MessageType where "MessageTypeDeliveryStatusReq = 0x0B"
definition MessageTypeReadReceipt :: MessageType where "MessageTypeReadReceipt = 0x0C"
definition MessageTypeText :: MessageType where "MessageTypeText = 0x0D"

definition BroadcastRecipient :: bytes where
  "BroadcastRecipient = [0xFF, 0xFF, 0xFF, 0xFF, 0xFF, 0xFF, 0xFF, 0xFF]"

record BitchatPacket =
  Version :: byte
  Type :: MessageType
  SenderID :: "bytes option"
  RecipientID :: "bytes option"
  Timestamp :: "64 word"
  Payload :: "bytes option"
  Signature :: "bytes option"
  TTL :: byte
  ID :: gostring
  Nonce :: "bytes option"

text \<open>
  Big-endian integers, as \<open>encoding/binary\<close> writes and reads them: \<open>be_bytes k n\<close> is
  the low \<open>k\<close> bytes of \<open>n\<close>, most significant first, and \<open>be_value\<close> reads such a
  sequence back.
\<close>

fun be_bytes :: "nat \<Rightarrow> nat \<Rightarrow> bytes" where
  "be_bytes 0 n = []"
| "be_bytes (Suc k) n = be_bytes k (n div 256) @ [of_nat (n mod 256)]"

definition be_value :: "bytes \<Rightarrow> nat" where
  "be_value bs = foldl (\<lambda>acc b. acc * 256 + unat b) 0 bs"

definition put_uint64 :: "64 word \<Rightarrow> bytes" where
  "put_uint64 v = be_bytes 8 (unat v)"

definition put_uint32 :: "32 word \<Rightarrow> bytes" where
  "put_uint32 v = be_bytes 4 (unat v)"

text \<open>
  \<open>Encode\<close>. Every write goes to a \<open>bytes.Buffer\<close>, whose \<open>WriteByte\<close> and \<open>Write\<close>
  always return a nil error, so the error returns of the source are unreachable and the
  model returns the bytes. \<open>byte(len(x))\<close> and \<open>uint32(len(x))\<close> truncate.
\<close>

definition Encode :: "BitchatPacket \<Rightarrow> bytes" where
  "Encode packet =
     [Version packet] @
     [Type packet] @
     [of_nat (slice_len (SenderID packet))] @ slice_bytes (SenderID packet) @
     (case RecipientID packet of
        Some r \<Rightarrow> [of_nat (length r)] @ r
      | None \<Rightarrow> [0]) @
     put_uint64 (Timestamp packet) @
     put_uint32 (of_nat (slice_len (Payload packet))) @ slice_bytes (Payload packet) @
     (case Signature packet of
        Some sg \<Rightarrow> [of_nat (length sg)] @ sg
      | None \<Rightarrow> [0]) @
     [TTL packet]"

text \<open>
  \<open>Decode\<close> reads from a \<open>bytes.Buffer\<close> over the input; the model threads the unread
  rest. \<open>ReadByte\<close> fails with \<open>EOF\<close> on an empty buffer; \<open>io.ReadFull\<close> fails with
  \<open>EOF\<close> when nothing is left and with \<open>ErrUnexpectedEOF\<close> when fewer bytes than asked
  for are left; \<open>binary.Read\<close> of a fixed-size integer is an \<open>io.ReadFull\<close> of its size.
\<close>

datatype codec_error = ErrBufferTooSmall | EOF | ErrUnexpectedEOF

definition bind_res :: "'e + 'a \<Rightarrow> ('a \<Rightarrow> 'e + 'b) \<Rightarrow> 'e + 'b" where
  "bind_res m f = (case m of Inl e \<Rightarrow> Inl e | Inr a \<Rightarrow> f a)"

definition ReadByte :: "bytes \<Rightarrow> codec_error + byte \<times> bytes" where
  "ReadByte buf = (case buf of [] \<Rightarrow> Inl EOF | b # rest \<Rightarrow> Inr (b, rest))"

definition ReadFull :: "nat \<Rightarrow> bytes \<Rightarrow> codec_error + bytes \<times> bytes" where
  "ReadFull n buf =
     (if n = 0 then Inr ([], buf)
      else if buf = [] then Inl EOF
      else if length buf < n then Inl ErrUnexpectedEOF
      else Inr (take n buf, drop n buf))"

definition read_uint64 :: "bytes \<Rightarrow> codec_error + 64 word \<times> bytes" where
  "read_uint64 buf =
     bind_res (ReadFull 8 buf) (\<lambda>(bs, rest). Inr (of_nat (be_value bs), rest))"

definition read_uint32 :: "bytes \<Rightarrow> codec_error + 32 word \<times> bytes" where
  "read_uint32 buf =
     bind_res (ReadFull 4 buf) (\<lambda>(bs, rest). Inr (of_nat (be_value bs), rest))"

text \<open>
  A length-prefixed field of \<open>Decode\<close>: the slice stays \<open>nil\<close> when the length is 0,
  otherwise it is allocated and filled by \<open>io.ReadFull\<close>.
\<close>

definition read_field :: "nat \<Rightarrow> bytes \<Rightarrow> codec_error + bytes option \<times> bytes" where
  "read_field n buf =
     (if n > 0 then bind_res (ReadFull n buf) (\<lambda>(bs, rest). Inr (Some bs, rest))
      else Inr (None, buf))"

definition Decode :: "bytes \<Rightarrow> codec_error + BitchatPacket" where
  "Decode data =
     (if length data < 13 then Inl ErrBufferTooSmall
      else
        bind_res (ReadByte data) (\<lambda>(version, buf).
        bind_res (ReadByte buf) (\<lambda>(msgType, buf).
        bind_res (ReadByte buf) (\<lambda>(senderIDLen, buf).
        bind_res (read_field (unat senderIDLen) buf) (\<lambda>(senderID, buf).
        bind_res (ReadByte buf) (\<lambda>(recipientIDLen, buf).
        bind_res (read_field (unat recipientIDLen) buf) (\<lambda>(recipientID, buf).
        bind_res (read_uint64 buf) (\<lambda>(timestamp, buf).
        bind_res (read_uint32 buf) (\<lambda>(payloadLen, buf).
        bind_res (read_field (unat payloadLen) buf) (\<lambda>(payload, buf).
        bind_res (ReadByte buf) (\<lambda>(signatureLen, buf).
        bind_res (read_field (unat signatureLen) buf) (\<lambda>(signature, buf).
        bind_res (ReadByte buf) (\<lambda>(ttl, buf).
          Inr \<lparr>Version = version, Type = msgType, SenderID = senderID,
               RecipientID = recipientID, Timestamp = timestamp, Payload = payload,
               Signature = signature, TTL = ttl, ID = [], Nonce = None\<rparr>)))))))))))))"

text \<open>What \<open>Decode\<close> makes of a slice it reads back: an empty one stays \<open>nil\<close>.\<close>

definition nil_if_empty :: "bytes option \<Rightarrow> bytes option" where
  "nil_if_empty s = (if slice_bytes s = [] then None else Some (slice_bytes s))"

section \<open>The router (pkg/mesh: Router and MessageRouter)\<close>

record RoutingConfig =
  MaxHops :: int
  AllowRelay :: bool
  AllowBroadcast :: bool
  BlockedPeers :: "gostring list"

text \<open>
  \<open>blockedPeersMap\<close> is a \<open>map[string]bool\<close>; reading a missing key gives \<open>false\<close>.
  \<open>sendFunc\<close> is injected by the caller: the model takes it as a parameter (its result
  is the error, \<open>None\<close> for nil) and returns, besides the error and the packet as
  \<open>RoutePacket\<close> leaves it, the list of calls made to \<open>sendFunc\<close> in order.
\<close>

record Router =
  config :: RoutingConfig
  blockedPeersMap :: "gostring \<rightharpoonup> bool"

definition DefaultRoutingConfig :: RoutingConfig where
  "DefaultRoutingConfig =
     \<lparr>MaxHops = 3, AllowRelay = True, AllowBroadcast = True, BlockedPeers = []\<rparr>"

definition NewRouter :: "RoutingConfig \<Rightarrow> Router" where
  "NewRouter cfg =
     \<lparr>config = cfg,
      blockedPeersMap = fold (\<lambda>peerID m. m(peerID \<mapsto> True)) (BlockedPeers cfg) Map.empty\<rparr>"

definition isBlocked :: "Router \<Rightarrow> gostring \<Rightarrow> bool" where
  "isBlocked r peerID = (case blockedPeersMap r peerID of Some b \<Rightarrow> b | None \<Rightarrow> False)"

definition RoutePacket ::
  "(BitchatPacket \<Rightarrow> gostring \<Rightarrow> 'e option) \<Rightarrow> Router \<Rightarrow> BitchatPacket \<Rightarrow> gostring list
     \<Rightarrow> 'e option \<times> BitchatPacket \<times> (BitchatPacket \<times> gostring) list" where
  "RoutePacket sendFunc r packet knownPeers =
     (if isBlocked r (slice_bytes (SenderID packet)) then (None, packet, [])
      else if TTL packet \<le> 0 then (None, packet, [])
      else
        let packet' = packet\<lparr>TTL := TTL packet - 1\<rparr> in
        if RecipientID packet' = None \<or> slice_len (RecipientID packet') = 0 then
          if \<not> AllowBroadcast (config r) then (None, packet', [])
          else (None, packet',
                map (\<lambda>peerID. (packet', peerID))
                    (filter (\<lambda>peerID. \<not> isBlocked r peerID) knownPeers))
        else
          let recipientID = slice_bytes (RecipientID packet') in
          if isBlocked r recipientID then (None, packet', [])
          else (sendFunc packet' recipientID, packet', [(packet', recipientID)]))"

text \<open>
  \<open>MessageRouter.DecreaseAndCheckTTL\<close>: the result and the packet as it is left.
\<close>

definition DecreaseAndCheckTTL :: "BitchatPacket \<Rightarrow> bool \<times> BitchatPacket" where
  "DecreaseAndCheckTTL packet =
     (if TTL packet \<le> 1 then (False, packet)
      else (True, packet\<lparr>TTL := TTL packet - 1\<rparr>))"

section \<open>The encryption service (internal/crypto)\<close>

text \<open>
  Errors are values. \<open>ErrOther\<close> stands for an error made on the spot
  (\<open>errors.New\<close>, \<open>fmt.Errorf\<close>) or passed up from a library (\<open>io\<close>, \<open>crypto/rand\<close>).
\<close>

datatype go_error =
    ErrBluetoothNotAvailable | ErrSendFailed | ErrInvalidPacket | ErrPeerNotFound
  | ErrNoSharedSecret | ErrInvalidPublicKey | ErrEncryptionFailed | ErrDecryptionFailed
  | ErrOther gostring

text \<open>
  The cryptographic primitives come from libraries outside the repository
  (\<open>golang.org/x/crypto\<close>, \<open>crypto/ed25519\<close>); the model takes them as parameters, each
  with the argument order of its Go signature:
  \<^item> \<open>curve25519.ScalarMult(dst, scalar, point)\<close>;
  \<^item> \<open>hkdf.New(hash, secret, salt, info)\<close> with SHA-256, as the bytes its reader
    delivers;
  \<^item> \<open>box.Seal(out, message, nonce, peersPublicKey, privateKey)\<close> and \<open>box.Open\<close> with
    the same order, \<open>None\<close> when authentication fails;
  \<^item> \<open>ed25519.Sign(privateKey, message)\<close> and
    \<open>ed25519.Verify(publicKey, message, sig)\<close>.
\<close>

record crypto_prims =
  curve25519_ScalarMult :: "bytes \<Rightarrow> bytes \<Rightarrow> bytes"
  hkdf_New :: "bytes \<Rightarrow> bytes \<Rightarrow> bytes \<Rightarrow> bytes"
  box_Seal :: "bytes \<Rightarrow> bytes \<Rightarrow> bytes \<Rightarrow> bytes \<Rightarrow> bytes"
  box_Open :: "bytes \<Rightarrow> bytes \<Rightarrow> bytes \<Rightarrow> bytes \<Rightarrow> bytes option"
  ed25519_Sign :: "bytes \<Rightarrow> bytes \<Rightarrow> bytes"
  ed25519_Verify :: "bytes \<Rightarrow> bytes \<Rightarrow> bytes \<Rightarrow> bool"

text \<open>
  The service's keys and key maps (the configuration and the mutex are left out: no
  function below reads them).
\<close>

record EncryptionService =
  privateKey :: bytes
  publicKey :: bytes
  signingPrivateKey :: bytes
  signingPublicKey :: bytes
  peerPublicKeys :: "gostring \<rightharpoonup> bytes"
  peerSigningKeys :: "gostring \<rightharpoonup> bytes"
  peerIdentityKeys :: "gostring \<rightharpoonup> bytes"
  sharedSecrets :: "gostring \<rightharpoonup> bytes"
  ephemeralKeys :: "gostring \<rightharpoonup> bytes"
  identityKey :: bytes
  identityPublicKey :: bytes

definition GetCombinedPublicKeyData :: "EncryptionService \<Rightarrow> bytes" where
  "GetCombinedPublicKeyData es = publicKey es @ signingPublicKey es @ identityPublicKey es"

text \<open>
  \<open>io.ReadFull(kdf, derivedKey)\<close> on the key-derivation reader: it fills the buffer or
  fails when the reader runs dry.
\<close>

definition kdf_ReadFull :: "nat \<Rightarrow> bytes \<Rightarrow> go_error + bytes" where
  "kdf_ReadFull n stream =
     (if length stream < n then Inl (ErrOther (str ''unexpected EOF'')) else Inr (take n stream))"

text \<open>
  \<open>AddPeerPublicKey\<close> returns the error (\<open>None\<close> for nil) and the service as it is left.
  (A parameter or local that shares its name with a field of the service is renamed:
  \<open>idKey\<close> for \<open>identityKey\<close>, \<open>pubKey\<close> for \<open>publicKey\<close>.)
  The three keys are stored before the key derivation, so an error of the derivation
  leaves them stored.
\<close>

definition AddPeerPublicKey ::
  "crypto_prims \<Rightarrow> EncryptionService \<Rightarrow> gostring \<Rightarrow> bytes
     \<Rightarrow> go_error option \<times> EncryptionService" where
  "AddPeerPublicKey X es peerID publicKeyData =
     (if length publicKeyData \<noteq> 96 then (Some ErrInvalidPublicKey, es)
      else
        let keyAgreementKey = take 32 publicKeyData;
            signingKey = take 32 (drop 32 publicKeyData);
            idKey = take 32 (drop 64 publicKeyData);
            es1 = es\<lparr>peerPublicKeys := (peerPublicKeys es)(peerID \<mapsto> keyAgreementKey),
                     peerSigningKeys := (peerSigningKeys es)(peerID \<mapsto> signingKey),
                     peerIdentityKeys := (peerIdentityKeys es)(peerID \<mapsto> idKey)\<rparr>;
            sharedKey = curve25519_ScalarMult X (privateKey es) keyAgreementKey;
            kdf = hkdf_New X sharedKey (str ''bitchat-v1'') []
        in case kdf_ReadFull 32 kdf of
             Inl err \<Rightarrow> (Some err, es1)
           | Inr derivedKey \<Rightarrow>
               (None, es1\<lparr>sharedSecrets := (sharedSecrets es1)(peerID \<mapsto> derivedKey)\<rparr>))"

text \<open>
  \<open>Encrypt\<close>: \<open>randNonce\<close> is what \<open>io.ReadFull(rand.Reader, nonce)\<close> gave, an error or
  the 24 bytes. The result is ciphertext and nonce.
\<close>

definition Encrypt ::
  "crypto_prims \<Rightarrow> EncryptionService \<Rightarrow> go_error + bytes \<Rightarrow> bytes \<Rightarrow> bytes
     \<Rightarrow> go_error + bytes \<times> bytes" where
  "Encrypt X es randNonce data pubKey =
     (if length pubKey \<noteq> 32 then Inl ErrInvalidPublicKey
      else case randNonce of
             Inl err \<Rightarrow> Inl err
           | Inr nonce \<Rightarrow> Inr (box_Seal X data nonce pubKey (privateKey es), nonce))"

definition Decrypt ::
  "crypto_prims \<Rightarrow> EncryptionService \<Rightarrow> bytes \<Rightarrow> bytes \<Rightarrow> bytes option
     \<Rightarrow> go_error + bytes" where
  "Decrypt X es ciphertext pubKey nonce =
     (if length pubKey \<noteq> 32 then Inl ErrInvalidPublicKey
      else if slice_len nonce \<noteq> 24 then 
             Inl (ErrOther (str ''tamanho de nonce inv'' @ [0xC3, 0xA1] @ str ''lido''))
      else
        case box_Open X ciphertext (slice_bytes nonce) pubKey (privateKey es) of
          Some plaintext \<Rightarrow> Inr plaintext
        | None \<Rightarrow>
            (case box_Open X ciphertext (slice_bytes nonce) pubKey (privateKey es) of
               Some plaintext \<Rightarrow> Inr plaintext
             | None \<Rightarrow> Inl ErrDecryptionFailed))"

definition Sign :: "crypto_prims \<Rightarrow> EncryptionService \<Rightarrow> bytes \<Rightarrow> go_error + bytes" where
  "Sign X es data = Inr (ed25519_Sign X (signingPrivateKey es) data)"

definition Verify :: "crypto_prims \<Rightarrow> bytes \<Rightarrow> bytes \<Rightarrow> bytes \<Rightarrow> go_error + bool" where
  "Verify X signature data pubKey =
     (if length pubKey \<noteq> 32
      then Inl (ErrOther (str ''tamanho inv'' @ [0xC3, 0xA1] @ str ''lido de chave p'' @
                          [0xC3, 0xBA] @ str ''blica: '' @ decimal (length pubKey) @
                          str '', esperado '' @ decimal 32))
      else Inr (ed25519_Verify X pubKey data signature))"

text \<open>
  Stand-ins for the primitives, to run the model on concrete inputs. They are not
  cryptography: the "shared secret" is the first 32 bytes of scalar and point side by
  side, and the "key derivation" lays its salt, a separator byte \<open>0xFF\<close> and its info
  out in the open, padded with zeros to 64 bytes, so that its output shows which argument
  went where.
\<close>

definition test_prims :: crypto_prims where
  "test_prims =
     \<lparr>curve25519_ScalarMult = (\<lambda>scalar point. take 32 (scalar @ point)),
      hkdf_New = (\<lambda>secret salt info. take 64 (salt @ [0xFF] @ info @ replicate 64 0)),
      box_Seal = (\<lambda>message nonce peersPublicKey privKey. message),
      box_Open = (\<lambda>box nonce peersPublicKey privKey. Some box),
      ed25519_Sign = (\<lambda>privKey message. replicate 64 0),
      ed25519_Verify = (\<lambda>pubKey message sig. True)\<rparr>"

definition test_service :: EncryptionService where
  "test_service =
     \<lparr>privateKey = replicate 32 7, publicKey = replicate 32 8,
      signingPrivateKey = replicate 64 9, signingPublicKey = replicate 32 10,
      peerPublicKeys = Map.empty, peerSigningKeys = Map.empty,
      peerIdentityKeys = Map.empty, sharedSecrets = Map.empty, ephemeralKeys = Map.empty,
      identityKey = replicate 64 11, identityPublicKey = replicate 32 12\<rparr>"

definition test_bundle :: bytes where
  "test_bundle = replicate 32 1 @ replicate 32 2 @ replicate 32 3"

section \<open>Utilities (pkg/utils)\<close>

text \<open>
  \<open>hex.EncodeToString\<close>: two lower-case hexadecimal digits for each byte.
\<close>

definition hexdigit :: "nat \<Rightarrow> byte" where
  "hexdigit n = str ''0123456789abcdef'' ! (n mod 16)"

definition hex_EncodeToString :: "bytes \<Rightarrow> gostring" where
  "hex_EncodeToString bs = concat (map (\<lambda>b. [hexdigit (unat b div 16), hexdigit (unat b mod 16)]) bs)"

text \<open>
  \<open>GenerateMessageID(packet)\<close> hashes \<open>time.Now().String()\<close> and 8 bytes read from
  \<open>crypto/rand\<close> with SHA-256 and returns the first 16 bytes of the digest in hexadecimal.
  Its argument \<open>packet\<close> is never read. What the clock and the random source gave is
  outside the program: the model takes the digest of the call as an argument.
\<close>

definition GenerateMessageID :: "bytes \<Rightarrow> 'p \<Rightarrow> gostring" where
  "GenerateMessageID digest packet = hex_EncodeToString (take 16 digest)"

definition ByteArraysEqual :: "bytes option \<Rightarrow> bytes option \<Rightarrow> bool" where
  "ByteArraysEqual a b =
     (if slice_len a \<noteq> slice_len b then False
      else list_all2 (\<lambda>x y. x = y) (slice_bytes a) (slice_bytes b))"

text \<open>
  \<open>ExpiringSet\<close>: a map from item to expiry time. Times are nanoseconds as \<open>int\<close>. The
  periodic cleanup goroutine only deletes entries that \<open>Contains\<close> and \<open>Add\<close> already
  treat as absent; it is not modelled.
\<close>

record ExpiringSet =
  set_items :: "gostring \<rightharpoonup> int"
  set_ttl :: int

definition Contains :: "ExpiringSet \<Rightarrow> int \<Rightarrow> gostring \<Rightarrow> bool" where
  "Contains es now item =
     (case set_items es item of Some expiry \<Rightarrow> expiry > now | None \<Rightarrow> False)"

definition Add :: "ExpiringSet \<Rightarrow> int \<Rightarrow> gostring \<Rightarrow> bool \<times> ExpiringSet" where
  "Add es now item =
     (if (case set_items es item of Some expiry \<Rightarrow> expiry > now | None \<Rightarrow> False)
      then (False, es)
      else (True, es\<lparr>set_items := (set_items es)(item \<mapsto> now + set_ttl es)\<rparr>))"

section \<open>The mesh service (internal/bluetooth: BluetoothMeshService)\<close>

datatype DeliveryStatus =
    DeliveryStatusSending | DeliveryStatusSent | DeliveryStatusDelivered
  | DeliveryStatusRead | DeliveryStatusFailed | DeliveryStatusPartiallyDelivered

record DeliveryInfo =
  Status :: DeliveryStatus
  Recipient :: gostring
  info_Timestamp :: "64 word"
  FailReason :: gostring
  ReachedPeers :: int
  TotalPeers :: int
  Attempts :: int
  Error :: gostring

record BitchatMessage =
  msg_ID :: gostring
  Sender :: gostring
  Content :: gostring
  msg_Timestamp :: "64 word"
  IsRelay :: bool
  OriginalSender :: gostring
  IsPrivate :: bool
  RecipientNickname :: gostring
  SenderPeerID :: gostring
  Mentions :: "gostring list"
  Channel :: gostring
  EncryptedContent :: "bytes option"
  IsEncrypted :: bool
  msg_DeliveryStatus :: DeliveryStatus

record Peer =
  peer_ID :: gostring
  Name :: gostring
  LastSeen :: int
  PublicKeyData :: "bytes option"
  RSSI :: int
  HopCount :: int
  peer_IsRelay :: bool
  MessageQueue :: "BitchatPacket list"

record CachedMessage =
  Packet :: BitchatPacket
  ReceivedAt :: int
  ExpiresAt :: int
  DeliveredTo :: "gostring \<rightharpoonup> bool"
  cached_OriginalSender :: gostring

text \<open>The calls made on the \<open>MeshDelegate\<close> interface, recorded in order.\<close>

datatype delegate_call =
    OnPeerDiscovered gostring gostring
  | OnPeerLost gostring
  | OnMessageReceived BitchatMessage
  | OnMessageDeliveryChanged gostring DeliveryStatus DeliveryInfo

text \<open>
  The service. Fields that share a name with a field of another struct carry a prefix
  (\<open>msg_ID\<close>, \<open>peer_ID\<close>, ...). The two Go maps that the code iterates (\<open>peers\<close>, the
  cache's \<open>messages\<close>) are association lists with distinct keys, visited in list
  order; Go leaves the order of a map iteration open, and the list stands for whichever
  order an iteration takes. \<open>delegate\<close> says whether a delegate is set, \<open>delegate_calls\<close>
  records the calls made on it. The two channels are lists (oldest first); a send on a
  full channel blocks in Go and is not modelled. A function that reads the clock takes
  the reading \<open>now\<close> (nanoseconds) as an argument, one reading for the whole call.
\<close>

record BluetoothMeshService =
  deviceID :: "bytes option"
  deviceName :: gostring
  encryptionService :: EncryptionService
  delegate :: bool
  delegate_calls :: "delegate_call list"
  peers :: "(gostring \<times> Peer) list"
  messageCache :: "(gostring \<times> CachedMessage) list"
  maxSize :: int
  seenMessages :: ExpiringSet
  batteryMode :: int
  coverTraffic :: bool
  outgoingMessages :: "BitchatPacket list"
  incomingMessages :: "BitchatPacket list"

definition BatteryModeNormal :: int where "BatteryModeNormal = 0"
definition BatteryModeLow :: int where "BatteryModeLow = 1"
definition BatteryModeUltraLow :: int where "BatteryModeUltraLow = 2"

definition DefaultMessageCacheTTL :: int where
  "DefaultMessageCacheTTL = 5 * 60 * 1000000000"

definition DefaultMessageCacheSize :: int where
  "DefaultMessageCacheSize = 1000"

definition UnixMilli :: "int \<Rightarrow> 64 word" where
  "UnixMilli now = of_int (now div 1000000)"

definition zero_packet :: BitchatPacket where
  "zero_packet =
     \<lparr>Version = 0, Type = 0, SenderID = None, RecipientID = None, Timestamp = 0,
      Payload = None, Signature = None, TTL = 0, ID = [], Nonce = None\<rparr>"

definition zero_message :: BitchatMessage where
  "zero_message =
     \<lparr>msg_ID = [], Sender = [], Content = [], msg_Timestamp = 0, IsRelay = False,
      OriginalSender = [], IsPrivate = False, RecipientNickname = [], SenderPeerID = [],
      Mentions = [], Channel = [], EncryptedContent = None, IsEncrypted = False,
      msg_DeliveryStatus = DeliveryStatusSending\<rparr>"

definition zero_info :: DeliveryInfo where
  "zero_info =
     \<lparr>Status = DeliveryStatusSending, Recipient = [], info_Timestamp = 0, FailReason = [],
      ReachedPeers = 0, TotalPeers = 0, Attempts = 0, Error = []\<rparr>"

definition getPeer :: "BluetoothMeshService \<Rightarrow> gostring \<Rightarrow> Peer option" where
  "getPeer bms peerID = map_of (peers bms) peerID"

text \<open>
  \<open>findPeerIDByNickname\<close>: the id of the first peer, in iteration order, whose name is
  the nickname; the empty string when there is none.
\<close>

fun findPeerIDByNickname_loop :: "(gostring \<times> Peer) list \<Rightarrow> gostring \<Rightarrow> gostring" where
  "findPeerIDByNickname_loop [] nickname = []"
| "findPeerIDByNickname_loop ((pid, peer) # rest) nickname =
     (if Name peer = nickname then pid else findPeerIDByNickname_loop rest nickname)"

definition findPeerIDByNickname :: "BluetoothMeshService \<Rightarrow> gostring \<Rightarrow> gostring" where
  "findPeerIDByNickname bms nickname = findPeerIDByNickname_loop (peers bms) nickname"

text \<open>
  \<open>SendMessage\<close> returns the message id or the error, the service as it is left and the
  message as it is left (the caller's message is written through its pointer).
  \<open>randNonce\<close> is what reading the nonce from \<open>crypto/rand\<close> gave inside \<open>Encrypt\<close>,
  \<open>digest\<close> the digest of the call to \<open>GenerateMessageID\<close>.
\<close>

definition SendMessage ::
  "crypto_prims \<Rightarrow> int \<Rightarrow> go_error + bytes \<Rightarrow> bytes \<Rightarrow> BluetoothMeshService \<Rightarrow> BitchatMessage
     \<Rightarrow> (go_error + gostring) \<times> BluetoothMeshService \<times> BitchatMessage" where
  "SendMessage X now randNonce digest bms message =
     (let packet = zero_packet\<lparr>Version := 1, Type := MessageTypeMessage,
                     SenderID := deviceID bms, Timestamp := UnixMilli now, TTL := 7\<rparr>;
          sign_and_send = (\<lambda>packet message.
            case Sign X (encryptionService bms) (slice_bytes (Payload packet)) of
              Inl err \<Rightarrow> (Inl (ErrOther (str ''erro ao assinar pacote'')), bms, message)
            | Inr signature \<Rightarrow>
                let packet = packet\<lparr>Signature := Some signature\<rparr>;
                    messageID = GenerateMessageID digest packet;
                    message = message\<lparr>msg_ID := messageID\<rparr>
                in (Inr messageID,
                    bms\<lparr>outgoingMessages := outgoingMessages bms @ [packet]\<rparr>, message))
      in
      if IsPrivate message then
        let peerID = findPeerIDByNickname bms (RecipientNickname message) in
        if peerID = [] then (Inl ErrPeerNotFound, bms, message)
        else
          case Encrypt X (encryptionService bms) randNonce (Content message) peerID of
            Inl err \<Rightarrow> (Inl err, bms, message)
          | Inr (encryptedContent, nonce) \<Rightarrow>
              sign_and_send
                (packet\<lparr>RecipientID := Some peerID, Payload := Some encryptedContent\<rparr>)
                (message\<lparr>EncryptedContent := Some encryptedContent, IsEncrypted := True\<rparr>)
      else if Channel message \<noteq> [] then
        sign_and_send
          (packet\<lparr>RecipientID := Some BroadcastRecipient, Payload := Some (Content message)\<rparr>)
          message
      else
        sign_and_send
          (packet\<lparr>RecipientID := Some BroadcastRecipient, Payload := Some (Content message)\<rparr>)
          message)"

text \<open>
  \<open>addToMessageCache\<close>. When the cache is full the loop finds the entry with the earliest
  \<open>ReceivedAt\<close> (the first such one in iteration order) and deletes it, unless its id is
  the empty string. The source stores the pointer to the packet; the entry of the model
  holds the packet as it is at that moment, and does not follow what is written through
  the pointer afterwards.
\<close>

definition oldest_cached :: "(gostring \<times> CachedMessage) list \<Rightarrow> (gostring \<times> int) option" where
  "oldest_cached messages =
     fold (\<lambda>(mid, msg) acc.
             case acc of
               None \<Rightarrow> Some (mid, ReceivedAt msg)
             | Some (oldestID, oldestTime) \<Rightarrow>
                 if ReceivedAt msg < oldestTime then Some (mid, ReceivedAt msg) else acc)
          messages None"

definition addToMessageCache ::
  "int \<Rightarrow> BluetoothMeshService \<Rightarrow> gostring \<Rightarrow> BitchatPacket \<Rightarrow> gostring
     \<Rightarrow> BluetoothMeshService" where
  "addToMessageCache now bms messageID packet originalSender =
     (if map_of (messageCache bms) messageID \<noteq> None then bms
      else
        let messages =
              (if int (length (messageCache bms)) \<ge> maxSize bms then
                 (case oldest_cached (messageCache bms) of
                    None \<Rightarrow> messageCache bms
                  | Some (oldestID, oldestTime) \<Rightarrow>
                      if oldestID \<noteq> [] then AList.delete oldestID (messageCache bms)
                      else messageCache bms)
               else messageCache bms);
            cacheTTL =
              (if batteryMode bms = BatteryModeLow then DefaultMessageCacheTTL div 2
               else if batteryMode bms = BatteryModeUltraLow then DefaultMessageCacheTTL div 4
               else DefaultMessageCacheTTL)
        in bms\<lparr>messageCache :=
                 AList.update messageID
                   \<lparr>Packet = packet, ReceivedAt = now, ExpiresAt = now + cacheTTL,
                    DeliveredTo = Map.empty, cached_OriginalSender = originalSender\<rparr>
                   messages\<rparr>)"

definition isPacketForUs :: "BluetoothMeshService \<Rightarrow> BitchatPacket \<Rightarrow> bool" where
  "isPacketForUs bms packet =
     (if slice_len (RecipientID packet) = length BroadcastRecipient \<and>
         list_all2 (\<lambda>x y. x = y) (slice_bytes (RecipientID packet)) BroadcastRecipient
      then True
      else ByteArraysEqual (RecipientID packet) (deviceID bms))"

text \<open>
  \<open>sendDeliveryAck\<close> and \<open>sendKeyExchange\<close> put a packet on the outgoing channel.
\<close>

definition sendDeliveryAck ::
  "crypto_prims \<Rightarrow> int \<Rightarrow> BluetoothMeshService \<Rightarrow> gostring \<Rightarrow> gostring
     \<Rightarrow> BluetoothMeshService" where
  "sendDeliveryAck X now bms messageID recipientID =
     (let packet = zero_packet\<lparr>Version := 1, Type := MessageTypeDeliveryAck,
                     SenderID := deviceID bms, RecipientID := Some recipientID,
                     Timestamp := UnixMilli now, Payload := Some messageID, TTL := 7\<rparr>
      in case Sign X (encryptionService bms) (slice_bytes (Payload packet)) of
           Inl err \<Rightarrow> bms
         | Inr signature \<Rightarrow>
             bms\<lparr>outgoingMessages :=
                   outgoingMessages bms @ [packet\<lparr>Signature := Some signature\<rparr>]\<rparr>)"

definition sendKeyExchange ::
  "int \<Rightarrow> BluetoothMeshService \<Rightarrow> gostring \<Rightarrow> BluetoothMeshService" where
  "sendKeyExchange now bms recipientID =
     (let publicKeyData = GetCombinedPublicKeyData (encryptionService bms);
          packet = zero_packet\<lparr>Version := 1, Type := MessageTypeKeyExchange,
                     SenderID := deviceID bms, RecipientID := Some recipientID,
                     Timestamp := UnixMilli now, Payload := Some publicKeyData, TTL := 1\<rparr>
      in bms\<lparr>outgoingMessages := outgoingMessages bms @ [packet]\<rparr>)"

definition msg_undecryptable :: gostring where
  "msg_undecryptable =
     str ''[Mensagem criptografada - chave n'' @ [0xC3, 0xA3] @ str ''o dispon'' @
     [0xC3, 0xAD] @ str ''vel]''"

definition msg_bad_signature :: gostring where
  "msg_bad_signature = str ''[AVISO: Assinatura inv'' @ [0xC3, 0xA1] @ str ''lida] ''"

text \<open>
  \<open>handleUserMessage\<close>. \<open>digest\<close> is the digest of its call to \<open>GenerateMessageID\<close>.
\<close>

definition handleUserMessage ::
  "crypto_prims \<Rightarrow> int \<Rightarrow> bytes \<Rightarrow> BluetoothMeshService \<Rightarrow> BitchatPacket
     \<Rightarrow> BluetoothMeshService" where
  "handleUserMessage X now digest bms packet =
     (let senderID = slice_bytes (SenderID packet) in
      case getPeer bms senderID of
        None \<Rightarrow> bms
      | Some peer \<Rightarrow>
          let message = zero_message\<lparr>msg_ID := GenerateMessageID digest packet,
                          Sender := Name peer, msg_Timestamp := Timestamp packet,
                          IsRelay := False, SenderPeerID := senderID\<rparr>;
              isPrivate = ByteArraysEqual (RecipientID packet) (deviceID bms);
              message = message\<lparr>IsPrivate := isPrivate\<rparr>;
              message =
                (if isPrivate then
                   (case Decrypt X (encryptionService bms) (slice_bytes (Payload packet))
                           senderID None of
                      Inr decrypted \<Rightarrow> message\<lparr>Content := decrypted, IsEncrypted := True\<rparr>
                    | Inl err \<Rightarrow> message\<lparr>Content := msg_undecryptable, IsEncrypted := True\<rparr>)
                 else message\<lparr>Content := slice_bytes (Payload packet)\<rparr>);
              message =
                (if slice_len (Signature packet) > 0 then
                   (case Verify X (slice_bytes (Signature packet)) (slice_bytes (Payload packet))
                           senderID of
                      Inr True \<Rightarrow> message
                    | _ \<Rightarrow> message\<lparr>Content := msg_bad_signature @ Content message\<rparr>)
                 else message);
              bms = sendDeliveryAck X now bms (msg_ID message) senderID
          in if delegate bms
             then bms\<lparr>delegate_calls := delegate_calls bms @ [OnMessageReceived message]\<rparr>
             else bms)"

text \<open>
  \<open>addOrUpdatePeer\<close>. The result of \<open>AddPeerPublicKey\<close> is dropped by the source; what it
  did to the key maps stays.
\<close>

definition addOrUpdatePeer ::
  "crypto_prims \<Rightarrow> int \<Rightarrow> BluetoothMeshService \<Rightarrow> gostring \<Rightarrow> gostring \<Rightarrow> bytes option
     \<Rightarrow> BluetoothMeshService" where
  "addOrUpdatePeer X now bms peerID name publicKeyData =
     (let existing = map_of (peers bms) peerID;
          isNew = (existing = None);
          peer = (case existing of
                    Some p \<Rightarrow> p
                  | None \<Rightarrow> \<lparr>peer_ID = peerID, Name = name, LastSeen = 0, PublicKeyData = None,
                             RSSI = 0, HopCount = 0, peer_IsRelay = False, MessageQueue = []\<rparr>);
          peer = peer\<lparr>LastSeen := now, Name := name\<rparr>;
          (peer, es) =
            (case publicKeyData of
               Some keyData \<Rightarrow>
                 (peer\<lparr>PublicKeyData := Some keyData\<rparr>,
                  snd (AddPeerPublicKey X (encryptionService bms) peerID keyData))
             | None \<Rightarrow> (peer, encryptionService bms));
          bms = bms\<lparr>peers := AList.update peerID peer (peers bms), encryptionService := es\<rparr>
      in if isNew \<and> delegate bms
         then bms\<lparr>delegate_calls := delegate_calls bms @ [OnPeerDiscovered peerID name]\<rparr>
         else bms)"

definition handleAnnounce ::
  "crypto_prims \<Rightarrow> int \<Rightarrow> BluetoothMeshService \<Rightarrow> BitchatPacket \<Rightarrow> BluetoothMeshService" where
  "handleAnnounce X now bms packet =
     (let payload = slice_bytes (Payload packet) in
      if length payload < 2 then bms
      else
        let nameLen = unat (payload ! 0) in
        if length payload < 1 + nameLen then bms
        else
          let name = take nameLen (drop 1 payload);
              publicKeyData = drop (1 + nameLen) payload;
              peerID = slice_bytes (SenderID packet)
          in addOrUpdatePeer X now bms peerID name (Some publicKeyData))"

definition handleKeyExchange ::
  "crypto_prims \<Rightarrow> int \<Rightarrow> BluetoothMeshService \<Rightarrow> BitchatPacket \<Rightarrow> BluetoothMeshService" where
  "handleKeyExchange X now bms packet =
     (let peerID = slice_bytes (SenderID packet) in
      case AddPeerPublicKey X (encryptionService bms) peerID (slice_bytes (Payload packet)) of
        (Some err, es) \<Rightarrow> bms\<lparr>encryptionService := es\<rparr>
      | (None, es) \<Rightarrow> sendKeyExchange now (bms\<lparr>encryptionService := es\<rparr>) peerID)"

definition handleDeliveryAck ::
  "int \<Rightarrow> BluetoothMeshService \<Rightarrow> BitchatPacket \<Rightarrow> BluetoothMeshService" where
  "handleDeliveryAck now bms packet =
     (if slice_len (Payload packet) < 16 then bms
      else
        let messageID = take 16 (slice_bytes (Payload packet)) in
        if delegate bms then
          let info = zero_info\<lparr>Status := DeliveryStatusDelivered,
                       Recipient := slice_bytes (SenderID packet),
                       info_Timestamp := UnixMilli now\<rparr>
          in bms\<lparr>delegate_calls := delegate_calls bms @
                   [OnMessageDeliveryChanged messageID DeliveryStatusDelivered info]\<rparr>
        else bms)"

definition handleReadReceipt ::
  "int \<Rightarrow> BluetoothMeshService \<Rightarrow> BitchatPacket \<Rightarrow> BluetoothMeshService" where
  "handleReadReceipt now bms packet =
     (if slice_len (Payload packet) < 16 then bms
      else
        let messageID = take 16 (slice_bytes (Payload packet)) in
        if delegate bms then
          let info = zero_info\<lparr>Status := DeliveryStatusRead,
                       Recipient := slice_bytes (SenderID packet),
                       info_Timestamp := UnixMilli now\<rparr>
          in bms\<lparr>delegate_calls := delegate_calls bms @
                   [OnMessageDeliveryChanged messageID DeliveryStatusRead info]\<rparr>
        else bms)"

definition processPacketForUs ::
  "crypto_prims \<Rightarrow> int \<Rightarrow> bytes \<Rightarrow> BluetoothMeshService \<Rightarrow> BitchatPacket
     \<Rightarrow> BluetoothMeshService" where
  "processPacketForUs X now digest bms packet =
     (if Type packet = MessageTypeMessage then handleUserMessage X now digest bms packet
      else if Type packet = MessageTypeAnnounce then handleAnnounce X now bms packet
      else if Type packet = MessageTypeKeyExchange then handleKeyExchange X now bms packet
      else if Type packet = MessageTypeDeliveryAck then handleDeliveryAck now bms packet
      else if Type packet = MessageTypeReadReceipt then handleReadReceipt now bms packet
      else bms)"

text \<open>
  \<open>handleIncomingPacket\<close>, the ingress pipeline. \<open>idDigest\<close> is the digest of its own call
  to \<open>GenerateMessageID\<close>, \<open>msgDigest\<close> that of the call inside \<open>handleUserMessage\<close>. The
  result is the service and the packet as they are left (the TTL is decremented through
  the pointer). The relay branch of the source is empty (a comment only).
\<close>

definition handleIncomingPacket ::
  "crypto_prims \<Rightarrow> int \<Rightarrow> bytes \<Rightarrow> bytes \<Rightarrow> BluetoothMeshService \<Rightarrow> BitchatPacket
     \<Rightarrow> BluetoothMeshService \<times> BitchatPacket" where
  "handleIncomingPacket X now idDigest msgDigest bms packet =
     (let messageID = GenerateMessageID idDigest packet in
      if Contains (seenMessages bms) now messageID then (bms, packet)
      else
        let bms = bms\<lparr>seenMessages := snd (Add (seenMessages bms) now messageID)\<rparr> in
        if TTL packet \<le> 0 then (bms, packet)
        else
          let packet = packet\<lparr>TTL := TTL packet - 1\<rparr>;
              senderID = slice_bytes (SenderID packet);
              bms = addToMessageCache now bms messageID packet senderID;
              isForUs = isPacketForUs bms packet
          in if isForUs then (processPacketForUs X now msgDigest bms packet, packet)
             else (bms, packet))"

text \<open>
  A small service and a packet to run the model on: the device \<open>0xD0\<close> knows one peer,
  \<open>0xB0\<close>, named bob, has a delegate, and has seen and cached nothing yet. The packet is
  a broadcast message \<open>hi\<close> from \<open>0xB0\<close> with TTL 7.
\<close>

definition test_mesh :: BluetoothMeshService where
  "test_mesh =
     \<lparr>deviceID = Some [0xD0], deviceName = str ''me'', encryptionService = test_service,
      delegate = True, delegate_calls = [],
      peers = [([0xB0], \<lparr>peer_ID = [0xB0], Name = str ''bob'', LastSeen = 0,
                         PublicKeyData = None, RSSI = 0, HopCount = 0, peer_IsRelay = False,
                         MessageQueue = []\<rparr>)],
      messageCache = [], maxSize = DefaultMessageCacheSize,
      seenMessages = \<lparr>set_items = Map.empty, set_ttl = DefaultMessageCacheTTL\<rparr>,
      batteryMode = BatteryModeNormal, coverTraffic = True,
      outgoingMessages = [], incomingMessages = []\<rparr>"

definition test_packet :: BitchatPacket where
  "test_packet =
     \<lparr>Version = 1, Type = MessageTypeMessage, SenderID = Some [0xB0],
      RecipientID = Some BroadcastRecipient, Timestamp = 1000, Payload = Some (str ''hi''),
      Signature = None, TTL = 7, ID = [], Nonce = None\<rparr>"

definition isOnMessageReceived :: "delegate_call \<Rightarrow> bool" where
  "isOnMessageReceived c = (case c of OnMessageReceived m \<Rightarrow> True | _ \<Rightarrow> False)"

section \<open>Fragmented sending (internal/bluetooth: LinuxMeshProvider)\<close>

text \<open>
  The provider sends through its Bluetooth adapter. The two adapter methods it calls are
  parameters of the model; each returns its error (\<open>None\<close> for nil).
\<close>

record BluetoothAdapter =
  SendData :: "bytes \<Rightarrow> gostring \<Rightarrow> go_error option"
  BroadcastData :: "bytes \<Rightarrow> go_error option"

definition MaxPacketSize :: int where "MaxPacketSize = 512"
definition MaxFragmentPayloadSize :: int where "MaxFragmentPayloadSize = 480"

definition isDirectedPacket :: "BitchatPacket \<Rightarrow> bool" where
  "isDirectedPacket packet =
     (if RecipientID packet = None \<or> slice_len (RecipientID packet) = 0 then False
      else list_ex (\<lambda>b. b \<noteq> 0xFF) (slice_bytes (RecipientID packet)))"

text \<open>The calls made on the adapter, recorded in order.\<close>

datatype transport_call = SendDataCall bytes gostring | BroadcastDataCall bytes

definition transmit ::
  "BluetoothAdapter \<Rightarrow> BitchatPacket \<Rightarrow> bytes \<Rightarrow> go_error option \<times> transport_call" where
  "transmit A packet data =
     (if isDirectedPacket packet then
        let recipientID = hex_EncodeToString (slice_bytes (RecipientID packet))
        in (SendData A data recipientID, SendDataCall data recipientID)
      else (BroadcastData A data, BroadcastDataCall data))"

text \<open>
  \<open>copy(dst, src)\<close> overwrites the front of \<open>dst\<close> with as much of \<open>src\<close> as fits.
\<close>

definition go_copy :: "bytes \<Rightarrow> bytes \<Rightarrow> bytes" where
  "go_copy dst src = take (length dst) src @ drop (length src) dst"

text \<open>
  The body of the loop of \<open>sendFragmentedPacket\<close> up to the fragment packet: fragment
  \<open>i\<close> of \<open>numFragments\<close>. The payload buffer is allocated zeroed, its first four bytes
  receive the fragment id, bytes 4 and 5 the truncated index and total, and the rest the
  slice \<open>data[offset:end]\<close>. (The length of a slice stays far below the greatest \<open>int\<close>:
  the sums and products of the loop, all bounded by \<open>len(data) + 480\<close>, do not wrap
  around.)
\<close>

definition fragment_packet ::
  "bytes \<Rightarrow> BitchatPacket \<Rightarrow> bytes \<Rightarrow> int \<Rightarrow> int \<Rightarrow> BitchatPacket" where
  "fragment_packet fragmentID packet data numFragments i =
     (let fragType = (if i = 0 then MessageTypeFragmentStart
                      else if i = numFragments - 1 then MessageTypeFragmentEnd
                      else MessageTypeFragmentContinue);
          offset = i * MaxFragmentPayloadSize;
          end0 = offset + MaxFragmentPayloadSize;
          end1 = (if end0 > int (length data) then int (length data) else end0);
          p0 = replicate (nat (6 + end1 - offset)) (0 :: byte);
          p1 = go_copy (take 4 p0) fragmentID @ drop 4 p0;
          p2 = p1[4 := of_int i];
          p3 = p2[5 := of_int numFragments];
          fragPayload = take 6 p3 @
                        go_copy (drop 6 p3) (take (nat (end1 - offset)) (drop (nat offset) data))
      in \<lparr>Version = Version packet, Type = fragType, SenderID = SenderID packet,
          RecipientID = RecipientID packet, Timestamp = Timestamp packet,
          Payload = Some fragPayload, Signature = None, TTL = TTL packet, ID = [],
          Nonce = None\<rparr>)"

text \<open>
  The loop over \<open>i = 0 .. numFragments-1\<close>, given as the list of indices still to send:
  encode the fragment, hand it to the adapter, stop at the first error.
\<close>

fun send_fragments ::
  "BluetoothAdapter \<Rightarrow> bytes \<Rightarrow> BitchatPacket \<Rightarrow> bytes \<Rightarrow> int \<Rightarrow> nat list
     \<Rightarrow> go_error option \<times> transport_call list" where
  "send_fragments A fragmentID packet data numFragments [] = (None, [])"
| "send_fragments A fragmentID packet data numFragments (i # rest) =
     (let fragData = Encode (fragment_packet fragmentID packet data numFragments (int i));
          (err, call) = transmit A packet fragData
      in case err of
           Some e \<Rightarrow> (Some e, [call])
         | None \<Rightarrow>
             (let (err', calls) = send_fragments A fragmentID packet data numFragments rest
              in (err', call # calls)))"

text \<open>
  \<open>sendFragmentedPacket\<close>: \<open>fragmentID\<close> is what \<open>utils.GenerateRandomID(4)\<close> returned.
  The result is the error and the calls made on the adapter.
\<close>

definition sendFragmentedPacket ::
  "BluetoothAdapter \<Rightarrow> bytes \<Rightarrow> BitchatPacket \<Rightarrow> bytes
     \<Rightarrow> go_error option \<times> transport_call list" where
  "sendFragmentedPacket A fragmentID packet data =
     (let numFragments =
            (int (length data) + MaxFragmentPayloadSize - 1) div MaxFragmentPayloadSize
      in send_fragments A fragmentID packet data numFragments [0 ..< nat numFragments])"

definition SendPacket ::
  "BluetoothAdapter \<Rightarrow> bytes \<Rightarrow> BitchatPacket \<Rightarrow> go_error option \<times> transport_call list" where
  "SendPacket A fragmentID packet =
     (let data = Encode packet in
      if int (length data) > MaxPacketSize then sendFragmentedPacket A fragmentID packet data
      else (let (err, call) = transmit A packet data in (err, [call])))"

text \<open>
  Two adapters to run the model with. \<open>LinuxBluetoothAdapter.SendData\<close> of the repository
  returns an error on every path (device not found, connection errors, and at the end
  \<open>"envio de dados nao implementado completamente"\<close>); \<open>rejecting_adapter\<close> stands for it.
  \<open>accepting_adapter\<close> is a transport that takes everything.
\<close>

definition rejecting_adapter :: BluetoothAdapter where
  "rejecting_adapter =
     \<lparr>SendData = (\<lambda>data deviceID. Some (ErrOther (str ''envio de dados nao implementado''))),
      BroadcastData = (\<lambda>data. None)\<rparr>"

definition accepting_adapter :: BluetoothAdapter where
  "accepting_adapter =
     \<lparr>SendData = (\<lambda>data deviceID. None), BroadcastData = (\<lambda>data. None)\<rparr>"

text \<open>
  A third adapter: a link that takes a full packet and fails on a shorter one.
\<close>

definition full_only_adapter :: BluetoothAdapter where
  "full_only_adapter =
     \<lparr>SendData = (\<lambda>data deviceID.
                    if length data < 520 then Some (ErrOther (str ''short write'')) else None),
      BroadcastData = (\<lambda>data. None)\<rparr>"

definition test_directed_packet :: BitchatPacket where
  "test_directed_packet =
     \<lparr>Version = 1, Type = MessageTypeMessage,
      SenderID = Some [0xA0, 0xA1, 0xA2, 0xA3, 0xA4, 0xA5, 0xA6, 0xA7],
      RecipientID = Some [0xB0, 0xB1, 0xB2, 0xB3, 0xB4, 0xB5, 0xB6, 0xB7],
      Timestamp = 1000, Payload = Some (replicate 1200 0x61), Signature = None, TTL = 7,
      ID = [], Nonce = None\<rparr>"

definition call_bytes :: "transport_call \<Rightarrow> bytes" where
  "call_bytes c = (case c of SendDataCall d t \<Rightarrow> d | BroadcastDataCall d \<Rightarrow> d)"

section \<open>The retry service (internal/service: RetryService)\<close>

text \<open>
  Durations and times are nanoseconds as \<open>int\<close>. \<open>BackoffFactor\<close> is a \<open>float64\<close>; its
  type is left open (\<open>'f\<close>), and the one floating-point expression of the service,
  \<open>time.Duration(float64(a) * float64(b) * c)\<close>, is a parameter \<open>fmul\<close> of the functions
  that evaluate it.
\<close>

record 'f RetryConfig =
  MaxRetries :: int
  InitialBackoff :: int
  BackoffFactor :: 'f
  MaxBackoff :: int
  MaxRetryTime :: int

text \<open>
  \<open>DefaultRetryConfig\<close>: 5 retries, 5 s, 2 min and 30 min; the value of the literal \<open>1.5\<close>
  of \<open>BackoffFactor\<close> is the parameter.
\<close>

definition DefaultRetryConfig :: "'f \<Rightarrow> 'f RetryConfig" where
  "DefaultRetryConfig factor =
     \<lparr>MaxRetries = 5, InitialBackoff = 5 * 1000000000, BackoffFactor = factor,
      MaxBackoff = 2 * (60 * 1000000000), MaxRetryTime = 30 * (60 * 1000000000)\<rparr>"

text \<open>
  A retry item. \<open>OnComplete\<close> says whether the item has a callback (is not nil); the
  calls of the callbacks are recorded in the service's \<open>completions\<close>, each with the
  message id, the success flag and the delivery info passed.
\<close>

record RetryItem =
  item_Packet :: BitchatPacket
  TargetPeerID :: gostring
  item_Attempts :: int
  FirstAttempt :: int
  NextAttempt :: int
  OnComplete :: bool

text \<open>
  The service: \<open>retryItems\<close> is the map from message id to item, an association list
  with distinct keys visited in list order; \<open>resent\<close> records the calls of the injected
  \<open>sendPacketFunc\<close>; \<open>expiry_timers\<close> holds the goroutines that \<open>AddRetryPacket\<close> has
  started and that still wait, each to call \<open>handleFailedDelivery\<close> for its id once
  \<open>MaxRetryTime\<close> has passed (id and deadline).
\<close>

record 'f RetryService =
  rs_config :: "'f RetryConfig"
  retryItems :: "(gostring \<times> RetryItem) list"
  completions :: "(gostring \<times> bool \<times> DeliveryInfo) list"
  resent :: "(BitchatPacket \<times> gostring) list"
  expiry_timers :: "(gostring \<times> int) list"

text \<open>
  \<open>NewRetryService\<close> with a configuration (a nil one is replaced by the default one
  first): no item is pending and nothing has happened yet.
\<close>

definition NewRetryService :: "'f RetryConfig \<Rightarrow> 'f RetryService" where
  "NewRetryService cfg =
     \<lparr>rs_config = cfg, retryItems = [], completions = [], resent = [],
      expiry_timers = []\<rparr>"

definition AddRetryPacket ::
  "'f RetryService \<Rightarrow> int \<Rightarrow> BitchatPacket \<Rightarrow> gostring \<Rightarrow> bool \<Rightarrow> 'f RetryService" where
  "AddRetryPacket rs now packet targetPeerID onComplete =
     (let messageID = ID packet in
      if map_of (retryItems rs) messageID \<noteq> None then rs
      else
        let item = \<lparr>item_Packet = packet, TargetPeerID = targetPeerID, item_Attempts = 1,
                    FirstAttempt = now, NextAttempt = now + InitialBackoff (rs_config rs),
                    OnComplete = onComplete\<rparr>;
            rs = rs\<lparr>retryItems := AList.update messageID item (retryItems rs)\<rparr>
        in if MaxRetryTime (rs_config rs) > 0
           then rs\<lparr>expiry_timers :=
                     expiry_timers rs @ [(messageID, now + MaxRetryTime (rs_config rs))]\<rparr>
           else rs)"

definition MarkDelivered :: "'f RetryService \<Rightarrow> int \<Rightarrow> gostring \<Rightarrow> 'f RetryService" where
  "MarkDelivered rs now messageID =
     (case map_of (retryItems rs) messageID of
        None \<Rightarrow> rs
      | Some item \<Rightarrow>
          let rs = (if OnComplete item then
                      rs\<lparr>completions := completions rs @
                            [(messageID, True,
                              zero_info\<lparr>Status := DeliveryStatusDelivered,
                                         info_Timestamp := UnixMilli now,
                                         Attempts := item_Attempts item\<rparr>)]\<rparr>
                    else rs)
          in rs\<lparr>retryItems := AList.delete messageID (retryItems rs)\<rparr>)"

definition msg_max_attempts :: gostring where
  "msg_max_attempts = str ''N'' @ [0xC3, 0xBA] @ str ''mero m'' @ [0xC3, 0xA1] @
                      str ''ximo de tentativas excedido''"

definition handleFailedDelivery :: "'f RetryService \<Rightarrow> int \<Rightarrow> gostring \<Rightarrow> 'f RetryService" where
  "handleFailedDelivery rs now messageID =
     (case map_of (retryItems rs) messageID of
        None \<Rightarrow> rs
      | Some item \<Rightarrow>
          let rs = (if OnComplete item then
                      rs\<lparr>completions := completions rs @
                            [(messageID, False,
                              zero_info\<lparr>Status := DeliveryStatusFailed,
                                         info_Timestamp := UnixMilli now,
                                         Attempts := item_Attempts item,
                                         Error := msg_max_attempts,
                                         FailReason := msg_max_attempts\<rparr>)]\<rparr>
                    else rs)
          in rs\<lparr>retryItems := AList.delete messageID (retryItems rs)\<rparr>)"

text \<open>
  The goroutine that \<open>AddRetryPacket\<close> starts waits for \<open>time.After(MaxRetryTime)\<close> and
  then calls \<open>handleFailedDelivery\<close> with its id. \<open>expiryTimer\<close> is such a goroutine of
  the id getting to run at the clock reading \<open>now\<close>: one whose deadline has come ends its
  wait and makes the call; when the id has none, nothing happens.
\<close>

definition expiryTimer :: "'f RetryService \<Rightarrow> int \<Rightarrow> gostring \<Rightarrow> 'f RetryService" where
  "expiryTimer rs now messageID =
     (case find (\<lambda>t. fst t = messageID \<and> snd t \<le> now) (expiry_timers rs) of
        None \<Rightarrow> rs
      | Some t \<Rightarrow>
          handleFailedDelivery (rs\<lparr>expiry_timers := remove1 t (expiry_timers rs)\<rparr>)
            now messageID)"

text \<open>
  \<open>retryMessage\<close> works on the item through its pointer; the model names the item by
  its id and writes the item back under it. \<open>Attempts\<close> is an \<open>int\<close>: the increment and
  the decrement wrap around. The error of \<open>sendPacketFunc\<close> is only printed by the
  source.
\<close>

definition retryMessage ::
  "(int \<Rightarrow> int \<Rightarrow> 'f \<Rightarrow> int) \<Rightarrow> 'f RetryService \<Rightarrow> int \<Rightarrow> gostring \<Rightarrow> 'f RetryService" where
  "retryMessage fmul rs now messageID =
     (case map_of (retryItems rs) messageID of
        None \<Rightarrow> rs
      | Some item \<Rightarrow>
          let item = item\<lparr>item_Attempts := int_wrap (item_Attempts item + 1)\<rparr>;
              backoff0 = fmul (InitialBackoff (rs_config rs))
                              (int_wrap (item_Attempts item - 1))
                              (BackoffFactor (rs_config rs));
              backoff = (if backoff0 > MaxBackoff (rs_config rs) then MaxBackoff (rs_config rs)
                         else backoff0);
              item = item\<lparr>NextAttempt := now + backoff\<rparr>
          in rs\<lparr>retryItems := AList.update messageID item (retryItems rs),
                resent := resent rs @ [(item_Packet item, TargetPeerID item)]\<rparr>)"

text \<open>
  \<open>processRetries\<close>: collect the due items, those that reached \<open>MaxRetries\<close> for removal
  and the others for another attempt; retry the latter, then fail the former.
\<close>

definition processRetries ::
  "(int \<Rightarrow> int \<Rightarrow> 'f \<Rightarrow> int) \<Rightarrow> 'f RetryService \<Rightarrow> int \<Rightarrow> 'f RetryService" where
  "processRetries fmul rs now =
     (let due = filter (\<lambda>(mid, item). now > NextAttempt item) (retryItems rs);
          itemsToRemove =
            map fst (filter (\<lambda>(mid, item). item_Attempts item \<ge> MaxRetries (rs_config rs)) due);
          itemsToRetry =
            map fst (filter (\<lambda>(mid, item). \<not> item_Attempts item \<ge> MaxRetries (rs_config rs)) due);
          rs = fold (\<lambda>mid rs. retryMessage fmul rs now mid) itemsToRetry rs
      in fold (\<lambda>mid rs. handleFailedDelivery rs now mid) itemsToRemove rs)"

definition ClearRetries :: "'f RetryService \<Rightarrow> 'f RetryService" where
  "ClearRetries rs = rs\<lparr>retryItems := []\<rparr>"

text \<open>
  What can happen to the service, each with the clock reading at which it happens: the
  calls of its API, a tick of the retry loop, and an expiry timer of an id getting to
  run. The mutex of the service lets one call in at a time, and a tick is taken as one
  step: each event runs to its end before the next. (\<open>Stop\<close> ends the loop and the
  waiting timers: after it no tick and no timer event happens.)
\<close>

datatype retry_event =
    EvAdd BitchatPacket gostring bool
  | EvMarkDelivered gostring
  | EvTick
  | EvTimer gostring
  | EvClear

fun retry_step ::
  "(int \<Rightarrow> int \<Rightarrow> 'f \<Rightarrow> int) \<Rightarrow> 'f RetryService \<Rightarrow> int \<times> retry_event \<Rightarrow> 'f RetryService" where
  "retry_step fmul rs (now, EvAdd packet target cb) = AddRetryPacket rs now packet target cb"
| "retry_step fmul rs (now, EvMarkDelivered mid) = MarkDelivered rs now mid"
| "retry_step fmul rs (now, EvTick) = processRetries fmul rs now"
| "retry_step fmul rs (now, EvTimer mid) = expiryTimer rs now mid"
| "retry_step fmul rs (now, EvClear) = ClearRetries rs"

definition retry_run ::
  "(int \<Rightarrow> int \<Rightarrow> 'f \<Rightarrow> int) \<Rightarrow> 'f RetryService \<Rightarrow> (int \<times> retry_event) list
     \<Rightarrow> 'f RetryService" where
  "retry_run fmul rs evs = fold (\<lambda>ev rs. retry_step fmul rs ev) evs rs"

text \<open>The callbacks made for one message id, and the events that add that id again.\<close>

definition completions_for :: "gostring \<Rightarrow> 'f RetryService \<Rightarrow> (gostring \<times> bool \<times> DeliveryInfo) list" where
  "completions_for mid rs = filter (\<lambda>c. fst c = mid) (completions rs)"

definition adds_id :: "gostring \<Rightarrow> int \<times> retry_event \<Rightarrow> bool" where
  "adds_id mid ev = (case snd ev of EvAdd packet target cb \<Rightarrow> ID packet = mid | _ \<Rightarrow> False)"

text \<open>
  The two delivery reports that the callbacks receive.
\<close>

definition delivered_info :: "int \<Rightarrow> RetryItem \<Rightarrow> DeliveryInfo" where
  "delivered_info now item =
     zero_info\<lparr>Status := DeliveryStatusDelivered, info_Timestamp := UnixMilli now,
                Attempts := item_Attempts item\<rparr>"

definition failed_info :: "int \<Rightarrow> RetryItem \<Rightarrow> DeliveryInfo" where
  "failed_info now item =
     zero_info\<lparr>Status := DeliveryStatusFailed, info_Timestamp := UnixMilli now,
                Attempts := item_Attempts item, Error := msg_max_attempts,
                FailReason := msg_max_attempts\<rparr>"

text \<open>
  The floating-point expression where it is exact. \<open>float64\<close> holds every integer of
  magnitude up to \<open>2\<^sup>5\<^sup>3\<close> and rounds a product to the nearest value it holds: for a
  \<open>BackoffFactor\<close> with an integer value \<open>c\<close>, \<open>time.Duration(float64(a) * float64(b) * c)\<close>
  is \<open>a * b * c\<close> as long as \<open>a\<close>, \<open>b\<close>, \<open>c\<close>, \<open>a * b\<close> and \<open>a * b * c\<close> stay within that
  magnitude. \<open>exact_product\<close> stands for the expression on such values.
\<close>

definition exact_product :: "int \<Rightarrow> int \<Rightarrow> int \<Rightarrow> int" where
  "exact_product a b c = a * b * c"

text \<open>
  A message to run the service on, and the trace that adds it at time 0 to a new service
  with the default configuration and the backoff factor \<open>c\<close>.
\<close>

definition test_retry_packet :: BitchatPacket where
  "test_retry_packet = test_packet\<lparr>ID := [0x6D]\<rparr>"

definition test_retry :: "int \<Rightarrow> int RetryService" where
  "test_retry c =
     retry_run exact_product (NewRetryService (DefaultRetryConfig c))
       [(0, EvAdd test_retry_packet [0xB0] True)]"

text \<open>
  What holds of a service however it has been driven: an id is pending at most once, and
  when \<open>MaxRetryTime\<close> is positive the timer of every pending item waits, with the
  item's first attempt plus \<open>MaxRetryTime\<close> as its deadline; otherwise no timer waits.
\<close>

definition retry_inv :: "'f RetryService \<Rightarrow> bool" where
  "retry_inv rs =
     (distinct (map fst (retryItems rs)) \<and>
      (if 0 < MaxRetryTime (rs_config rs)
       then list_all (\<lambda>(mid, item).
                        (mid, FirstAttempt item + MaxRetryTime (rs_config rs))
                          \<in> set (expiry_timers rs)) (retryItems rs)
       else expiry_timers rs = []))"

section \<open>Verified properties\<close>

subsection \<open>The padding primitive\<close>

lemma fold_upd_length:
  "length (fold (\<lambda>i p. p[i := f i]) is xs) = length xs"
  by (induction "is" arbitrary: xs) simp_all

lemma fold_upd_take:
  "\<forall>i \<in> set is. k \<le> i \<Longrightarrow> take k (fold (\<lambda>i p. p[i := f i]) is xs) = take k xs"
  by (induction "is" arbitrary: xs) simp_all

lemma Pad_skip:
  "targetSize \<le> int (length data) \<or> targetSize - int (length data) > 255
     \<Longrightarrow> Pad data targetSize = data"
  by (auto simp: Pad_def Let_def)

lemma Pad_padded:
  assumes "int (length data) < targetSize" "targetSize - int (length data) \<le> 255"
  shows "length (Pad data targetSize) = nat targetSize"
    and "take (length data) (Pad data targetSize) = data"
    and "Pad data targetSize ! (nat targetSize - 1) = of_int (targetSize - int (length data))"
proof -
  let ?n = "nat (targetSize - int (length data))"
  let ?p0 = "data @ replicate ?n (0 :: byte)"
  let ?p1 = "fold (\<lambda>i p. p[i := of_nat (i mod 256)]) [length data ..< length ?p0 - 1] ?p0"
  have P: "Pad data targetSize = ?p1[length ?p1 - 1 := of_int (targetSize - int (length data))]"
    using assms by (simp add: Pad_def Let_def)
  have L1: "length ?p1 = length data + ?n"
    by (simp add: fold_upd_length)
  have N: "length data + ?n = nat targetSize" "0 < ?n"
    using assms by auto
  show "length (Pad data targetSize) = nat targetSize"
    using P L1 N by simp
  have "take (length data) ?p1 = take (length data) ?p0"
    by (rule fold_upd_take) simp
  then have T: "take (length data) ?p1 = data" by simp
  have "take (length data) (Pad data targetSize) = take (length data) ?p1"
    unfolding P using L1 N by simp
  then show "take (length data) (Pad data targetSize) = data"
    using T by simp
  show "Pad data targetSize ! (nat targetSize - 1) = of_int (targetSize - int (length data))"
    unfolding P using L1 N by simp
qed

lemma uint_byte_of_int:
  "0 \<le> k \<Longrightarrow> k < 256 \<Longrightarrow> uint (word_of_int k :: byte) = k"
  by (simp add: uint_word_of_int)

lemma Unpad_eq:
  "Unpad data =
     Inr (if data = [] \<or> uint (last data) = 0 \<or> int (length data) < uint (last data)
          then data
          else take (length data - unat (last data)) data)"
proof (cases "data = []")
  case True
  then show ?thesis by (simp add: Unpad_def)
next
  case False
  then have "nat (int (length data) - 1) = length data - 1" "0 < length data"
    by auto
  with False have i: "index_chk data (int (length data) - 1) = Inr (last data)"
    by (simp add: index_chk_def last_conv_nth)
  have U: "Unpad data =
      (if uint (last data) \<le> 0 \<or> uint (last data) > int (length data) then Inr data
       else slice_to_chk data (int (length data) - uint (last data)))"
    using False by (simp add: Unpad_def i Let_def)
  show ?thesis
  proof (cases "uint (last data) = 0 \<or> int (length data) < uint (last data)")
    case True
    then show ?thesis unfolding U using False by auto
  next
    case out: False
    then have pos: "0 < uint (last data)" "uint (last data) \<le> int (length data)"
      by (auto simp: less_le)
    have tk: "nat (int (length data) - uint (last data)) = length data - unat (last data)"
      using pos by (simp add: nat_diff_distrib)
    have "Unpad data = Inr (take (length data - unat (last data)) data)"
      unfolding U slice_to_chk_def tk using pos by simp
    then show ?thesis using out False by simp
  qed
qed

lemma Unpad_Pad_padded:
  assumes "int (length data) < targetSize" "targetSize - int (length data) \<le> 255"
  shows "Unpad (Pad data targetSize) = Inr data"
proof -
  let ?k = "targetSize - int (length data)"
  let ?P = "Pad data targetSize"
  have k: "0 < ?k" "?k \<le> 255" using assms by auto
  have len: "length ?P = nat targetSize"
    and tk: "take (length data) ?P = data"
    and lst: "?P ! (nat targetSize - 1) = of_int ?k"
    using Pad_padded [OF assms] by auto
  have ne: "?P \<noteq> []" using len assms by auto
  have "last ?P = of_int ?k"
    using ne len lst by (simp add: last_conv_nth)
  moreover have "uint (of_int ?k :: byte) = ?k"
    using k by (intro uint_byte_of_int) auto
  ultimately have u: "uint (last ?P) = ?k"
    by (simp only:)
  have un: "unat (last ?P) = nat ?k"
    using u by (simp add: unat_eq_nat_uint)
  have "length ?P - nat ?k = length data" using len assms by auto
  then show ?thesis
    using ne k assms tk by (simp add: Unpad_eq u un len)
qed

lemma int_wrap_id: "- (2 ^ 63) \<le> x \<Longrightarrow> x < 2 ^ 63 \<Longrightarrow> int_wrap x = x"
  by (simp add: int_wrap_def)

lemma int_wrap_over:
  assumes "2 ^ 63 \<le> x" "x < 2 ^ 63 + 2 ^ 63"
  shows "int_wrap x = x - 2 ^ 64"
proof -
  have "(x + 2 ^ 63) mod 2 ^ 64 = (x + 2 ^ 63 - 2 ^ 64) mod 2 ^ 64"
    by (metis minus_mod_self2)
  also have "\<dots> = x + 2 ^ 63 - 2 ^ 64"
    using assms by (intro mod_pos_pos_trivial) auto
  finally show ?thesis by (simp add: int_wrap_def)
qed

text \<open>\<open>int_wrap\<close> is the arithmetic of 64-bit signed words.\<close>

lemma int_wrap_sint: "int_wrap x = sint (word_of_int x :: 64 word)"
  by (simp add: int_wrap_def sint_sbintrunc' signed_take_bit_eq_take_bit_shift take_bit_eq_mod)

lemma OptimalBlockSize_cases:
  "- (2 ^ 63) \<le> n \<Longrightarrow> n + 16 < 2 ^ 63 \<Longrightarrow> OptimalBlockSize n =
     (if n + 16 \<le> 256 then 256 else if n + 16 \<le> 512 then 512
      else if n + 16 \<le> 1024 then 1024 else if n + 16 \<le> 2048 then 2048 else n)"
  by (simp add: OptimalBlockSize_def blockSizes_def Let_def int_wrap_id)

lemma OptimalBlockSize_wraps:
  assumes "2 ^ 63 \<le> n + 16" "n < 2 ^ 63"
  shows "OptimalBlockSize n = 256"
proof -
  have "int_wrap (n + 16) = n + 16 - 2 ^ 64"
    using assms by (intro int_wrap_over) auto
  then have "int_wrap (n + 16) \<le> 256" using assms by simp
  then show ?thesis by (simp add: OptimalBlockSize_def blockSizes_def Let_def)
qed

lemma OptimalBlockSize_least:
  "- (2 ^ 63) \<le> n \<Longrightarrow> n + 16 < 2 ^ 63 \<Longrightarrow>
   (OptimalBlockSize n \<in> set blockSizes \<and> n + 16 \<le> OptimalBlockSize n \<and>
      (\<forall>b \<in> set blockSizes. n + 16 \<le> b \<longrightarrow> OptimalBlockSize n \<le> b))
   \<or> (OptimalBlockSize n = n \<and> (\<forall>b \<in> set blockSizes. b < n + 16))"
  by (simp add: OptimalBlockSize_cases blockSizes_def)

lemma Pad_padded_last:
  assumes "int (length data) < t" "t - int (length data) \<le> 255"
  shows "length (Pad data t) = nat t \<and> take (length data) (Pad data t) = data \<and>
         last (Pad data t) = of_int (t - int (length data))"
proof -
  have len: "length (Pad data t) = nat t" by (rule Pad_padded(1) [OF assms])
  then have "Pad data t \<noteq> []" using assms by auto
  then have "last (Pad data t) = Pad data t ! (nat t - 1)"
    by (simp add: last_conv_nth len)
  then show ?thesis using Pad_padded [OF assms] by simp
qed

lemma Unpad_Pad_optimal:
  assumes "(int (length data) < B \<and> B - int (length data) \<le> 255)
           \<or> data = [] \<or> uint (last data) = 0 \<or> int (length data) < uint (last data)"
  shows "Unpad (Pad data B) = Inr data"
proof (cases "int (length data) < B \<and> B - int (length data) \<le> 255")
  case True
  then show ?thesis using Unpad_Pad_padded [of data B] by simp
next
  case False
  then have "Pad data B = data" using Pad_skip [of B data] by auto
  moreover have "Unpad data = Inr data" using assms False by (auto simp: Unpad_eq)
  ultimately show ?thesis by simp
qed

text \<open>
  Claim C10. \<open>Unpad\<close> never panics: on every byte sequence it returns a value, and that
  value is a prefix of the input. The input comes back unchanged when it is empty or when
  its final byte encodes a padding length of 0 or one greater than the input length;
  otherwise the input comes back without its last final-byte-many bytes.
\<close>

theorem Unpad_total_prefix:
  "\<exists>out. Unpad data = Inr out \<and> prefix out data \<and>
     out = (if data = [] \<or> uint (last data) = 0 \<or> int (length data) < uint (last data)
            then data
            else take (length data - unat (last data)) data)"
  by (simp add: Unpad_eq take_is_prefix)

text \<open>
  Claim C8, as the code has it. For a data size \<open>n\<close> whose sum with 16 is a representable
  \<open>int\<close>, \<open>OptimalBlockSize\<close> returns the smallest of 256, 512, 1024 and 2048 that holds
  the data and 16 more bytes, and the data size itself when none does (for the last 16
  sizes below \<open>2\<^sup>6\<^sup>3\<close> the sum wraps around and the result is 256). \<open>Pad\<close> returns
  the data untouched when the data already reaches the target or when more than 255 bytes
  of padding would be needed; otherwise it returns exactly \<open>targetSize\<close> bytes that start
  with the data and end with the padding length. \<open>Unpad\<close> undoes \<open>Pad\<close> at the optimal
  block size whenever \<open>Pad\<close> did pad, and also when \<open>Pad\<close> skipped and the data is empty
  or its last byte is 0 or exceeds the data length.
\<close>

theorem Pad_Unpad_amended:
  "(- (2 ^ 63) \<le> n \<and> n + 16 < 2 ^ 63 \<longrightarrow>
      (OptimalBlockSize n \<in> set blockSizes \<and> n + 16 \<le> OptimalBlockSize n \<and>
         (\<forall>b \<in> set blockSizes. n + 16 \<le> b \<longrightarrow> OptimalBlockSize n \<le> b))
       \<or> (OptimalBlockSize n = n \<and> (\<forall>b \<in> set blockSizes. b < n + 16)))
   \<and> (2 ^ 63 \<le> n + 16 \<and> n < 2 ^ 63 \<longrightarrow> OptimalBlockSize n = 256)
   \<and> (t \<le> int (length data) \<or> 255 < t - int (length data) \<longrightarrow> Pad data t = data)
   \<and> (int (length data) < t \<and> t - int (length data) \<le> 255 \<longrightarrow>
         length (Pad data t) = nat t \<and> take (length data) (Pad data t) = data \<and>
         last (Pad data t) = of_int (t - int (length data)))
   \<and> ((int (length data) < OptimalBlockSize (int (length data)) \<and>
          OptimalBlockSize (int (length data)) - int (length data) \<le> 255)
        \<or> data = [] \<or> uint (last data) = 0 \<or> int (length data) < uint (last data)
        \<longrightarrow> Unpad (Pad data (OptimalBlockSize (int (length data)))) = Inr data)"
  using OptimalBlockSize_least [of n] OptimalBlockSize_wraps [of n]
    Pad_skip [of t data] Pad_padded_last [of data t]
    Unpad_Pad_optimal [of data "OptimalBlockSize (int (length data))"]
  by blast

theorem Pad_Unpad_amended_witness:
  "OptimalBlockSize 3 = 256 \<and>
   OptimalBlockSize 9223372036854775800 = 256 \<and>
   length (Pad [7, 8, 9] 256) = 256 \<and>
   take (length [7, 8, 9 :: byte]) (Pad [7, 8, 9] 256) = [7, 8, 9] \<and>
   last (Pad [7, 8, 9] 256) = 253 \<and>
   Unpad (Pad [7, 8, 9] (OptimalBlockSize 3)) = Inr [7, 8, 9] \<and>
   Pad [7, 8, 9] 2 = [7, 8, 9] \<and>
   Pad [7, 8, 9] 512 = [7, 8, 9]"
proof -
  have b: "OptimalBlockSize 3 = 256"
    by (simp add: OptimalBlockSize_cases)
  have w: "OptimalBlockSize 9223372036854775800 = 256"
    using Pad_Unpad_amended [of 9223372036854775800 0 "[]"] by simp
  show ?thesis
    using Pad_Unpad_amended [of 3 256 "[7, 8, 9]"] Pad_Unpad_amended [of 3 2 "[7, 8, 9]"]
      Pad_Unpad_amended [of 3 512 "[7, 8, 9]"] b w
    by simp
qed

text \<open>
  The round trip of claim C8 as the specification states it (for every data) fails: 241
  bytes that end in 1. The optimal block is 512, the 271 bytes of padding needed exceed
  255, \<open>Pad\<close> returns the data as it is, and \<open>Unpad\<close> reads the final 1 as a padding
  length and drops that byte.
\<close>

theorem Pad_Unpad_counterexample:
  "Unpad (Pad (replicate 241 1) (OptimalBlockSize (int (length (replicate 241 (1::byte))))))
     = Inr (replicate 240 1) \<and>
   replicate 240 1 \<noteq> replicate 241 (1 :: byte)"
proof -
  have b: "OptimalBlockSize (int (length (replicate 241 (1::byte)))) = 512"
    by (simp add: OptimalBlockSize_cases)
  have p: "Pad (replicate 241 (1::byte)) 512 = replicate 241 1"
    by (rule Pad_skip) simp
  have u: "Unpad (replicate 241 (1::byte)) = Inr (replicate 240 1)"
    by (simp add: Unpad_eq)
  have "length (replicate 240 (1::byte)) \<noteq> length (replicate 241 (1::byte))"
    by simp
  then have "replicate 240 1 \<noteq> replicate 241 (1 :: byte)" by metis
  then show ?thesis using b p u by simp
qed

subsection \<open>The codec round trip\<close>

lemma be_value_snoc: "be_value (bs @ [b]) = be_value bs * 256 + unat b"
  by (simp add: be_value_def)

lemma length_be_bytes: "length (be_bytes k n) = k"
  by (induction k arbitrary: n) simp_all

lemma be_bytes_numeral:
  "be_bytes (numeral k) n = be_bytes (pred_numeral k) (n div 256) @ [of_nat (n mod 256)]"
proof -
  have "be_bytes (Suc (pred_numeral k)) n
          = be_bytes (pred_numeral k) (n div 256) @ [of_nat (n mod 256)]"
    by (rule be_bytes.simps)
  then show ?thesis by (simp only: numeral_eq_Suc [symmetric])
qed

lemma be_value_be_bytes: "be_value (be_bytes k n) = n mod 256 ^ k"
proof (induction k arbitrary: n)
  case 0
  show ?case by (simp add: be_value_def)
next
  case (Suc k)
  have b: "unat (of_nat (n mod 256) :: byte) = n mod 256"
    by (simp add: unat_of_nat)
  have "be_value (be_bytes (Suc k) n) = (n div 256 mod 256 ^ k) * 256 + n mod 256"
    by (simp add: be_value_snoc Suc.IH b)
  also have "\<dots> = n mod (256 * 256 ^ k)"
    by (simp add: mod_mult2_eq)
  finally show ?case by simp
qed

lemma ReadByte_Cons: "ReadByte (b # rest) = Inr (b, rest)"
  by (simp add: ReadByte_def)

lemma ReadFull_append:
  "length xs = n \<Longrightarrow> 0 < n \<Longrightarrow> ReadFull n (xs @ rest) = Inr (xs, rest)"
  by (auto simp: ReadFull_def)

lemma read_uint64_put: "read_uint64 (put_uint64 v @ rest) = Inr (v, rest)"
proof -
  have "unat v mod 256 ^ 8 = unat v"
    using unsigned_less [of v, where 'a = nat] by simp
  then show ?thesis
    by (simp add: read_uint64_def put_uint64_def ReadFull_append length_be_bytes
        bind_res_def be_value_be_bytes)
qed

lemma read_uint32_put: "read_uint32 (put_uint32 v @ rest) = Inr (v, rest)"
proof -
  have "unat v mod 256 ^ 4 = unat v"
    using unsigned_less [of v, where 'a = nat] by simp
  then show ?thesis
    by (simp add: read_uint32_def put_uint32_def ReadFull_append length_be_bytes
        bind_res_def be_value_be_bytes)
qed

lemma read_field_append:
  "read_field (length xs) (xs @ rest) = Inr (nil_if_empty (Some xs), rest)"
  by (simp add: read_field_def ReadFull_append bind_res_def nil_if_empty_def slice_bytes_def)

lemma unat_byte_len: "n \<le> 255 \<Longrightarrow> unat (of_nat n :: byte) = n"
  by (simp add: unat_of_nat)

lemma unat_u32_len: "n < 2 ^ 32 \<Longrightarrow> unat (of_nat n :: 32 word) = n"
  by (simp add: unat_of_nat)

lemma Encode_layout:
  "Encode p =
     Version p # Type p # of_nat (slice_len (SenderID p)) # slice_bytes (SenderID p) @
     of_nat (slice_len (RecipientID p)) # slice_bytes (RecipientID p) @
     put_uint64 (Timestamp p) @
     put_uint32 (of_nat (slice_len (Payload p))) @ slice_bytes (Payload p) @
     of_nat (slice_len (Signature p)) # slice_bytes (Signature p) @ [TTL p]"
  by (simp add: Encode_def slice_len_def slice_bytes_def split: option.splits)

lemma length_Encode:
  "length (Encode p) =
     18 + slice_len (SenderID p) + slice_len (RecipientID p) + slice_len (Payload p)
        + slice_len (Signature p)"
  by (simp add: Encode_layout put_uint64_def put_uint32_def length_be_bytes slice_len_def)

lemma Decode_Encode:
  assumes "slice_len (SenderID p) \<le> 255" "slice_len (RecipientID p) \<le> 255"
    "slice_len (Signature p) \<le> 255" "slice_len (Payload p) < 2 ^ 32"
  shows "Decode (Encode p) =
     Inr \<lparr>Version = Version p, Type = Type p, SenderID = nil_if_empty (SenderID p),
          RecipientID = nil_if_empty (RecipientID p), Timestamp = Timestamp p,
          Payload = nil_if_empty (Payload p), Signature = nil_if_empty (Signature p),
          TTL = TTL p, ID = [], Nonce = None\<rparr>"
proof -
  have big: "\<not> length (Encode p) < 13" by (simp add: length_Encode)
  have f: "\<And>s rest. read_field (slice_len s) (slice_bytes s @ rest) = Inr (nil_if_empty s, rest)"
    using read_field_append by (simp add: slice_len_def nil_if_empty_def slice_bytes_def)
  show ?thesis
    unfolding Decode_def using big assms
    by (simp add: Encode_layout ReadByte_Cons bind_res_def f unat_byte_len unat_u32_len
        read_uint64_put read_uint32_put)
qed

text \<open>
  Claim C1. For every packet whose sender id, recipient id and signature are at most 255
  bytes long and whose payload is shorter than \<open>2^32\<close> bytes, decoding the encoding
  succeeds and returns a packet with the same version, type, timestamp and TTL and the
  same bytes in sender id, recipient id, payload and signature. (A slice of length 0
  comes back as \<open>nil\<close>, which holds the same, empty, byte sequence; the fields \<open>ID\<close>
  and \<open>Nonce\<close> are not on the wire.)
\<close>

theorem Decode_Encode_roundtrip:
  assumes "slice_len (SenderID P) \<le> 255" and "slice_len (RecipientID P) \<le> 255"
    and "slice_len (Signature P) \<le> 255" and "slice_len (Payload P) < 2 ^ 32"
  shows "\<exists>Q. Decode (Encode P) = Inr Q \<and>
           Version Q = Version P \<and> Type Q = Type P \<and>
           slice_bytes (SenderID Q) = slice_bytes (SenderID P) \<and>
           slice_bytes (RecipientID Q) = slice_bytes (RecipientID P) \<and>
           Timestamp Q = Timestamp P \<and>
           slice_bytes (Payload Q) = slice_bytes (Payload P) \<and>
           slice_bytes (Signature Q) = slice_bytes (Signature P) \<and>
           TTL Q = TTL P"
proof -
  let ?Q = "\<lparr>Version = Version P, Type = Type P, SenderID = nil_if_empty (SenderID P),
          RecipientID = nil_if_empty (RecipientID P), Timestamp = Timestamp P,
          Payload = nil_if_empty (Payload P), Signature = nil_if_empty (Signature P),
          TTL = TTL P, ID = [], Nonce = None\<rparr>"
  have n: "\<And>s. slice_bytes (nil_if_empty s) = slice_bytes s"
    by (simp add: nil_if_empty_def slice_bytes_def)
  have d: "Decode (Encode P) = Inr ?Q"
    by (rule Decode_Encode [OF assms])
  have fields: "Version ?Q = Version P" "Type ?Q = Type P"
    "slice_bytes (SenderID ?Q) = slice_bytes (SenderID P)"
    "slice_bytes (RecipientID ?Q) = slice_bytes (RecipientID P)"
    "Timestamp ?Q = Timestamp P"
    "slice_bytes (Payload ?Q) = slice_bytes (Payload P)"
    "slice_bytes (Signature ?Q) = slice_bytes (Signature P)"
    "TTL ?Q = TTL P"
    by (simp_all add: n)
  show ?thesis
    by (intro exI [of _ ?Q] conjI d fields)
qed

theorem Decode_Encode_roundtrip_witness:
  "Encode \<lparr>Version = 1, Type = 4, SenderID = Some [0xA1, 0xA2], RecipientID = None,
           Timestamp = 0x0102, Payload = Some [0x68, 0x69], Signature = Some [],
           TTL = 7, ID = [0x78], Nonce = None\<rparr>
     = [1, 4, 2, 0xA1, 0xA2, 0, 0, 0, 0, 0, 0, 0, 1, 2, 0, 0, 0, 2, 0x68, 0x69, 0, 7] \<and>
   (\<exists>Q. Decode [1, 4, 2, 0xA1, 0xA2, 0, 0, 0, 0, 0, 0, 0, 1, 2, 0, 0, 0, 2, 0x68, 0x69, 0, 7]
          = Inr Q \<and>
        Version Q = 1 \<and> Type Q = 4 \<and> slice_bytes (SenderID Q) = [0xA1, 0xA2] \<and>
        slice_bytes (RecipientID Q) = [] \<and> Timestamp Q = 0x0102 \<and>
        slice_bytes (Payload Q) = [0x68, 0x69] \<and> slice_bytes (Signature Q) = [] \<and>
        TTL Q = 7)"
proof -
  let ?P = "\<lparr>Version = 1, Type = 4, SenderID = Some [0xA1, 0xA2], RecipientID = None,
           Timestamp = 0x0102, Payload = Some [0x68, 0x69], Signature = Some [],
           TTL = 7, ID = [0x78], Nonce = None\<rparr>"
  have e: "Encode ?P
     = [1, 4, 2, 0xA1, 0xA2, 0, 0, 0, 0, 0, 0, 0, 1, 2, 0, 0, 0, 2, 0x68, 0x69, 0, 7]"
    by (simp add: Encode_def slice_len_def slice_bytes_def put_uint64_def put_uint32_def
        be_bytes_numeral)
  have h: "slice_len (SenderID ?P) \<le> 255" "slice_len (RecipientID ?P) \<le> 255"
    "slice_len (Signature ?P) \<le> 255" "slice_len (Payload ?P) < 2 ^ 32"
    by (simp_all add: slice_len_def slice_bytes_def)
  have s: "slice_bytes (SenderID ?P) = [0xA1, 0xA2]" "slice_bytes (RecipientID ?P) = []"
    "slice_bytes (Payload ?P) = [0x68, 0x69]" "slice_bytes (Signature ?P) = []"
    by (simp_all add: slice_bytes_def)
  have r: "Version ?P = 1" "Type ?P = 4" "Timestamp ?P = 0x0102" "TTL ?P = 7"
    by simp_all
  show ?thesis
    using Decode_Encode_roundtrip [OF h] unfolding e s r by (intro conjI refl)
qed

subsection \<open>TTL and relay\<close>

lemma DecreaseAndCheckTTL_positive:
  "DecreaseAndCheckTTL packet = (True, packet') \<Longrightarrow> 0 < TTL packet'"
proof -
  assume a: "DecreaseAndCheckTTL packet = (True, packet')"
  then have big: "\<not> TTL packet \<le> 1" and p: "packet' = packet\<lparr>TTL := TTL packet - 1\<rparr>"
    by (auto simp: DecreaseAndCheckTTL_def split: if_splits)
  from big have "TTL packet \<noteq> 1" by auto
  then have "0 < TTL packet - 1" by (simp add: word_greater_zero_iff)
  then show ?thesis using p by simp
qed

text \<open>
  Claim C3 at the failing input. A directed packet with TTL 1 reaches \<open>Router.RoutePacket\<close>
  of a router with the default configuration: the TTL is decremented to 0 and the packet is
  still handed to \<open>sendFunc\<close>, once, for its recipient.
\<close>

theorem RoutePacket_relays_ttl_zero:
  "RoutePacket (\<lambda>p t. None :: unit option) (NewRouter DefaultRoutingConfig)
     \<lparr>Version = 1, Type = MessageTypeMessage, SenderID = Some [1], RecipientID = Some [2],
      Timestamp = 0, Payload = Some [0x68, 0x69], Signature = None, TTL = 1, ID = [],
      Nonce = None\<rparr> []
   = (None,
      \<lparr>Version = 1, Type = MessageTypeMessage, SenderID = Some [1], RecipientID = Some [2],
       Timestamp = 0, Payload = Some [0x68, 0x69], Signature = None, TTL = 0, ID = [],
       Nonce = None\<rparr>,
      [(\<lparr>Version = 1, Type = MessageTypeMessage, SenderID = Some [1], RecipientID = Some [2],
         Timestamp = 0, Payload = Some [0x68, 0x69], Signature = None, TTL = 0, ID = [],
         Nonce = None\<rparr>, [2])])"
  by (simp add: RoutePacket_def NewRouter_def DefaultRoutingConfig_def isBlocked_def
      slice_bytes_def slice_len_def Let_def)

subsection \<open>Registering a peer's key bundle\<close>

lemma AddPeerPublicKey_reject:
  "length blob \<noteq> 96 \<Longrightarrow> AddPeerPublicKey X es peerID blob = (Some ErrInvalidPublicKey, es)"
  by (simp add: AddPeerPublicKey_def)

lemma AddPeerPublicKey_accept:
  assumes "length blob = 96"
    and "32 \<le> length (hkdf_New X (curve25519_ScalarMult X (privateKey es) (take 32 blob))
                          (str ''bitchat-v1'') [])"
  shows "AddPeerPublicKey X es peerID blob =
     (None,
      es\<lparr>peerPublicKeys := (peerPublicKeys es)(peerID \<mapsto> take 32 blob),
         peerSigningKeys := (peerSigningKeys es)(peerID \<mapsto> take 32 (drop 32 blob)),
         peerIdentityKeys := (peerIdentityKeys es)(peerID \<mapsto> take 32 (drop 64 blob)),
         sharedSecrets := (sharedSecrets es)(peerID \<mapsto>
           take 32 (hkdf_New X (curve25519_ScalarMult X (privateKey es) (take 32 blob))
                      (str ''bitchat-v1'') []))\<rparr>)"
  using assms by (simp add: AddPeerPublicKey_def kdf_ReadFull_def Let_def)

text \<open>
  Claim C6, as the code has it. A blob whose length is not 96 is rejected with the
  invalid-key error and the service is left as it was. A 96-byte blob stores bytes 0-31
  as the peer's X25519 key, bytes 32-63 as its Ed25519 signing key and bytes 64-95 as its
  Ed25519 identity key, and stores as the peer's session key the first 32 bytes of
  HKDF-SHA256 over the X25519 shared secret (own private key, peer's X25519 key) with
  \<^emph>\<open>salt\<close> \<open>"bitchat-v1"\<close> and empty info; entries of other peers stay as they were.
\<close>

theorem AddPeerPublicKey_amended:
  "(length blob \<noteq> 96 \<longrightarrow>
      AddPeerPublicKey X es peerID blob = (Some ErrInvalidPublicKey, es))
   \<and> (length blob = 96 \<and>
        32 \<le> length (hkdf_New X (curve25519_ScalarMult X (privateKey es) (take 32 blob))
                        (str ''bitchat-v1'') [])
      \<longrightarrow> (\<exists>es'. AddPeerPublicKey X es peerID blob = (None, es') \<and>
             peerPublicKeys es' peerID = Some (take 32 blob) \<and>
             peerSigningKeys es' peerID = Some (take 32 (drop 32 blob)) \<and>
             peerIdentityKeys es' peerID = Some (take 32 (drop 64 blob)) \<and>
             sharedSecrets es' peerID =
               Some (take 32 (hkdf_New X (curve25519_ScalarMult X (privateKey es) (take 32 blob))
                                (str ''bitchat-v1'') [])) \<and>
             length (the (sharedSecrets es' peerID)) = 32 \<and>
             (\<forall>q. q \<noteq> peerID \<longrightarrow>
                peerPublicKeys es' q = peerPublicKeys es q \<and>
                peerSigningKeys es' q = peerSigningKeys es q \<and>
                peerIdentityKeys es' q = peerIdentityKeys es q \<and>
                sharedSecrets es' q = sharedSecrets es q)))"
proof (intro conjI impI)
  assume "length blob \<noteq> 96"
  then show "AddPeerPublicKey X es peerID blob = (Some ErrInvalidPublicKey, es)"
    by (rule AddPeerPublicKey_reject)
next
  let ?okm = "hkdf_New X (curve25519_ScalarMult X (privateKey es) (take 32 blob))
                (str ''bitchat-v1'') []"
  let ?es' = "es\<lparr>peerPublicKeys := (peerPublicKeys es)(peerID \<mapsto> take 32 blob),
         peerSigningKeys := (peerSigningKeys es)(peerID \<mapsto> take 32 (drop 32 blob)),
         peerIdentityKeys := (peerIdentityKeys es)(peerID \<mapsto> take 32 (drop 64 blob)),
         sharedSecrets := (sharedSecrets es)(peerID \<mapsto> take 32 ?okm)\<rparr>"
  assume a: "length blob = 96 \<and> 32 \<le> length ?okm"
  then have r: "AddPeerPublicKey X es peerID blob = (None, ?es')"
    using AddPeerPublicKey_accept [of blob X es peerID] by simp
  have f: "peerPublicKeys ?es' peerID = Some (take 32 blob)"
    "peerSigningKeys ?es' peerID = Some (take 32 (drop 32 blob))"
    "peerIdentityKeys ?es' peerID = Some (take 32 (drop 64 blob))"
    "sharedSecrets ?es' peerID = Some (take 32 ?okm)"
    by simp_all
  have l: "length (the (sharedSecrets ?es' peerID)) = 32"
    using a by simp
  have o: "\<forall>q. q \<noteq> peerID \<longrightarrow>
                peerPublicKeys ?es' q = peerPublicKeys es q \<and>
                peerSigningKeys ?es' q = peerSigningKeys es q \<and>
                peerIdentityKeys ?es' q = peerIdentityKeys es q \<and>
                sharedSecrets ?es' q = sharedSecrets es q"
    by simp
  show "\<exists>es'. AddPeerPublicKey X es peerID blob = (None, es') \<and>
             peerPublicKeys es' peerID = Some (take 32 blob) \<and>
             peerSigningKeys es' peerID = Some (take 32 (drop 32 blob)) \<and>
             peerIdentityKeys es' peerID = Some (take 32 (drop 64 blob)) \<and>
             sharedSecrets es' peerID = Some (take 32 ?okm) \<and>
             length (the (sharedSecrets es' peerID)) = 32 \<and>
             (\<forall>q. q \<noteq> peerID \<longrightarrow>
                peerPublicKeys es' q = peerPublicKeys es q \<and>
                peerSigningKeys es' q = peerSigningKeys es q \<and>
                peerIdentityKeys es' q = peerIdentityKeys es q \<and>
                sharedSecrets es' q = sharedSecrets es q)"
    by (intro exI [of _ ?es'] conjI r f l o)
qed

lemma str_bitchat_v1:
  "str ''bitchat-v1'' = [0x62, 0x69, 0x74, 0x63, 0x68, 0x61, 0x74, 0x2D, 0x76, 0x31]"
  by (simp add: str_def)

lemma replicate_numeral:
  "replicate (numeral k) x = x # replicate (pred_numeral k) x"
  by (simp add: numeral_eq_Suc)

lemma test_bundle_parts:
  "length test_bundle = 96" "take 32 test_bundle = replicate 32 1"
  "take 32 (drop 32 test_bundle) = replicate 32 2"
  "take 32 (drop 64 test_bundle) = replicate 32 3"
  by (simp_all add: test_bundle_def)

lemma test_kdf:
  "hkdf_New test_prims secret salt info = take 64 (salt @ [0xFF] @ info @ replicate 64 0)"
  by (simp add: test_prims_def)

theorem AddPeerPublicKey_amended_witness:
  "AddPeerPublicKey test_prims test_service [0x41] [1, 2, 3]
     = (Some ErrInvalidPublicKey, test_service) \<and>
   (\<exists>es'. AddPeerPublicKey test_prims test_service [0x41] test_bundle = (None, es') \<and>
      peerPublicKeys es' [0x41] = Some (replicate 32 1) \<and>
      peerSigningKeys es' [0x41] = Some (replicate 32 2) \<and>
      peerIdentityKeys es' [0x41] = Some (replicate 32 3) \<and>
      sharedSecrets es' [0x41] =
        Some ([0x62, 0x69, 0x74, 0x63, 0x68, 0x61, 0x74, 0x2D, 0x76, 0x31, 0xFF]
              @ replicate 21 0))"
proof -
  have k: "take 32 (hkdf_New test_prims
              (curve25519_ScalarMult test_prims (privateKey test_service) (replicate 32 1))
              (str ''bitchat-v1'') [])
           = [0x62, 0x69, 0x74, 0x63, 0x68, 0x61, 0x74, 0x2D, 0x76, 0x31, 0xFF] @ replicate 21 0"
    by (simp add: test_kdf str_bitchat_v1)
  have h: "length test_bundle = 96 \<and>
           32 \<le> length (hkdf_New test_prims
              (curve25519_ScalarMult test_prims (privateKey test_service) (take 32 test_bundle))
              (str ''bitchat-v1'') [])"
    by (simp add: test_bundle_parts test_kdf)
  have r: "length [1, 2, 3 :: byte] \<noteq> 96" by simp
  have "AddPeerPublicKey test_prims test_service [0x41] [1, 2, 3]
          = (Some ErrInvalidPublicKey, test_service)"
    using AddPeerPublicKey_amended [of "[1, 2, 3]" test_prims test_service "[0x41]"] r
    by blast
  moreover have "\<exists>es'. AddPeerPublicKey test_prims test_service [0x41] test_bundle = (None, es') \<and>
      peerPublicKeys es' [0x41] = Some (take 32 test_bundle) \<and>
      peerSigningKeys es' [0x41] = Some (take 32 (drop 32 test_bundle)) \<and>
      peerIdentityKeys es' [0x41] = Some (take 32 (drop 64 test_bundle)) \<and>
      sharedSecrets es' [0x41] =
        Some (take 32 (hkdf_New test_prims
              (curve25519_ScalarMult test_prims (privateKey test_service) (take 32 test_bundle))
              (str ''bitchat-v1'') []))"
    using AddPeerPublicKey_amended [of test_bundle test_prims test_service "[0x41]"] h
    by blast
  ultimately show ?thesis
    unfolding test_bundle_parts k by (rule conjI)
qed

text \<open>
  Claim C6 as the specification states it names \<open>"bitchat-v1"\<close> as the \<^emph>\<open>info\<close> of the key
  derivation. The code passes it in the salt position of \<open>hkdf.New(hash, secret, salt,
  info)\<close> and passes a nil info. With the stand-in derivation, which shows its arguments,
  the stored session key is the one for salt \<open>"bitchat-v1"\<close> and empty info, and it
  differs from the key for info \<open>"bitchat-v1"\<close>, with an empty salt as well as with salt
  \<open>"bitchat-v1"\<close>.
\<close>

theorem AddPeerPublicKey_info_counterexample:
  "sharedSecrets (snd (AddPeerPublicKey test_prims test_service [0x41] test_bundle)) [0x41]
     = Some (take 32 (hkdf_New test_prims
               (curve25519_ScalarMult test_prims (privateKey test_service) (take 32 test_bundle))
               (str ''bitchat-v1'') [])) \<and>
   sharedSecrets (snd (AddPeerPublicKey test_prims test_service [0x41] test_bundle)) [0x41]
     \<noteq> Some (take 32 (hkdf_New test_prims
               (curve25519_ScalarMult test_prims (privateKey test_service) (take 32 test_bundle))
               [] (str ''bitchat-v1''))) \<and>
   sharedSecrets (snd (AddPeerPublicKey test_prims test_service [0x41] test_bundle)) [0x41]
     \<noteq> Some (take 32 (hkdf_New test_prims
               (curve25519_ScalarMult test_prims (privateKey test_service) (take 32 test_bundle))
               (str ''bitchat-v1'') (str ''bitchat-v1'')))"
proof -
  have h: "32 \<le> length (hkdf_New test_prims
              (curve25519_ScalarMult test_prims (privateKey test_service) (take 32 test_bundle))
              (str ''bitchat-v1'') [])"
    by (simp add: test_kdf)
  have s: "sharedSecrets (snd (AddPeerPublicKey test_prims test_service [0x41] test_bundle)) [0x41]
     = Some (take 32 (hkdf_New test_prims
               (curve25519_ScalarMult test_prims (privateKey test_service) (take 32 test_bundle))
               (str ''bitchat-v1'') []))"
    by (simp add: AddPeerPublicKey_accept [OF test_bundle_parts(1) h])
  show ?thesis
    unfolding s by (simp add: test_kdf str_bitchat_v1 replicate_numeral)
qed

subsection \<open>Sending to an unknown nickname\<close>

lemma findPeerIDByNickname_loop_none:
  "nickname \<notin> set (map (\<lambda>(pid, peer). Name peer) ps)
     \<Longrightarrow> findPeerIDByNickname_loop ps nickname = []"
  by (induction ps) auto

text \<open>
  Claim C9. When a private message names a recipient nickname that no known peer has,
  \<open>SendMessage\<close> returns \<open>ErrPeerNotFound\<close> and leaves the service (the outgoing queue
  with it) and the message as they were.
\<close>

theorem SendMessage_peer_not_found:
  assumes "IsPrivate message"
    and "RecipientNickname message \<notin> set (map (\<lambda>(pid, peer). Name peer) (peers bms))"
  shows "SendMessage X now randNonce digest bms message = (Inl ErrPeerNotFound, bms, message)"
  using assms
  by (simp add: SendMessage_def Let_def findPeerIDByNickname_def
      findPeerIDByNickname_loop_none)

theorem SendMessage_peer_not_found_witness:
  "SendMessage test_prims 5000000 (Inr (replicate 24 0)) (replicate 32 1) test_mesh
     (zero_message\<lparr>Content := str ''psst'', IsPrivate := True,
                    RecipientNickname := str ''alice''\<rparr>)
   = (Inl ErrPeerNotFound, test_mesh,
      zero_message\<lparr>Content := str ''psst'', IsPrivate := True,
                    RecipientNickname := str ''alice''\<rparr>) \<and>
   outgoingMessages test_mesh = []"
proof -
  let ?m = "zero_message\<lparr>Content := str ''psst'', IsPrivate := True,
                    RecipientNickname := str ''alice''\<rparr>"
  have 1: "IsPrivate ?m" by simp
  have 2: "RecipientNickname ?m \<notin> set (map (\<lambda>(pid, peer). Name peer) (peers test_mesh))"
    by (simp add: test_mesh_def str_def)
  have 3: "outgoingMessages test_mesh = []" by (simp add: test_mesh_def)
  show ?thesis
    using SendMessage_peer_not_found [OF 1 2] 3 by (intro conjI)
qed

subsection \<open>Deduplication in the ingress pipeline\<close>

lemma handleIncomingPacket_seen:
  "Contains (seenMessages bms) now (GenerateMessageID idDigest packet)
     \<Longrightarrow> handleIncomingPacket X now idDigest msgDigest bms packet = (bms, packet)"
  by (simp add: handleIncomingPacket_def Let_def)

lemma GenerateMessageID_ignores_packet:
  "GenerateMessageID digest p = GenerateMessageID digest q"
  by (simp add: GenerateMessageID_def)

lemma hexdigit_values:
  "hexdigit 0 = 0x30" "hexdigit 1 = 0x31" "hexdigit (Suc 0) = 0x31" "hexdigit 2 = 0x32"
  by (simp_all add: hexdigit_def str_def)

lemma test_ids:
  "GenerateMessageID (replicate 32 1) p = concat (replicate 16 [0x30, 0x31])"
  "GenerateMessageID (replicate 32 2) p = concat (replicate 16 [0x30, 0x32])"
  by (simp_all add: GenerateMessageID_def hex_EncodeToString_def hexdigit_values
      map_replicate_const)

lemma test_ids_differ:
  "concat (replicate 16 [0x30, 0x31 :: byte]) \<noteq> concat (replicate 16 [0x30, 0x32])"
  "concat (replicate 16 [0x30, 0x32 :: byte]) \<noteq> concat (replicate 16 [0x30, 0x31])"
  by (simp_all add: replicate_numeral)


lemmas mesh_eval_defs =
  handleIncomingPacket_def Contains_def Add_def test_mesh_def test_packet_def
  addToMessageCache_def isPacketForUs_def BroadcastRecipient_def slice_len_def slice_bytes_def
  processPacketForUs_def handleUserMessage_def getPeer_def ByteArraysEqual_def
  sendDeliveryAck_def Sign_def isOnMessageReceived_def MessageTypeMessage_def
  MessageTypeDeliveryAck_def BatteryModeNormal_def BatteryModeLow_def BatteryModeUltraLow_def
  DefaultMessageCacheSize_def DefaultMessageCacheTTL_def zero_packet_def

text \<open>
  Claim C2 at the failing input. The ingress pipeline runs twice on the same packet, a
  broadcast message from a known peer. Each run draws a fresh id from the clock and the
  random source (here \<open>0101...\<close> and then \<open>0202...\<close>), so the second run does not find
  the id of the first in the seen set: the delegate receives \<open>OnMessageReceived\<close> twice and
  two delivery acknowledgements are queued for sending.
\<close>

theorem handleIncomingPacket_twice_delivers_twice:
  "(case handleIncomingPacket test_prims 0 (replicate 32 1) (replicate 32 3)
           test_mesh test_packet of
      (b1, p1) \<Rightarrow>
        (case handleIncomingPacket test_prims 1000 (replicate 32 2) (replicate 32 4) b1 p1 of
           (b2, p2) \<Rightarrow>
             map isOnMessageReceived (delegate_calls b2) = [True, True] \<and>
             map Type (outgoingMessages b2) = [MessageTypeDeliveryAck, MessageTypeDeliveryAck] \<and>
             TTL p1 = 6 \<and> TTL p2 = 5))"
  by (simp add: Let_def test_ids test_ids_differ mesh_eval_defs)

subsection \<open>Fragmented sending\<close>

lemma concat_chunks_take:
  "concat (map (\<lambda>i. take n (drop (n * i) xs)) [0 ..< k]) = take (n * k) xs"
proof (induction k)
  case 0
  show ?case by simp
next
  case (Suc k)
  have "n * Suc k = n * k + n" by simp
  then have "take (n * Suc k) xs = take (n * k) xs @ take n (drop (n * k) xs)"
    by (simp only: take_add)
  then show ?case using Suc by simp
qed

lemma concat_chunks:
  "length xs \<le> n * k \<Longrightarrow> concat (map (\<lambda>i. take n (drop (n * i) xs)) [0 ..< k]) = xs"
  by (simp add: concat_chunks_take)

lemma take_min_length: "take (min n (length ys)) ys = take n ys"
  by (simp add: min_def)

lemma payload_build:
  assumes "length fid = 4" and "length sl = m"
  shows "take 6 (((go_copy (take 4 (replicate (6 + m) (0::byte))) fid
                    @ drop 4 (replicate (6 + m) 0))[4 := a])[5 := b]) @
         go_copy (drop 6 (((go_copy (take 4 (replicate (6 + m) (0::byte))) fid
                    @ drop 4 (replicate (6 + m) 0))[4 := a])[5 := b])) sl
         = fid @ [a, b] @ sl"
proof -
  have p1: "go_copy (take 4 (replicate (6 + m) (0::byte))) fid
              @ drop 4 (replicate (6 + m) 0) = fid @ replicate (2 + m) 0"
    using assms by (simp add: go_copy_def min_def)
  have p3: "((fid @ replicate (2 + m) (0::byte))[4 := a])[5 := b]
              = fid @ [a, b] @ replicate m 0"
    using assms by (simp add: list_update_append numeral_2_eq_2)
  have cp: "go_copy (replicate m (0::byte)) sl = sl"
    using assms by (simp add: go_copy_def)
  show ?thesis
    unfolding p1 p3 using assms by (simp add: cp)
qed

lemma fragment_payload:
  assumes fid: "length fragmentID = 4" and off: "480 * i \<le> length data"
  shows "Payload (fragment_packet fragmentID packet data K (int i)) =
           Some (fragmentID @ [of_nat i, of_int K] @ take 480 (drop (480 * i) data))"
proof -
  define m where "m = min 480 (length data - 480 * i)"
  define sl where "sl = take 480 (drop (480 * i) data)"
  have lsl: "length sl = m" by (simp add: sl_def m_def min.commute)
  have A: "nat (6 + (if int i * 480 + 480 > int (length data) then int (length data)
                     else int i * 480 + 480) - int i * 480) = 6 + m"
    using off by (auto simp: m_def min_def)
  have B: "nat ((if int i * 480 + 480 > int (length data) then int (length data)
                 else int i * 480 + 480) - int i * 480) = m"
    using off by (auto simp: m_def min_def)
  have C: "nat (int i * 480) = 480 * i" by simp
  have sl2: "take m (drop (480 * i) data) = sl"
    unfolding sl_def m_def using take_min_length [of 480 "drop (480 * i) data"] by simp
  have "Payload (fragment_packet fragmentID packet data K (int i)) =
          Some (fragmentID @ [of_int (int i), of_int K] @ sl)"
    unfolding fragment_packet_def Let_def MaxFragmentPayloadSize_def A B C sl2
    by (simp only: payload_build [OF fid lsl] BitchatPacket.simps)
  then show ?thesis by (simp add: sl_def)
qed

lemma fragment_fields:
  "Version (fragment_packet fid p d K i) = Version p"
  "SenderID (fragment_packet fid p d K i) = SenderID p"
  "RecipientID (fragment_packet fid p d K i) = RecipientID p"
  "Timestamp (fragment_packet fid p d K i) = Timestamp p"
  "TTL (fragment_packet fid p d K i) = TTL p"
  "Signature (fragment_packet fid p d K i) = None"
  "Type (fragment_packet fid p d K i) =
     (if i = 0 then MessageTypeFragmentStart
      else if i = K - 1 then MessageTypeFragmentEnd else MessageTypeFragmentContinue)"
  by (simp_all add: fragment_packet_def Let_def)

lemma send_fragments_accepted:
  assumes "\<forall>d t. SendData A d t = None" and "\<forall>d. BroadcastData A d = None"
  shows "send_fragments A fid p d K is =
           (None, map (\<lambda>i. snd (transmit A p (Encode (fragment_packet fid p d K (int i))))) is)"
proof (induction "is")
  case Nil
  show ?case by simp
next
  case (Cons i rest)
  have t: "fst (transmit A p x) = None" for x
    using assms by (simp add: transmit_def Let_def)
  show ?case
    using Cons t [of "Encode (fragment_packet fid p d K (int i))"]
    by (cases "transmit A p (Encode (fragment_packet fid p d K (int i)))") (simp add: Let_def)
qed

lemma send_fragments_rejected:
  assumes "fst (transmit A p (Encode (fragment_packet fid p d K (int i)))) = Some e"
  shows "send_fragments A fid p d K (i # rest) =
           (Some e, [snd (transmit A p (Encode (fragment_packet fid p d K (int i))))])"
  using assms
  by (cases "transmit A p (Encode (fragment_packet fid p d K (int i)))") (simp add: Let_def)

lemma numFragments_nat:
  "nat ((int n + MaxFragmentPayloadSize - 1) div MaxFragmentPayloadSize) = (n + 479) div 480"
proof -
  have "(int n + 480 - 1) div 480 = int ((n + 479) div 480)"
    by (simp add: zdiv_int)
  then show ?thesis by (simp add: MaxFragmentPayloadSize_def)
qed

lemma numFragments_int:
  "(int n + MaxFragmentPayloadSize - 1) div MaxFragmentPayloadSize = int ((n + 479) div 480)"
proof -
  have "(int n + 480 - 1) div 480 = int ((n + 479) div 480)"
    by (simp add: zdiv_int)
  then show ?thesis by (simp add: MaxFragmentPayloadSize_def)
qed

lemma chunk_index_bound: "i < (n + 479) div 480 \<Longrightarrow> 480 * i < (n :: nat)"
  by arith

lemma chunks_cover: "(n :: nat) \<le> 480 * ((n + 479) div 480)"
  by arith
lemma send_fragments_all:
  assumes "\<forall>i \<in> set is. fst (transmit A p (Encode (fragment_packet fid p d K (int i)))) = None"
  shows "send_fragments A fid p d K is =
           (None, map (\<lambda>i. snd (transmit A p (Encode (fragment_packet fid p d K (int i))))) is)"
  using assms
proof (induction "is")
  case Nil
  show ?case by simp
next
  case (Cons i rest)
  then have t: "fst (transmit A p (Encode (fragment_packet fid p d K (int i)))) = None"
    and r: "\<forall>i \<in> set rest. fst (transmit A p (Encode (fragment_packet fid p d K (int i)))) = None"
    by simp_all
  show ?case
    using Cons.IH [OF r] t
    by (cases "transmit A p (Encode (fragment_packet fid p d K (int i)))") (simp add: Let_def)
qed

lemma send_fragments_first_error:
  assumes "\<forall>i \<in> set pre. fst (transmit A p (Encode (fragment_packet fid p d K (int i)))) = None"
    and "fst (transmit A p (Encode (fragment_packet fid p d K (int j)))) = Some e"
  shows "send_fragments A fid p d K (pre @ j # post) =
           (Some e, map (\<lambda>i. snd (transmit A p (Encode (fragment_packet fid p d K (int i)))))
                        (pre @ [j]))"
  using assms(1)
proof (induction pre)
  case Nil
  show ?case using send_fragments_rejected [OF assms(2), of post] by simp
next
  case (Cons i pre)
  then have t: "fst (transmit A p (Encode (fragment_packet fid p d K (int i)))) = None"
    and r: "\<forall>i \<in> set pre. fst (transmit A p (Encode (fragment_packet fid p d K (int i)))) = None"
    by simp_all
  show ?case
    using Cons.IH [OF r] t
    by (cases "transmit A p (Encode (fragment_packet fid p d K (int i)))") (simp add: Let_def)
qed

text \<open>
  Claim C4, as the code has it. A fragmented send of \<open>N\<close> encoded bytes, with a fragment
  id of 4 bytes, builds \<open>\<lceil>N/480\<rceil>\<close> fragment packets (at least two when \<open>N > 512\<close>).
  Fragment \<open>i\<close> is typed FragmentStart for \<open>i = 0\<close>, FragmentEnd for the last index,
  FragmentContinue otherwise; its payload is the fragment id, the byte of \<open>i\<close>, the byte
  of the total and the slice \<open>data[480 i : 480 i + 480]\<close> (the two bytes are the numbers
  themselves when the total is at most 255); the payload is at most 486 bytes long;
  version, sender, recipient, timestamp and TTL are the original packet's and there is no
  signature. The slices in index order make up the original bytes. The fragments are
  encoded and handed to the adapter in index order. When the adapter accepts every one
  of them, all are handed over and the send returns no error. When the adapter returns
  an error for a fragment, having accepted the ones before it, the send ends there and
  returns that error: the fragments up to and including that one have been handed over
  and no later one is.
\<close>

theorem sendFragmentedPacket_amended:
  assumes fid: "length fragmentID = 4"
  shows "\<exists>frags.
     length frags = (length data + 479) div 480 \<and>
     (512 < length data \<longrightarrow> 2 \<le> length frags) \<and>
     (\<forall>i < length frags.
        Type (frags ! i) =
          (if i = 0 then MessageTypeFragmentStart
           else if i = length frags - 1 then MessageTypeFragmentEnd
           else MessageTypeFragmentContinue) \<and>
        Payload (frags ! i) =
          Some (fragmentID @ [of_nat i, of_nat (length frags)] @
                take 480 (drop (480 * i) data)) \<and>
        length (slice_bytes (Payload (frags ! i))) \<le> 486 \<and>
        (length frags \<le> 255 \<longrightarrow>
           unat (of_nat i :: byte) = i \<and>
           unat (of_nat (length frags) :: byte) = length frags) \<and>
        Version (frags ! i) = Version packet \<and> SenderID (frags ! i) = SenderID packet \<and>
        RecipientID (frags ! i) = RecipientID packet \<and>
        Timestamp (frags ! i) = Timestamp packet \<and> TTL (frags ! i) = TTL packet \<and>
        Signature (frags ! i) = None \<and> ID (frags ! i) = [] \<and> Nonce (frags ! i) = None) \<and>
     concat (map (\<lambda>f. drop 6 (slice_bytes (Payload f))) frags) = data \<and>
     ((\<forall>f \<in> set frags. fst (transmit A packet (Encode f)) = None) \<longrightarrow>
        sendFragmentedPacket A fragmentID packet data
          = (None, map (\<lambda>f. snd (transmit A packet (Encode f))) frags)) \<and>
     (\<forall>j e. j < length frags \<and>
            (\<forall>i < j. fst (transmit A packet (Encode (frags ! i))) = None) \<and>
            fst (transmit A packet (Encode (frags ! j))) = Some e \<longrightarrow>
        sendFragmentedPacket A fragmentID packet data
          = (Some e, map (\<lambda>f. snd (transmit A packet (Encode f))) (take (Suc j) frags)))"
proof -
  define K where "K = (length data + 479) div 480"
  define F where "F = (\<lambda>i. fragment_packet fragmentID packet data (int K) (int i))"
  define frags where "frags = map F [0 ..< K]"
  have len: "length frags = K" by (simp add: frags_def)
  have nth: "frags ! i = fragment_packet fragmentID packet data (int K) (int i)" if "i < K" for i
    using that by (simp add: frags_def F_def)
  have pay: "Payload (frags ! i) =
      Some (fragmentID @ [of_nat i, of_nat K] @ take 480 (drop (480 * i) data))" if "i < K" for i
  proof -
    have "480 * i \<le> length data"
      using chunk_index_bound [of i "length data"] that by (simp add: K_def)
    then show ?thesis
      using fragment_payload [OF fid, of i data packet "int K"] nth [OF that] by simp
  qed
  have S: "sendFragmentedPacket A fragmentID packet data
             = send_fragments A fragmentID packet data (int K) [0 ..< K]"
    unfolding sendFragmentedPacket_def Let_def numFragments_nat numFragments_int
    by (simp add: K_def)
  have 2: "length frags = (length data + 479) div 480"
    by (simp add: len K_def)
  have 3: "512 < length data \<longrightarrow> 2 \<le> length frags"
    unfolding len K_def by arith
  have 4: "\<forall>i < length frags.
        Type (frags ! i) =
          (if i = 0 then MessageTypeFragmentStart
           else if i = length frags - 1 then MessageTypeFragmentEnd
           else MessageTypeFragmentContinue) \<and>
        Payload (frags ! i) =
          Some (fragmentID @ [of_nat i, of_nat (length frags)] @
                take 480 (drop (480 * i) data)) \<and>
        length (slice_bytes (Payload (frags ! i))) \<le> 486 \<and>
        (length frags \<le> 255 \<longrightarrow>
           unat (of_nat i :: byte) = i \<and>
           unat (of_nat (length frags) :: byte) = length frags) \<and>
        Version (frags ! i) = Version packet \<and> SenderID (frags ! i) = SenderID packet \<and>
        RecipientID (frags ! i) = RecipientID packet \<and>
        Timestamp (frags ! i) = Timestamp packet \<and> TTL (frags ! i) = TTL packet \<and>
        Signature (frags ! i) = None \<and> ID (frags ! i) = [] \<and> Nonce (frags ! i) = None"
  proof (intro allI impI)
    fix i assume "i < length frags"
    then have i: "i < K" by (simp add: len)
    have ty: "Type (frags ! i) =
          (if i = 0 then MessageTypeFragmentStart
           else if i = length frags - 1 then MessageTypeFragmentEnd
           else MessageTypeFragmentContinue)"
      using i by (auto simp: nth fragment_fields len int_ops)
    have sz: "length (slice_bytes (Payload (frags ! i))) \<le> 486"
      using fid by (simp add: pay [OF i] slice_bytes_def)
    have by8: "length frags \<le> 255 \<longrightarrow>
           unat (of_nat i :: byte) = i \<and>
           unat (of_nat (length frags) :: byte) = length frags"
      using i by (auto simp: len unat_of_nat)
    have idn: "ID (frags ! i) = []" "Nonce (frags ! i) = None"
      by (simp_all add: nth [OF i] fragment_packet_def Let_def)
    show "Type (frags ! i) =
          (if i = 0 then MessageTypeFragmentStart
           else if i = length frags - 1 then MessageTypeFragmentEnd
           else MessageTypeFragmentContinue) \<and>
        Payload (frags ! i) =
          Some (fragmentID @ [of_nat i, of_nat (length frags)] @
                take 480 (drop (480 * i) data)) \<and>
        length (slice_bytes (Payload (frags ! i))) \<le> 486 \<and>
        (length frags \<le> 255 \<longrightarrow>
           unat (of_nat i :: byte) = i \<and>
           unat (of_nat (length frags) :: byte) = length frags) \<and>
        Version (frags ! i) = Version packet \<and> SenderID (frags ! i) = SenderID packet \<and>
        RecipientID (frags ! i) = RecipientID packet \<and>
        Timestamp (frags ! i) = Timestamp packet \<and> TTL (frags ! i) = TTL packet \<and>
        Signature (frags ! i) = None \<and> ID (frags ! i) = [] \<and> Nonce (frags ! i) = None"
      using ty sz by8 idn pay [OF i] by (simp add: nth [OF i] fragment_fields len)
  qed
  have "map (\<lambda>f. drop 6 (slice_bytes (Payload f))) frags
          = map (\<lambda>i. take 480 (drop (480 * i) data)) [0 ..< K]"
  proof (rule nth_equalityI)
    show "length (map (\<lambda>f. drop 6 (slice_bytes (Payload f))) frags)
            = length (map (\<lambda>i. take 480 (drop (480 * i) data)) [0 ..< K])"
      by (simp add: len)
  next
    fix i assume "i < length (map (\<lambda>f. drop 6 (slice_bytes (Payload f))) frags)"
    then have i: "i < K" by (simp add: len)
    show "map (\<lambda>f. drop 6 (slice_bytes (Payload f))) frags ! i
            = map (\<lambda>i. take 480 (drop (480 * i) data)) [0 ..< K] ! i"
      using i fid by (simp add: len pay [OF i] slice_bytes_def)
  qed
  then have 5: "concat (map (\<lambda>f. drop 6 (slice_bytes (Payload f))) frags) = data"
    using concat_chunks [of data 480 K] chunks_cover [of "length data"]
    by (simp add: K_def)
  have 6: "(\<forall>f \<in> set frags. fst (transmit A packet (Encode f)) = None) \<longrightarrow>
        sendFragmentedPacket A fragmentID packet data
          = (None, map (\<lambda>f. snd (transmit A packet (Encode f))) frags)"
  proof
    assume a: "\<forall>f \<in> set frags. fst (transmit A packet (Encode f)) = None"
    have "\<forall>i \<in> set [0 ..< K].
            fst (transmit A packet
                   (Encode (fragment_packet fragmentID packet data (int K) (int i)))) = None"
      using a by (simp add: frags_def F_def)
    from send_fragments_all [OF this]
    show "sendFragmentedPacket A fragmentID packet data
          = (None, map (\<lambda>f. snd (transmit A packet (Encode f))) frags)"
      unfolding S by (simp add: frags_def F_def comp_def)
  qed
  have 7: "\<forall>j e. j < length frags \<and>
            (\<forall>i < j. fst (transmit A packet (Encode (frags ! i))) = None) \<and>
            fst (transmit A packet (Encode (frags ! j))) = Some e \<longrightarrow>
        sendFragmentedPacket A fragmentID packet data
          = (Some e, map (\<lambda>f. snd (transmit A packet (Encode f))) (take (Suc j) frags))"
  proof (intro allI impI)
    fix j e
    assume a: "j < length frags \<and>
            (\<forall>i < j. fst (transmit A packet (Encode (frags ! i))) = None) \<and>
            fst (transmit A packet (Encode (frags ! j))) = Some e"
    then have j: "j < K" by (simp add: len)
    have before: "\<forall>i \<in> set [0 ..< j].
            fst (transmit A packet
                   (Encode (fragment_packet fragmentID packet data (int K) (int i)))) = None"
    proof
      fix i assume "i \<in> set [0 ..< j]"
      then have ij: "i < j" by simp
      then have "i < K" using j by simp
      then have n: "frags ! i = fragment_packet fragmentID packet data (int K) (int i)"
        by (rule nth)
      from a ij have "fst (transmit A packet (Encode (frags ! i))) = None" by blast
      then show
        "fst (transmit A packet
                (Encode (fragment_packet fragmentID packet data (int K) (int i)))) = None"
        unfolding n .
    qed
    have at: "fst (transmit A packet
                (Encode (fragment_packet fragmentID packet data (int K) (int j)))) = Some e"
      using a nth [OF j] by simp
    have split: "[0 ..< K] = [0 ..< j] @ j # [Suc j ..< K]"
    proof -
      from j obtain k where k: "K = j + k" by (auto simp: less_iff_Suc_add)
      have "[0 ..< j + k] = [0 ..< j] @ [j ..< j + k]"
        by (rule upt_add_eq_append) simp
      moreover have "[j ..< K] = j # [Suc j ..< K]"
        using j by (rule upt_conv_Cons)
      ultimately show ?thesis by (simp add: k)
    qed
    have tk: "take (Suc j) frags = map F ([0 ..< j] @ [j])"
      using j by (simp add: frags_def take_map)
    have "send_fragments A fragmentID packet data (int K) ([0 ..< j] @ j # [Suc j ..< K])
            = (Some e, map (\<lambda>i. snd (transmit A packet
                  (Encode (fragment_packet fragmentID packet data (int K) (int i)))))
                  ([0 ..< j] @ [j]))"
      using before at by (rule send_fragments_first_error)
    then show "sendFragmentedPacket A fragmentID packet data
          = (Some e, map (\<lambda>f. snd (transmit A packet (Encode f))) (take (Suc j) frags))"
      unfolding S tk split [symmetric] by (simp add: F_def comp_def)
  qed
  show ?thesis
    by (intro exI [of _ frags] conjI 2 3 4 5 6 7)
qed


lemma test_directed_facts:
  "isDirectedPacket test_directed_packet"
  "length (Encode test_directed_packet) = 1234"
  "slice_len (SenderID test_directed_packet) = 8"
  "slice_len (RecipientID test_directed_packet) = 8"
  by (simp_all add: isDirectedPacket_def test_directed_packet_def length_Encode slice_len_def
      slice_bytes_def)

lemma test_fragment_length:
  assumes "480 * i \<le> 1234"
  shows "length (Encode (fragment_packet [1, 2, 3, 4] test_directed_packet
                           (Encode test_directed_packet) K (int i)))
           = 40 + min 480 (1234 - 480 * i)"
proof -
  let ?f = "fragment_packet [1, 2, 3, 4] test_directed_packet (Encode test_directed_packet)
              K (int i)"
  have "length [1, 2, 3, 4 :: byte] = 4" by simp
  from fragment_payload [OF this, of i "Encode test_directed_packet" test_directed_packet K]
  have P: "Payload ?f = Some ([1, 2, 3, 4] @ [of_nat i, of_int K] @
             take 480 (drop (480 * i) (Encode test_directed_packet)))"
    using assms by (simp add: test_directed_facts)
  have L: "slice_len (Payload ?f) = 6 + min 480 (1234 - 480 * i)"
    unfolding slice_len_def slice_bytes_def P
    by (simp add: test_directed_facts min.commute)
  have S: "slice_len (Signature ?f) = 0"
    by (simp add: fragment_fields slice_len_def slice_bytes_def)
  show ?thesis
    unfolding length_Encode L S by (simp add: fragment_fields test_directed_facts)
qed

theorem sendFragmentedPacket_amended_witness:
  "fst (sendFragmentedPacket accepting_adapter [1, 2, 3, 4] test_directed_packet
          (Encode test_directed_packet)) = None \<and>
   length (snd (sendFragmentedPacket accepting_adapter [1, 2, 3, 4] test_directed_packet
                  (Encode test_directed_packet))) = 3 \<and>
   fst (sendFragmentedPacket rejecting_adapter [1, 2, 3, 4] test_directed_packet
          (Encode test_directed_packet))
     = Some (ErrOther (str ''envio de dados nao implementado'')) \<and>
   length (snd (sendFragmentedPacket rejecting_adapter [1, 2, 3, 4] test_directed_packet
                  (Encode test_directed_packet))) = 1 \<and>
   fst (sendFragmentedPacket full_only_adapter [1, 2, 3, 4] test_directed_packet
          (Encode test_directed_packet))
     = Some (ErrOther (str ''short write'')) \<and>
   length (snd (sendFragmentedPacket full_only_adapter [1, 2, 3, 4] test_directed_packet
                  (Encode test_directed_packet))) = 3 \<and>
   fst (sendFragmentedPacket rejecting_adapter [1, 2, 3, 4]
          (test_directed_packet\<lparr>RecipientID := Some BroadcastRecipient\<rparr>)
          (Encode test_directed_packet)) = None \<and>
   length (snd (sendFragmentedPacket rejecting_adapter [1, 2, 3, 4]
                  (test_directed_packet\<lparr>RecipientID := Some BroadcastRecipient\<rparr>)
                  (Encode test_directed_packet))) = 3"
proof -
  let ?P = test_directed_packet
  let ?B = "test_directed_packet\<lparr>RecipientID := Some BroadcastRecipient\<rparr>"
  let ?D = "Encode test_directed_packet"
  have f: "length [1, 2, 3, 4 :: byte] = 4" by simp
  have K: "(length ?D + 479) div 480 = 3" by (simp add: test_directed_facts)
  have dir: "isDirectedPacket ?P" by (rule test_directed_facts)
  have bro: "\<not> isDirectedPacket ?B"
    by (simp add: isDirectedPacket_def BroadcastRecipient_def slice_bytes_def slice_len_def)
  from sendFragmentedPacket_amended [OF f, of ?D ?P accepting_adapter]
  obtain frags where
    n: "length frags = (length ?D + 479) div 480"
    and all: "(\<forall>f \<in> set frags. fst (transmit accepting_adapter ?P (Encode f)) = None) \<longrightarrow>
        sendFragmentedPacket accepting_adapter [1, 2, 3, 4] ?P ?D
          = (None, map (\<lambda>f. snd (transmit accepting_adapter ?P (Encode f))) frags)"
    by blast
  have "\<forall>f \<in> set frags. fst (transmit accepting_adapter ?P (Encode f)) = None"
    by (simp add: transmit_def accepting_adapter_def Let_def)
  with all have "sendFragmentedPacket accepting_adapter [1, 2, 3, 4] ?P ?D
          = (None, map (\<lambda>f. snd (transmit accepting_adapter ?P (Encode f))) frags)"
    by blast
  then have 1: "fst (sendFragmentedPacket accepting_adapter [1, 2, 3, 4] ?P ?D) = None"
    and 2: "length (snd (sendFragmentedPacket accepting_adapter [1, 2, 3, 4] ?P ?D)) = 3"
    using n K by simp_all
  from sendFragmentedPacket_amended [OF f, of ?D ?P rejecting_adapter]
  obtain frags where
    n: "length frags = (length ?D + 479) div 480"
    and err: "\<forall>j e. j < length frags \<and>
            (\<forall>i < j. fst (transmit rejecting_adapter ?P (Encode (frags ! i))) = None) \<and>
            fst (transmit rejecting_adapter ?P (Encode (frags ! j))) = Some e \<longrightarrow>
        sendFragmentedPacket rejecting_adapter [1, 2, 3, 4] ?P ?D
          = (Some e, map (\<lambda>f. snd (transmit rejecting_adapter ?P (Encode f)))
                       (take (Suc j) frags))"
    by blast
  have "fst (transmit rejecting_adapter ?P (Encode (frags ! 0)))
          = Some (ErrOther (str ''envio de dados nao implementado''))"
    using dir by (simp add: transmit_def rejecting_adapter_def Let_def)
  with err [rule_format, of 0 "ErrOther (str ''envio de dados nao implementado'')"] n K
  have "sendFragmentedPacket rejecting_adapter [1, 2, 3, 4] ?P ?D
          = (Some (ErrOther (str ''envio de dados nao implementado'')),
             map (\<lambda>f. snd (transmit rejecting_adapter ?P (Encode f))) (take (Suc 0) frags))"
    by simp
  then have 3: "fst (sendFragmentedPacket rejecting_adapter [1, 2, 3, 4] ?P ?D)
                  = Some (ErrOther (str ''envio de dados nao implementado''))"
    and 4: "length (snd (sendFragmentedPacket rejecting_adapter [1, 2, 3, 4] ?P ?D)) = 1"
    using n K by simp_all
  from sendFragmentedPacket_amended [OF f, of ?D ?P full_only_adapter]
  obtain frags where
    n: "length frags = (length ?D + 479) div 480"
    and fields: "\<forall>i < length frags.
        Type (frags ! i) =
          (if i = 0 then MessageTypeFragmentStart
           else if i = length frags - 1 then MessageTypeFragmentEnd
           else MessageTypeFragmentContinue) \<and>
        Payload (frags ! i) =
          Some ([1, 2, 3, 4] @ [of_nat i, of_nat (length frags)] @
                take 480 (drop (480 * i) ?D)) \<and>
        length (slice_bytes (Payload (frags ! i))) \<le> 486 \<and>
        (length frags \<le> 255 \<longrightarrow>
           unat (of_nat i :: byte) = i \<and>
           unat (of_nat (length frags) :: byte) = length frags) \<and>
        Version (frags ! i) = Version ?P \<and> SenderID (frags ! i) = SenderID ?P \<and>
        RecipientID (frags ! i) = RecipientID ?P \<and>
        Timestamp (frags ! i) = Timestamp ?P \<and> TTL (frags ! i) = TTL ?P \<and>
        Signature (frags ! i) = None \<and> ID (frags ! i) = [] \<and> Nonce (frags ! i) = None"
    and err: "\<forall>j e. j < length frags \<and>
            (\<forall>i < j. fst (transmit full_only_adapter ?P (Encode (frags ! i))) = None) \<and>
            fst (transmit full_only_adapter ?P (Encode (frags ! j))) = Some e \<longrightarrow>
        sendFragmentedPacket full_only_adapter [1, 2, 3, 4] ?P ?D
          = (Some e, map (\<lambda>f. snd (transmit full_only_adapter ?P (Encode f)))
                       (take (Suc j) frags))"
    by blast
  have n3: "length frags = 3" using n K by simp
  have L: "length (Encode (frags ! i)) = 40 + min 480 (1234 - 480 * i)" if "i < 3" for i
  proof -
    from fields that n3 have
      p: "Payload (frags ! i) =
          Some ([1, 2, 3, 4] @ [of_nat i, of_nat (length frags)] @ take 480 (drop (480 * i) ?D))"
      and s: "SenderID (frags ! i) = SenderID ?P" "RecipientID (frags ! i) = RecipientID ?P"
        "Signature (frags ! i) = None"
      by simp_all
    have "slice_len (Payload (frags ! i)) = 6 + min 480 (1234 - 480 * i)"
      unfolding p by (simp add: slice_len_def slice_bytes_def test_directed_facts min.commute)
    then show ?thesis
      unfolding length_Encode s
      by (simp add: test_directed_facts) (simp add: slice_len_def slice_bytes_def)
  qed
  have T: "fst (transmit full_only_adapter ?P x)
             = (if length x < 520 then Some (ErrOther (str ''short write'')) else None)" for x
    using dir by (simp add: transmit_def full_only_adapter_def Let_def)
  have a0: "fst (transmit full_only_adapter ?P (Encode (frags ! 0))) = None"
    and a1: "fst (transmit full_only_adapter ?P (Encode (frags ! 1))) = None"
    and a2: "fst (transmit full_only_adapter ?P (Encode (frags ! 2)))
               = Some (ErrOther (str ''short write''))"
    unfolding T using L [of 0] L [of 1] L [of 2] by simp_all
  have "\<forall>i < 2. fst (transmit full_only_adapter ?P (Encode (frags ! i))) = None"
    using a0 a1 by (auto simp: less_2_cases_iff)
  with err [rule_format, of 2 "ErrOther (str ''short write'')"] n3 a2
  have "sendFragmentedPacket full_only_adapter [1, 2, 3, 4] ?P ?D
          = (Some (ErrOther (str ''short write'')),
             map (\<lambda>f. snd (transmit full_only_adapter ?P (Encode f))) (take (Suc 2) frags))"
    by simp
  then have 5: "fst (sendFragmentedPacket full_only_adapter [1, 2, 3, 4] ?P ?D)
                  = Some (ErrOther (str ''short write''))"
    and 6: "length (snd (sendFragmentedPacket full_only_adapter [1, 2, 3, 4] ?P ?D)) = 3"
    using n3 by simp_all
  from sendFragmentedPacket_amended [OF f, of ?D ?B rejecting_adapter]
  obtain frags where
    n: "length frags = (length ?D + 479) div 480"
    and all: "(\<forall>f \<in> set frags. fst (transmit rejecting_adapter ?B (Encode f)) = None) \<longrightarrow>
        sendFragmentedPacket rejecting_adapter [1, 2, 3, 4] ?B ?D
          = (None, map (\<lambda>f. snd (transmit rejecting_adapter ?B (Encode f))) frags)"
    by blast
  have "\<forall>f \<in> set frags. fst (transmit rejecting_adapter ?B (Encode f)) = None"
    using bro by (simp add: transmit_def rejecting_adapter_def Let_def)
  with all have "sendFragmentedPacket rejecting_adapter [1, 2, 3, 4] ?B ?D
          = (None, map (\<lambda>f. snd (transmit rejecting_adapter ?B (Encode f))) frags)"
    by blast
  then have 7: "fst (sendFragmentedPacket rejecting_adapter [1, 2, 3, 4] ?B ?D) = None"
    and 8: "length (snd (sendFragmentedPacket rejecting_adapter [1, 2, 3, 4] ?B ?D)) = 3"
    using n K by simp_all
  show ?thesis by (intro conjI 1 2 3 4 5 6 7 8)
qed


text \<open>
  Claim C4 as the specification states it fails on two counts, shown on a directed
  message with 8-byte ids whose encoding has 1234 bytes (three fragments). When the
  adapter returns an error, as \<open>LinuxBluetoothAdapter.SendData\<close> does, the send stops
  after the first fragment and returns the error: one fragment, not three. And when the
  adapter accepts everything, the three encoded fragments handed to it are 520, 520 and
  314 bytes long: the first two exceed 512.
\<close>

theorem sendFragmentedPacket_counterexample:
  "(length (Encode test_directed_packet) + 479) div 480 = 3 \<and>
   fst (sendFragmentedPacket rejecting_adapter [1, 2, 3, 4] test_directed_packet
          (Encode test_directed_packet))
     = Some (ErrOther (str ''envio de dados nao implementado'')) \<and>
   length (snd (sendFragmentedPacket rejecting_adapter [1, 2, 3, 4] test_directed_packet
                  (Encode test_directed_packet))) = 1 \<and>
   map (\<lambda>c. length (call_bytes c))
       (snd (sendFragmentedPacket accepting_adapter [1, 2, 3, 4] test_directed_packet
               (Encode test_directed_packet)))
     = [520, 520, 314]"
proof -
  have idx: "[0 ..< 3] = [0, 1, 2 :: nat]" by (simp add: upt_rec)
  have n: "nat ((int (length (Encode test_directed_packet)) + MaxFragmentPayloadSize - 1)
                  div MaxFragmentPayloadSize) = 3"
    by (simp add: test_directed_facts MaxFragmentPayloadSize_def)
  have rej: "fst (transmit rejecting_adapter test_directed_packet x)
               = Some (ErrOther (str ''envio de dados nao implementado''))" for x
    by (simp add: transmit_def test_directed_facts rejecting_adapter_def Let_def)
  have r: "sendFragmentedPacket rejecting_adapter [1, 2, 3, 4] test_directed_packet
             (Encode test_directed_packet)
           = (Some (ErrOther (str ''envio de dados nao implementado'')),
              [snd (transmit rejecting_adapter test_directed_packet
                      (Encode (fragment_packet [1, 2, 3, 4] test_directed_packet
                         (Encode test_directed_packet)
                         ((int (length (Encode test_directed_packet))
                             + MaxFragmentPayloadSize - 1) div MaxFragmentPayloadSize)
                         (int 0))))])"
    unfolding sendFragmentedPacket_def Let_def n idx
    by (rule send_fragments_rejected [OF rej])
  have a: "\<forall>d t. SendData accepting_adapter d t = None"
    "\<forall>d. BroadcastData accepting_adapter d = None"
    by (simp_all add: accepting_adapter_def)
  have cb: "call_bytes (snd (transmit A test_directed_packet x)) = x" for A x
    by (simp add: transmit_def call_bytes_def Let_def)
  have acc: "map (\<lambda>c. length (call_bytes c))
       (snd (sendFragmentedPacket accepting_adapter [1, 2, 3, 4] test_directed_packet
               (Encode test_directed_packet)))
     = [520, 520, 314]"
    unfolding sendFragmentedPacket_def Let_def n idx send_fragments_accepted [OF a]
    using test_fragment_length [of 0] test_fragment_length [of 1] test_fragment_length [of 2]
    by (simp add: cb)
  show ?thesis
    using r acc by (simp add: test_directed_facts)
qed

subsection \<open>The retry service: completion callbacks\<close>

lemma completions_for_append:
  "completions_for mid (rs\<lparr>completions := completions rs @ [(k, b, i)]\<rparr>)
     = completions_for mid rs @ (if k = mid then [(k, b, i)] else [])"
  by (simp add: completions_for_def)

lemma handleFailedDelivery_none:
  "map_of (retryItems rs) k = None \<Longrightarrow> handleFailedDelivery rs now k = rs"
  by (simp add: handleFailedDelivery_def)

lemma handleFailedDelivery_items:
  "map_of (retryItems (handleFailedDelivery rs now k)) = (map_of (retryItems rs))(k := None)"
  by (auto simp: handleFailedDelivery_def Let_def delete_conv' split: option.splits)

lemma handleFailedDelivery_other:
  "k \<noteq> mid \<Longrightarrow>
     completions_for mid (handleFailedDelivery rs now k) = completions_for mid rs"
  by (auto simp: handleFailedDelivery_def Let_def completions_for_def split: option.splits)

lemma handleFailedDelivery_pending:
  assumes "map_of (retryItems rs) k = Some item"
  shows "completions (handleFailedDelivery rs now k) =
           completions rs @
             (if OnComplete item
              then [(k, False, zero_info\<lparr>Status := DeliveryStatusFailed,
                                           info_Timestamp := UnixMilli now,
                                           Attempts := item_Attempts item,
                                           Error := msg_max_attempts,
                                           FailReason := msg_max_attempts\<rparr>)]
              else [])"
  using assms by (simp add: handleFailedDelivery_def Let_def)

lemma MarkDelivered_items:
  "map_of (retryItems (MarkDelivered rs now k)) = (map_of (retryItems rs))(k := None)"
  by (auto simp: MarkDelivered_def Let_def delete_conv' split: option.splits)

lemma MarkDelivered_other:
  "k \<noteq> mid \<or> map_of (retryItems rs) k = None \<Longrightarrow>
     completions_for mid (MarkDelivered rs now k) = completions_for mid rs"
  by (auto simp: MarkDelivered_def Let_def completions_for_def split: option.splits)

lemma MarkDelivered_pending:
  assumes "map_of (retryItems rs) k = Some item"
  shows "completions (MarkDelivered rs now k) =
           completions rs @
             (if OnComplete item
              then [(k, True, zero_info\<lparr>Status := DeliveryStatusDelivered,
                                          info_Timestamp := UnixMilli now,
                                          Attempts := item_Attempts item\<rparr>)]
              else [])"
  using assms by (simp add: MarkDelivered_def Let_def)

lemma retryMessage_completions:
  "completions (retryMessage fmul rs now k) = completions rs"
  by (simp add: retryMessage_def Let_def split: option.splits)

lemma retryMessage_items_other:
  "k \<noteq> mid \<Longrightarrow>
     map_of (retryItems (retryMessage fmul rs now k)) mid = map_of (retryItems rs) mid"
  by (simp add: retryMessage_def Let_def update_conv' split: option.splits)

lemma retryMessage_dom:
  "(map_of (retryItems (retryMessage fmul rs now k)) mid = None)
     = (map_of (retryItems rs) mid = None)"
  by (auto simp: retryMessage_def Let_def update_conv' split: option.splits)

lemma retryMessage_config:
  "rs_config (retryMessage fmul rs now k) = rs_config rs"
  by (simp add: retryMessage_def Let_def split: option.splits)

lemma fold_retry_completions:
  "completions (fold (\<lambda>k rs. retryMessage fmul rs now k) ks rs) = completions rs"
  by (induction ks arbitrary: rs) (simp_all add: retryMessage_completions)

lemma fold_retry_items_other:
  "mid \<notin> set ks \<Longrightarrow>
     map_of (retryItems (fold (\<lambda>k rs. retryMessage fmul rs now k) ks rs)) mid
       = map_of (retryItems rs) mid"
  by (induction ks arbitrary: rs) (auto simp: retryMessage_items_other)

lemma fold_retry_dom:
  "(map_of (retryItems (fold (\<lambda>k rs. retryMessage fmul rs now k) ks rs)) mid = None)
     = (map_of (retryItems rs) mid = None)"
  by (induction ks arbitrary: rs) (simp_all add: retryMessage_dom)

lemma fold_fail_other:
  "mid \<notin> set ks \<Longrightarrow>
     completions_for mid (fold (\<lambda>k rs. handleFailedDelivery rs now k) ks rs)
       = completions_for mid rs \<and>
     map_of (retryItems (fold (\<lambda>k rs. handleFailedDelivery rs now k) ks rs)) mid
       = map_of (retryItems rs) mid"
  by (induction ks arbitrary: rs)
     (auto simp: handleFailedDelivery_other handleFailedDelivery_items)

lemma fold_fail_absent:
  "map_of (retryItems rs) mid = None \<Longrightarrow>
     completions_for mid (fold (\<lambda>k rs. handleFailedDelivery rs now k) ks rs)
       = completions_for mid rs \<and>
     map_of (retryItems (fold (\<lambda>k rs. handleFailedDelivery rs now k) ks rs)) mid = None"
proof (induction ks arbitrary: rs)
  case Nil
  then show ?case by simp
next
  case (Cons k ks)
  have a: "map_of (retryItems (handleFailedDelivery rs now k)) mid = None"
    using Cons.prems by (simp add: handleFailedDelivery_items)
  have c: "completions_for mid (handleFailedDelivery rs now k) = completions_for mid rs"
  proof (cases "k = mid")
    case True
    then show ?thesis using Cons.prems by (simp add: handleFailedDelivery_none)
  next
    case False
    then show ?thesis by (rule handleFailedDelivery_other)
  qed
  show ?case using Cons.IH [OF a] c by simp
qed
lemma handleFailedDelivery_distinct:
  "distinct (map fst (retryItems rs))
     \<Longrightarrow> distinct (map fst (retryItems (handleFailedDelivery rs now k)))"
  by (auto simp: handleFailedDelivery_def Let_def distinct_delete split: option.splits)

lemma retryMessage_distinct:
  "distinct (map fst (retryItems rs))
     \<Longrightarrow> distinct (map fst (retryItems (retryMessage fmul rs now k)))"
  by (auto simp: retryMessage_def Let_def distinct_update split: option.splits)

lemma fold_retry_distinct:
  "distinct (map fst (retryItems rs))
     \<Longrightarrow> distinct (map fst (retryItems (fold (\<lambda>k rs. retryMessage fmul rs now k) ks rs)))"
  by (induction ks arbitrary: rs) (simp_all add: retryMessage_distinct)

lemma fold_fail_distinct:
  "distinct (map fst (retryItems rs))
     \<Longrightarrow> distinct (map fst (retryItems (fold (\<lambda>k rs. handleFailedDelivery rs now k) ks rs)))"
  by (induction ks arbitrary: rs) (simp_all add: handleFailedDelivery_distinct)

lemma processRetries_distinct:
  "distinct (map fst (retryItems rs))
     \<Longrightarrow> distinct (map fst (retryItems (processRetries fmul rs now)))"
  by (simp add: processRetries_def Let_def fold_fail_distinct fold_retry_distinct)

lemma processRetries_absent:
  assumes "map_of (retryItems rs) mid = None"
  shows "completions_for mid (processRetries fmul rs now) = completions_for mid rs \<and>
         map_of (retryItems (processRetries fmul rs now)) mid = None"
proof -
  let ?T = "map fst (filter (\<lambda>(mid, item). \<not> item_Attempts item \<ge> MaxRetries (rs_config rs))
              (filter (\<lambda>(mid, item). now > NextAttempt item) (retryItems rs)))"
  let ?rs1 = "fold (\<lambda>mid rs. retryMessage fmul rs now mid) ?T rs"
  have a: "map_of (retryItems ?rs1) mid = None"
    using assms by (simp add: fold_retry_dom)
  have c: "completions_for mid ?rs1 = completions_for mid rs"
    by (simp add: completions_for_def fold_retry_completions)
  show ?thesis
    unfolding processRetries_def Let_def using fold_fail_absent [OF a] c by simp
qed

lemma fold_fail_at_most_once:
  assumes "distinct ks"
  shows "completions_for mid (fold (\<lambda>k rs. handleFailedDelivery rs now k) ks rs)
           = completions_for mid rs
         \<or> (\<exists>x. completions_for mid (fold (\<lambda>k rs. handleFailedDelivery rs now k) ks rs)
                 = completions_for mid rs @ [x] \<and>
                map_of (retryItems (fold (\<lambda>k rs. handleFailedDelivery rs now k) ks rs)) mid
                 = None)"
proof (cases "mid \<in> set ks")
  case False
  then show ?thesis using fold_fail_other [of mid ks now rs] by simp
next
  case True
  then obtain pre post where ks: "ks = pre @ mid # post"
    by (auto simp: in_set_conv_decomp)
  with assms have np: "mid \<notin> set pre" "mid \<notin> set post" by auto
  let ?f = "\<lambda>k rs. handleFailedDelivery rs now k"
  let ?rs2 = "fold ?f pre rs"
  let ?rs3 = "handleFailedDelivery ?rs2 now mid"
  have f: "fold ?f ks rs = fold ?f post ?rs3" by (simp add: ks)
  have c2: "completions_for mid ?rs2 = completions_for mid rs"
    using fold_fail_other [OF np(1), of now rs] by simp
  have i3: "map_of (retryItems ?rs3) mid = None"
    by (simp add: handleFailedDelivery_items)
  have p: "completions_for mid (fold ?f post ?rs3) = completions_for mid ?rs3"
    "map_of (retryItems (fold ?f post ?rs3)) mid = None"
    using fold_fail_other [OF np(2), of now ?rs3] i3 by simp_all
  show ?thesis
  proof (cases "map_of (retryItems ?rs2) mid")
    case None
    then have "?rs3 = ?rs2" by (rule handleFailedDelivery_none)
    then show ?thesis using f p c2 by simp
  next
    case (Some item)
    show ?thesis
    proof (cases "OnComplete item")
      case True
      then have "completions_for mid ?rs3
          = completions_for mid ?rs2 @
              [(mid, False, zero_info\<lparr>Status := DeliveryStatusFailed,
                                       info_Timestamp := UnixMilli now,
                                       Attempts := item_Attempts item,
                                       Error := msg_max_attempts,
                                       FailReason := msg_max_attempts\<rparr>)]"
        using handleFailedDelivery_pending [OF Some, of now]
        by (simp add: completions_for_def)
      with f p c2 have e: "completions_for mid (fold ?f ks rs)
          = completions_for mid rs @
              [(mid, False, zero_info\<lparr>Status := DeliveryStatusFailed,
                                       info_Timestamp := UnixMilli now,
                                       Attempts := item_Attempts item,
                                       Error := msg_max_attempts,
                                       FailReason := msg_max_attempts\<rparr>)]"
        by simp
      have n: "map_of (retryItems (fold ?f ks rs)) mid = None"
        using f p by simp
      show ?thesis
        by (rule disjI2, rule exI, rule conjI [OF e n])
    next
      case False
      then have "completions_for mid ?rs3 = completions_for mid ?rs2"
        using handleFailedDelivery_pending [OF Some, of now]
        by (simp add: completions_for_def)
      then show ?thesis using f p c2 by simp
    qed
  qed
qed

lemma processRetries_at_most_once:
  assumes "distinct (map fst (retryItems rs))"
  shows "completions_for mid (processRetries fmul rs now) = completions_for mid rs
         \<or> (\<exists>x. completions_for mid (processRetries fmul rs now) = completions_for mid rs @ [x] \<and>
                map_of (retryItems (processRetries fmul rs now)) mid = None)"
proof -
  let ?due = "filter (\<lambda>(mid, item). now > NextAttempt item) (retryItems rs)"
  let ?R = "map fst (filter (\<lambda>(mid, item). item_Attempts item \<ge> MaxRetries (rs_config rs)) ?due)"
  let ?T = "map fst (filter (\<lambda>(mid, item). \<not> item_Attempts item \<ge> MaxRetries (rs_config rs)) ?due)"
  let ?rs1 = "fold (\<lambda>mid rs. retryMessage fmul rs now mid) ?T rs"
  have d: "distinct ?R"
    using assms by (simp add: distinct_map_filter)
  have c: "completions_for mid ?rs1 = completions_for mid rs"
    by (simp add: completions_for_def fold_retry_completions)
  show ?thesis
    unfolding processRetries_def Let_def
    using fold_fail_at_most_once [OF d, of mid now ?rs1] c by simp
qed
lemma fold_fail_pending:
  assumes "distinct ks" and "mid \<in> set ks"
    and "map_of (retryItems rs) mid = Some item" and "OnComplete item"
  shows "completions_for mid (fold (\<lambda>k rs. handleFailedDelivery rs now k) ks rs)
           = completions_for mid rs @
               [(mid, False, zero_info\<lparr>Status := DeliveryStatusFailed,
                                        info_Timestamp := UnixMilli now,
                                        Attempts := item_Attempts item,
                                        Error := msg_max_attempts,
                                        FailReason := msg_max_attempts\<rparr>)] \<and>
         map_of (retryItems (fold (\<lambda>k rs. handleFailedDelivery rs now k) ks rs)) mid = None"
proof -
  from assms(2) obtain pre post where ks: "ks = pre @ mid # post"
    by (auto simp: in_set_conv_decomp)
  with assms(1) have np: "mid \<notin> set pre" "mid \<notin> set post" by auto
  let ?f = "\<lambda>k rs. handleFailedDelivery rs now k"
  let ?rs2 = "fold ?f pre rs"
  let ?rs3 = "handleFailedDelivery ?rs2 now mid"
  have f: "fold ?f ks rs = fold ?f post ?rs3" by (simp add: ks)
  have c2: "completions_for mid ?rs2 = completions_for mid rs"
    and i2: "map_of (retryItems ?rs2) mid = Some item"
    using fold_fail_other [OF np(1), of now rs] assms(3) by simp_all
  have i3: "map_of (retryItems ?rs3) mid = None"
    by (simp add: handleFailedDelivery_items)
  have c3: "completions_for mid ?rs3
          = completions_for mid ?rs2 @
              [(mid, False, zero_info\<lparr>Status := DeliveryStatusFailed,
                                       info_Timestamp := UnixMilli now,
                                       Attempts := item_Attempts item,
                                       Error := msg_max_attempts,
                                       FailReason := msg_max_attempts\<rparr>)]"
    using handleFailedDelivery_pending [OF i2, of now] assms(4)
    by (simp add: completions_for_def)
  have p: "completions_for mid (fold ?f post ?rs3) = completions_for mid ?rs3"
    "map_of (retryItems (fold ?f post ?rs3)) mid = None"
    using fold_fail_other [OF np(2), of now ?rs3] i3 by simp_all
  show ?thesis
    unfolding f using p c3 c2 by simp
qed

lemma processRetries_fails:
  assumes d: "distinct (map fst (retryItems rs))"
    and p: "map_of (retryItems rs) mid = Some item" and cb: "OnComplete item"
    and due: "NextAttempt item < now" and mx: "MaxRetries (rs_config rs) \<le> item_Attempts item"
  shows "completions_for mid (processRetries fmul rs now)
           = completions_for mid rs @
               [(mid, False, zero_info\<lparr>Status := DeliveryStatusFailed,
                                        info_Timestamp := UnixMilli now,
                                        Attempts := item_Attempts item,
                                        Error := msg_max_attempts,
                                        FailReason := msg_max_attempts\<rparr>)] \<and>
         map_of (retryItems (processRetries fmul rs now)) mid = None"
proof -
  let ?due = "filter (\<lambda>(mid, item). now > NextAttempt item) (retryItems rs)"
  let ?R = "map fst (filter (\<lambda>(mid, item). item_Attempts item \<ge> MaxRetries (rs_config rs)) ?due)"
  let ?T = "map fst (filter (\<lambda>(mid, item). \<not> item_Attempts item \<ge> MaxRetries (rs_config rs)) ?due)"
  let ?rs1 = "fold (\<lambda>mid rs. retryMessage fmul rs now mid) ?T rs"
  have dR: "distinct ?R"
    using d by (simp add: distinct_map_filter)
  have mem: "(mid, item) \<in> set (retryItems rs)"
    using p by (rule map_of_SomeD)
  then have inR: "mid \<in> set ?R"
    using due mx by force
  have notT: "mid \<notin> set ?T"
  proof
    assume "mid \<in> set ?T"
    then obtain item' where m': "(mid, item') \<in> set (retryItems rs)"
      and small: "\<not> MaxRetries (rs_config rs) \<le> item_Attempts item'"
      by auto
    from d m' have "map_of (retryItems rs) mid = Some item'"
      by (rule map_of_is_SomeI)
    with p have "item' = item" by simp
    with small mx show False by simp
  qed
  have i1: "map_of (retryItems ?rs1) mid = Some item"
    using fold_retry_items_other [OF notT, of fmul now rs] p by simp
  have c1: "completions_for mid ?rs1 = completions_for mid rs"
    by (simp add: completions_for_def fold_retry_completions)
  show ?thesis
    unfolding processRetries_def Let_def
    using fold_fail_pending [OF dR inR i1 cb, of now] c1 by simp
qed

lemma AddRetryPacket_other:
  "ID packet \<noteq> mid \<Longrightarrow>
     completions (AddRetryPacket rs now packet target cb) = completions rs \<and>
     map_of (retryItems (AddRetryPacket rs now packet target cb)) mid
       = map_of (retryItems rs) mid"
  by (simp add: AddRetryPacket_def Let_def update_conv')

lemma AddRetryPacket_completions:
  "completions (AddRetryPacket rs now packet target cb) = completions rs"
  by (simp add: AddRetryPacket_def Let_def)

lemma AddRetryPacket_distinct:
  "distinct (map fst (retryItems rs))
     \<Longrightarrow> distinct (map fst (retryItems (AddRetryPacket rs now packet target cb)))"
  by (simp add: AddRetryPacket_def Let_def distinct_update)

lemma MarkDelivered_distinct:
  "distinct (map fst (retryItems rs))
     \<Longrightarrow> distinct (map fst (retryItems (MarkDelivered rs now k)))"
  by (auto simp: MarkDelivered_def Let_def distinct_delete split: option.splits)

lemma handleFailedDelivery_timers:
  "handleFailedDelivery (rs\<lparr>expiry_timers := x\<rparr>) now k
     = (handleFailedDelivery rs now k)\<lparr>expiry_timers := x\<rparr>"
  by (simp add: handleFailedDelivery_def Let_def split: option.splits)

lemma expiryTimer_cases:
  "expiryTimer rs now k = rs
   \<or> (\<exists>t. t \<in> set (expiry_timers rs) \<and> fst t = k \<and> snd t \<le> now \<and>
           expiryTimer rs now k
             = (handleFailedDelivery rs now k)\<lparr>expiry_timers := remove1 t (expiry_timers rs)\<rparr>)"
proof (cases "find (\<lambda>t. fst t = k \<and> snd t \<le> now) (expiry_timers rs)")
  case None
  then show ?thesis by (simp add: expiryTimer_def)
next
  case (Some t)
  then have m: "t \<in> set (expiry_timers rs)" "fst t = k" "snd t \<le> now"
    by (auto simp: find_Some_iff)
  have e: "expiryTimer rs now k
             = (handleFailedDelivery rs now k)\<lparr>expiry_timers := remove1 t (expiry_timers rs)\<rparr>"
    using Some by (simp add: expiryTimer_def handleFailedDelivery_timers)
  from m e show ?thesis by blast
qed

lemma expiryTimer_early:
  "\<forall>t \<in> set (expiry_timers rs). fst t = k \<longrightarrow> now < snd t \<Longrightarrow> expiryTimer rs now k = rs"
proof -
  assume a: "\<forall>t \<in> set (expiry_timers rs). fst t = k \<longrightarrow> now < snd t"
  have "find (\<lambda>t. fst t = k \<and> snd t \<le> now) (expiry_timers rs) = None"
    unfolding find_None_iff using a by fastforce
  then show ?thesis by (simp add: expiryTimer_def)
qed

lemma expiryTimer_due:
  assumes "(k, d) \<in> set (expiry_timers rs)" and "d \<le> now"
  shows "\<exists>t. t \<in> set (expiry_timers rs) \<and> fst t = k \<and> snd t \<le> now \<and>
           expiryTimer rs now k
             = (handleFailedDelivery rs now k)\<lparr>expiry_timers := remove1 t (expiry_timers rs)\<rparr>"
proof (cases "find (\<lambda>t. fst t = k \<and> snd t \<le> now) (expiry_timers rs)")
  case None
  then have "\<not> (fst (k, d) = k \<and> snd (k, d) \<le> now)"
    unfolding find_None_iff using assms(1) by blast
  with assms(2) show ?thesis by simp
next
  case (Some t)
  then have m: "t \<in> set (expiry_timers rs)" "fst t = k" "snd t \<le> now"
    by (auto simp: find_Some_iff)
  have e: "expiryTimer rs now k
             = (handleFailedDelivery rs now k)\<lparr>expiry_timers := remove1 t (expiry_timers rs)\<rparr>"
    using Some by (simp add: expiryTimer_def handleFailedDelivery_timers)
  from m e show ?thesis by blast
qed

lemma expiryTimer_distinct:
  "distinct (map fst (retryItems rs))
     \<Longrightarrow> distinct (map fst (retryItems (expiryTimer rs now k)))"
  using expiryTimer_cases [of rs now k] handleFailedDelivery_distinct [of rs now k]
  by auto

lemma expiryTimer_absent:
  assumes "map_of (retryItems rs) mid = None"
  shows "completions_for mid (expiryTimer rs now k) = completions_for mid rs \<and>
         map_of (retryItems (expiryTimer rs now k)) mid = None"
proof -
  have "completions_for mid (handleFailedDelivery rs now k) = completions_for mid rs \<and>
        map_of (retryItems (handleFailedDelivery rs now k)) mid = None"
    using fold_fail_absent [OF assms, of now "[k]"] by simp
  then show ?thesis
    using expiryTimer_cases [of rs now k] assms by (auto simp: completions_for_def)
qed

lemma expiryTimer_at_most_once:
  "completions_for mid (expiryTimer rs now k) = completions_for mid rs
   \<or> (\<exists>x. completions_for mid (expiryTimer rs now k) = completions_for mid rs @ [x] \<and>
          map_of (retryItems (expiryTimer rs now k)) mid = None)"
proof -
  have "distinct [k]" by simp
  from fold_fail_at_most_once [OF this, of mid now rs]
  have h: "completions_for mid (handleFailedDelivery rs now k) = completions_for mid rs
     \<or> (\<exists>x. completions_for mid (handleFailedDelivery rs now k) = completions_for mid rs @ [x] \<and>
            map_of (retryItems (handleFailedDelivery rs now k)) mid = None)"
    by simp
  from expiryTimer_cases [of rs now k] show ?thesis
  proof
    assume "expiryTimer rs now k = rs"
    then show ?thesis by simp
  next
    assume "\<exists>t. t \<in> set (expiry_timers rs) \<and> fst t = k \<and> snd t \<le> now \<and>
           expiryTimer rs now k
             = (handleFailedDelivery rs now k)\<lparr>expiry_timers := remove1 t (expiry_timers rs)\<rparr>"
    then obtain t where
      e: "expiryTimer rs now k
            = (handleFailedDelivery rs now k)\<lparr>expiry_timers := remove1 t (expiry_timers rs)\<rparr>"
      by blast
    have c: "completions_for mid (expiryTimer rs now k)
               = completions_for mid (handleFailedDelivery rs now k)"
      and i: "retryItems (expiryTimer rs now k) = retryItems (handleFailedDelivery rs now k)"
      unfolding e by (simp_all add: completions_for_def)
    show ?thesis unfolding c i by (rule h)
  qed
qed

lemma retry_step_distinct:
  "distinct (map fst (retryItems rs))
     \<Longrightarrow> distinct (map fst (retryItems (retry_step fmul rs ev)))"
proof (cases ev)
  case (Pair now e)
  assume "distinct (map fst (retryItems rs))"
  then show ?thesis
    unfolding Pair
    by (cases e)
       (simp_all add: AddRetryPacket_distinct MarkDelivered_distinct processRetries_distinct
          expiryTimer_distinct ClearRetries_def)
qed

text \<open>An id that is not pending gets no callback until it is added again.\<close>

lemma retry_step_absent:
  assumes "map_of (retryItems rs) mid = None" and "\<not> adds_id mid ev"
  shows "completions_for mid (retry_step fmul rs ev) = completions_for mid rs \<and>
         map_of (retryItems (retry_step fmul rs ev)) mid = None"
proof (cases ev)
  case (Pair now e)
  show ?thesis
  proof (cases e)
    case (EvAdd packet target cb)
    then have "ID packet \<noteq> mid" using assms(2) Pair by (simp add: adds_id_def)
    then show ?thesis
      using AddRetryPacket_other [of packet mid rs now target cb] assms(1) Pair EvAdd
      by (simp add: completions_for_def)
  next
    case (EvMarkDelivered k)
    have "completions_for mid (MarkDelivered rs now k) = completions_for mid rs"
      using assms(1) by (intro MarkDelivered_other) auto
    then show ?thesis
      using assms(1) Pair EvMarkDelivered by (simp add: MarkDelivered_items)
  next
    case EvTick
    then show ?thesis
      using processRetries_absent [OF assms(1), of fmul now] Pair by simp
  next
    case (EvTimer k)
    then show ?thesis
      using expiryTimer_absent [OF assms(1), of now k] Pair by simp
  next
    case EvClear
    then show ?thesis
      using Pair by (simp add: ClearRetries_def completions_for_def)
  qed
qed

lemma retry_run_absent:
  assumes "map_of (retryItems rs) mid = None" and "\<not> list_ex (adds_id mid) evs"
  shows "completions_for mid (retry_run fmul rs evs) = completions_for mid rs"
  using assms
proof (induction evs arbitrary: rs)
  case Nil
  show ?case by (simp add: retry_run_def)
next
  case (Cons ev evs)
  from Cons.prems have n: "\<not> adds_id mid ev" "\<not> list_ex (adds_id mid) evs" by simp_all
  from retry_step_absent [OF Cons.prems(1) n(1), of fmul]
  have s: "completions_for mid (retry_step fmul rs ev) = completions_for mid rs"
    "map_of (retryItems (retry_step fmul rs ev)) mid = None" by simp_all
  have "retry_run fmul rs (ev # evs) = retry_run fmul (retry_step fmul rs ev) evs"
    by (simp add: retry_run_def)
  then show ?case using Cons.IH [OF s(2) n(2)] s(1) by simp
qed

text \<open>One step fires at most one callback for an id, and then the id is gone.\<close>

lemma retry_step_at_most_once:
  assumes "distinct (map fst (retryItems rs))" and "\<not> adds_id mid ev"
  shows "completions_for mid (retry_step fmul rs ev) = completions_for mid rs
         \<or> (\<exists>x. completions_for mid (retry_step fmul rs ev) = completions_for mid rs @ [x] \<and>
                map_of (retryItems (retry_step fmul rs ev)) mid = None)"
proof (cases ev)
  case (Pair now e)
  show ?thesis
  proof (cases e)
    case (EvAdd packet target cb)
    then show ?thesis
      using Pair by (simp add: completions_for_def AddRetryPacket_completions)
  next
    case (EvMarkDelivered k)
    have "completions_for mid (MarkDelivered rs now k) = completions_for mid rs
          \<or> (\<exists>x. completions_for mid (MarkDelivered rs now k) = completions_for mid rs @ [x] \<and>
                 map_of (retryItems (MarkDelivered rs now k)) mid = None)"
    proof (cases "k = mid \<and> map_of (retryItems rs) k \<noteq> None")
      case False
      then show ?thesis using MarkDelivered_other [of k mid rs now] by auto
    next
      case True
      then obtain item where i: "map_of (retryItems rs) k = Some item" by auto
      have n: "map_of (retryItems (MarkDelivered rs now k)) mid = None"
        using True by (simp add: MarkDelivered_items)
      show ?thesis
      proof (cases "OnComplete item")
        case True
        have e: "completions_for mid (MarkDelivered rs now k)
              = completions_for mid rs @
                  [(k, True, zero_info\<lparr>Status := DeliveryStatusDelivered,
                                        info_Timestamp := UnixMilli now,
                                        Attempts := item_Attempts item\<rparr>)]"
          using MarkDelivered_pending [OF i, of now] True \<open>k = mid \<and> _\<close>
          by (simp add: completions_for_def)
        show ?thesis by (rule disjI2, rule exI, rule conjI [OF e n])
      next
        case False
        then have "completions_for mid (MarkDelivered rs now k) = completions_for mid rs"
          using MarkDelivered_pending [OF i, of now] by (simp add: completions_for_def)
        then show ?thesis by (rule disjI1)
      qed
    qed
    then show ?thesis using Pair EvMarkDelivered by simp
  next
    case EvTick
    then show ?thesis
      using processRetries_at_most_once [OF assms(1), of mid fmul now] Pair by simp
  next
    case (EvTimer k)
    then show ?thesis
      using expiryTimer_at_most_once [of mid rs now k] Pair by simp
  next
    case EvClear
    then show ?thesis
      using Pair by (simp add: ClearRetries_def completions_for_def)
  qed
qed

lemma retry_run_at_most_once:
  assumes "distinct (map fst (retryItems rs))" and "\<not> list_ex (adds_id mid) evs"
  shows "length (completions_for mid (retry_run fmul rs evs))
           \<le> length (completions_for mid rs) + 1"
  using assms
proof (induction evs arbitrary: rs)
  case Nil
  show ?case by (simp add: retry_run_def)
next
  case (Cons ev evs)
  from Cons.prems have n: "\<not> adds_id mid ev" "\<not> list_ex (adds_id mid) evs" by simp_all
  let ?rs' = "retry_step fmul rs ev"
  have r: "retry_run fmul rs (ev # evs) = retry_run fmul ?rs' evs"
    by (simp add: retry_run_def)
  have d: "distinct (map fst (retryItems ?rs'))"
    using Cons.prems(1) by (rule retry_step_distinct)
  from retry_step_at_most_once [OF Cons.prems(1) n(1), of fmul]
  show ?case
  proof
    assume "completions_for mid ?rs' = completions_for mid rs"
    then show ?thesis using Cons.IH [OF d n(2)] r by simp
  next
    assume "\<exists>x. completions_for mid ?rs' = completions_for mid rs @ [x] \<and>
                map_of (retryItems ?rs') mid = None"
    then obtain x where x: "completions_for mid ?rs' = completions_for mid rs @ [x]"
      and g: "map_of (retryItems ?rs') mid = None" by blast
    from retry_run_absent [OF g n(2), of fmul] x r
    show ?thesis by simp
  qed
qed
lemma AddRetryPacket_new:
  assumes "map_of (retryItems rs) (ID packet) = None"
  shows "map_of (retryItems (AddRetryPacket rs now packet target cb)) (ID packet)
           = Some \<lparr>item_Packet = packet, TargetPeerID = target, item_Attempts = 1,
                    FirstAttempt = now, NextAttempt = now + InitialBackoff (rs_config rs),
                    OnComplete = cb\<rparr>"
    and "0 < MaxRetryTime (rs_config rs) \<Longrightarrow>
         expiry_timers (AddRetryPacket rs now packet target cb)
           = expiry_timers rs @ [(ID packet, now + MaxRetryTime (rs_config rs))]"
  using assms by (simp_all add: AddRetryPacket_def Let_def update_conv')

text \<open>
  What \<open>retryMessage\<close> does to a pending item: one more attempt, and the next attempt
  at \<open>now\<close> plus the floating-point product for the incremented count less one, capped
  at \<open>MaxBackoff\<close>; the packet is handed to \<open>sendPacketFunc\<close>.
\<close>

lemma retryMessage_effect:
  assumes "map_of (retryItems rs) mid = Some item"
  shows "map_of (retryItems (retryMessage fmul rs now mid)) mid
           = Some (item\<lparr>item_Attempts := int_wrap (item_Attempts item + 1),
                         NextAttempt := now +
                           min (MaxBackoff (rs_config rs))
                               (fmul (InitialBackoff (rs_config rs))
                                     (int_wrap (int_wrap (item_Attempts item + 1) - 1))
                                     (BackoffFactor (rs_config rs)))\<rparr>)"
    and "resent (retryMessage fmul rs now mid)
           = resent rs @ [(item_Packet item, TargetPeerID item)]"
  using assms by (simp_all add: retryMessage_def Let_def update_conv' min_def)

lemma retryMessage_same:
  assumes "map_of (retryItems rs) mid = map_of (retryItems rs') mid"
    and "rs_config rs = rs_config rs'"
  shows "map_of (retryItems (retryMessage fmul rs now mid)) mid
           = map_of (retryItems (retryMessage fmul rs' now mid)) mid"
  using assms by (simp add: retryMessage_def Let_def update_conv' split: option.splits)


text \<open>What a tick does to a pending item that is not failed by it.\<close>

lemma fold_retry_config:
  "rs_config (fold (\<lambda>k rs. retryMessage fmul rs now k) ks rs) = rs_config rs"
  by (induction ks arbitrary: rs) (simp_all add: retryMessage_config)

lemma fold_retry_at:
  assumes "distinct ks" and "mid \<in> set ks"
  shows "map_of (retryItems (fold (\<lambda>k rs. retryMessage fmul rs now k) ks rs)) mid
           = map_of (retryItems (retryMessage fmul rs now mid)) mid"
proof -
  from assms(2) obtain pre post where ks: "ks = pre @ mid # post"
    by (auto simp: in_set_conv_decomp)
  with assms(1) have np: "mid \<notin> set pre" "mid \<notin> set post" by auto
  let ?f = "\<lambda>k rs. retryMessage fmul rs now k"
  let ?rs2 = "fold ?f pre rs"
  let ?rs3 = "retryMessage fmul ?rs2 now mid"
  have f: "fold ?f ks rs = fold ?f post ?rs3" by (simp add: ks)
  have i2: "map_of (retryItems ?rs2) mid = map_of (retryItems rs) mid"
    by (rule fold_retry_items_other [OF np(1)])
  have c2: "rs_config ?rs2 = rs_config rs" by (rule fold_retry_config)
  have i3: "map_of (retryItems ?rs3) mid = map_of (retryItems (retryMessage fmul rs now mid)) mid"
    using i2 c2 by (rule retryMessage_same)
  show ?thesis
    unfolding f using fold_retry_items_other [OF np(2), of fmul now ?rs3] i3 by simp
qed

lemma processRetries_retries:
  assumes d: "distinct (map fst (retryItems rs))"
    and p: "map_of (retryItems rs) mid = Some item"
    and due: "NextAttempt item < now" and mx: "item_Attempts item < MaxRetries (rs_config rs)"
  shows "map_of (retryItems (processRetries fmul rs now)) mid
           = map_of (retryItems (retryMessage fmul rs now mid)) mid \<and>
         completions_for mid (processRetries fmul rs now) = completions_for mid rs"
proof -
  let ?due = "filter (\<lambda>(mid, item). now > NextAttempt item) (retryItems rs)"
  let ?R = "map fst (filter (\<lambda>(mid, item). item_Attempts item \<ge> MaxRetries (rs_config rs)) ?due)"
  let ?T = "map fst (filter (\<lambda>(mid, item). \<not> item_Attempts item \<ge> MaxRetries (rs_config rs)) ?due)"
  let ?rs1 = "fold (\<lambda>mid rs. retryMessage fmul rs now mid) ?T rs"
  have dT: "distinct ?T"
    using d by (simp add: distinct_map_filter)
  have mem: "(mid, item) \<in> set (retryItems rs)"
    using p by (rule map_of_SomeD)
  then have inT: "mid \<in> set ?T"
    using due mx by force
  have notR: "mid \<notin> set ?R"
  proof
    assume "mid \<in> set ?R"
    then obtain item' where m': "(mid, item') \<in> set (retryItems rs)"
      and big: "MaxRetries (rs_config rs) \<le> item_Attempts item'"
      by auto
    from d m' have "map_of (retryItems rs) mid = Some item'"
      by (rule map_of_is_SomeI)
    with p have "item' = item" by simp
    with big mx show False by simp
  qed
  have i1: "map_of (retryItems ?rs1) mid
           = map_of (retryItems (retryMessage fmul rs now mid)) mid"
    using dT inT by (rule fold_retry_at)
  have c1: "completions_for mid ?rs1 = completions_for mid rs"
    by (simp add: completions_for_def fold_retry_completions)
  show ?thesis
    unfolding processRetries_def Let_def
    using fold_fail_other [OF notR, of now ?rs1] i1 c1 by simp
qed

lemma processRetries_not_due:
  assumes d: "distinct (map fst (retryItems rs))"
    and p: "map_of (retryItems rs) mid = Some item"
    and nd: "\<not> NextAttempt item < now"
  shows "map_of (retryItems (processRetries fmul rs now)) mid = Some item \<and>
         completions_for mid (processRetries fmul rs now) = completions_for mid rs"
proof -
  let ?due = "filter (\<lambda>(mid, item). now > NextAttempt item) (retryItems rs)"
  let ?R = "map fst (filter (\<lambda>(mid, item). item_Attempts item \<ge> MaxRetries (rs_config rs)) ?due)"
  let ?T = "map fst (filter (\<lambda>(mid, item). \<not> item_Attempts item \<ge> MaxRetries (rs_config rs)) ?due)"
  let ?rs1 = "fold (\<lambda>mid rs. retryMessage fmul rs now mid) ?T rs"
  have nodue: "mid \<notin> fst ` set ?due"
  proof
    assume "mid \<in> fst ` set ?due"
    then obtain item' where m': "(mid, item') \<in> set (retryItems rs)"
      and late: "NextAttempt item' < now"
      by auto
    from d m' have "map_of (retryItems rs) mid = Some item'"
      by (rule map_of_is_SomeI)
    with p have "item' = item" by simp
    with late nd show False by simp
  qed
  have notT: "mid \<notin> set ?T" and notR: "mid \<notin> set ?R"
    using nodue by auto
  have i1: "map_of (retryItems ?rs1) mid = Some item"
    using fold_retry_items_other [OF notT, of fmul now rs] p by simp
  have c1: "completions_for mid ?rs1 = completions_for mid rs"
    by (simp add: completions_for_def fold_retry_completions)
  show ?thesis
    unfolding processRetries_def Let_def
    using fold_fail_other [OF notR, of now ?rs1] i1 c1 by simp
qed

text \<open>
  The configuration and the timers are touched by no operation but \<open>AddRetryPacket\<close> and
  the timers themselves, and no operation changes the first attempt of an item.
\<close>

lemma handleFailedDelivery_frame:
  "rs_config (handleFailedDelivery rs now k) = rs_config rs"
  "expiry_timers (handleFailedDelivery rs now k) = expiry_timers rs"
  by (simp_all add: handleFailedDelivery_def Let_def split: option.splits)

lemma MarkDelivered_frame:
  "rs_config (MarkDelivered rs now k) = rs_config rs"
  "expiry_timers (MarkDelivered rs now k) = expiry_timers rs"
  by (simp_all add: MarkDelivered_def Let_def split: option.splits)

lemma retryMessage_frame:
  "expiry_timers (retryMessage fmul rs now k) = expiry_timers rs"
  by (simp add: retryMessage_def Let_def split: option.splits)

lemma fold_retry_frame:
  "expiry_timers (fold (\<lambda>k rs. retryMessage fmul rs now k) ks rs) = expiry_timers rs"
  by (induction ks arbitrary: rs) (simp_all add: retryMessage_frame)

lemma fold_fail_frame:
  "rs_config (fold (\<lambda>k rs. handleFailedDelivery rs now k) ks rs) = rs_config rs \<and>
   expiry_timers (fold (\<lambda>k rs. handleFailedDelivery rs now k) ks rs) = expiry_timers rs"
  by (induction ks arbitrary: rs) (simp_all add: handleFailedDelivery_frame)

lemma processRetries_frame:
  "rs_config (processRetries fmul rs now) = rs_config rs"
  "expiry_timers (processRetries fmul rs now) = expiry_timers rs"
  by (simp_all add: processRetries_def Let_def fold_fail_frame fold_retry_config
      fold_retry_frame)

lemma AddRetryPacket_config:
  "rs_config (AddRetryPacket rs now packet target cb) = rs_config rs"
  by (simp add: AddRetryPacket_def Let_def)

lemma expiryTimer_config:
  "rs_config (expiryTimer rs now k) = rs_config rs"
  using expiryTimer_cases [of rs now k] by (auto simp: handleFailedDelivery_frame)

lemma retry_step_config: "rs_config (retry_step fmul rs ev) = rs_config rs"
proof (cases ev)
  case (Pair now e)
  show ?thesis
    unfolding Pair
    by (cases e)
       (simp_all add: AddRetryPacket_config MarkDelivered_frame processRetries_frame
          expiryTimer_config ClearRetries_def)
qed

lemma retryMessage_first:
  assumes "map_of (retryItems (retryMessage fmul rs now k)) j = Some item'"
  shows "\<exists>item. map_of (retryItems rs) j = Some item \<and> FirstAttempt item' = FirstAttempt item"
  using assms
  by (auto simp: retryMessage_def Let_def update_conv' split: option.splits if_splits)

lemma fold_retry_first:
  assumes "map_of (retryItems (fold (\<lambda>k rs. retryMessage fmul rs now k) ks rs)) j = Some item'"
  shows "\<exists>item. map_of (retryItems rs) j = Some item \<and> FirstAttempt item' = FirstAttempt item"
  using assms
proof (induction ks arbitrary: rs)
  case Nil
  then show ?case by simp
next
  case (Cons k ks)
  from Cons.IH [of "retryMessage fmul rs now k"] Cons.prems
  obtain item1 where 1: "map_of (retryItems (retryMessage fmul rs now k)) j = Some item1"
    and 2: "FirstAttempt item' = FirstAttempt item1" by auto
  from retryMessage_first [OF 1] 2 show ?case by auto
qed

lemma fold_fail_first:
  assumes "map_of (retryItems (fold (\<lambda>k rs. handleFailedDelivery rs now k) ks rs)) j = Some item'"
  shows "map_of (retryItems rs) j = Some item'"
  using assms
proof (induction ks arbitrary: rs)
  case Nil
  then show ?case by simp
next
  case (Cons k ks)
  from Cons.IH [of "handleFailedDelivery rs now k"] Cons.prems
  have "map_of (retryItems (handleFailedDelivery rs now k)) j = Some item'" by simp
  then show ?case by (simp add: handleFailedDelivery_items split: if_splits)
qed

lemma processRetries_first:
  assumes "map_of (retryItems (processRetries fmul rs now)) j = Some item'"
  shows "\<exists>item. map_of (retryItems rs) j = Some item \<and> FirstAttempt item' = FirstAttempt item"
proof -
  let ?due = "filter (\<lambda>(mid, item). now > NextAttempt item) (retryItems rs)"
  let ?R = "map fst (filter (\<lambda>(mid, item). item_Attempts item \<ge> MaxRetries (rs_config rs)) ?due)"
  let ?T = "map fst (filter (\<lambda>(mid, item). \<not> item_Attempts item \<ge> MaxRetries (rs_config rs)) ?due)"
  let ?rs1 = "fold (\<lambda>mid rs. retryMessage fmul rs now mid) ?T rs"
  have "map_of (retryItems (fold (\<lambda>k rs. handleFailedDelivery rs now k) ?R ?rs1)) j = Some item'"
    using assms by (simp add: processRetries_def Let_def)
  then have "map_of (retryItems ?rs1) j = Some item'" by (rule fold_fail_first)
  then show ?thesis by (rule fold_retry_first)
qed

text \<open>The invariant: it holds of a new service and every event keeps it.\<close>

lemma retry_inv_iff:
  "retry_inv rs \<longleftrightarrow>
     distinct (map fst (retryItems rs)) \<and>
     (if 0 < MaxRetryTime (rs_config rs)
      then \<forall>k item. map_of (retryItems rs) k = Some item \<longrightarrow>
             (k, FirstAttempt item + MaxRetryTime (rs_config rs)) \<in> set (expiry_timers rs)
      else expiry_timers rs = [])"
proof (cases "distinct (map fst (retryItems rs))")
  case False
  then show ?thesis by (simp add: retry_inv_def)
next
  case True
  have "(\<forall>x \<in> set (retryItems rs). case x of (k, item) \<Rightarrow> P k item)
          \<longleftrightarrow> (\<forall>k item. map_of (retryItems rs) k = Some item \<longrightarrow> P k item)" for P
    using True by (auto dest: map_of_SomeD map_of_is_SomeI)
  then show ?thesis
    using True by (simp add: retry_inv_def list_all_iff)
qed

lemma NewRetryService_inv: "retry_inv (NewRetryService cfg)"
  by (simp add: retry_inv_def NewRetryService_def)

lemma AddRetryPacket_inv:
  assumes "retry_inv rs"
  shows "retry_inv (AddRetryPacket rs now packet target cb)"
proof (cases "map_of (retryItems rs) (ID packet) = None")
  case False
  then have "AddRetryPacket rs now packet target cb = rs"
    by (simp add: AddRetryPacket_def Let_def)
  then show ?thesis using assms by simp
next
  case True
  let ?rs' = "AddRetryPacket rs now packet target cb"
  let ?item = "\<lparr>item_Packet = packet, TargetPeerID = target, item_Attempts = 1,
                 FirstAttempt = now, NextAttempt = now + InitialBackoff (rs_config rs),
                 OnComplete = cb\<rparr>"
  have d: "distinct (map fst (retryItems ?rs'))"
    using assms by (simp add: retry_inv_iff AddRetryPacket_distinct)
  have c: "rs_config ?rs' = rs_config rs" by (rule AddRetryPacket_config)
  have m: "map_of (retryItems ?rs') = (map_of (retryItems rs))(ID packet \<mapsto> ?item)"
    using True by (simp add: AddRetryPacket_def Let_def update_conv')
  show ?thesis
  proof (cases "0 < MaxRetryTime (rs_config rs)")
    case pos: True
    have t: "expiry_timers ?rs'
               = expiry_timers rs @ [(ID packet, now + MaxRetryTime (rs_config rs))]"
      using True pos by (simp add: AddRetryPacket_def Let_def)
    have old: "\<forall>k item. map_of (retryItems rs) k = Some item \<longrightarrow>
             (k, FirstAttempt item + MaxRetryTime (rs_config rs)) \<in> set (expiry_timers rs)"
      using assms pos unfolding retry_inv_iff by simp
    have "(k, FirstAttempt item + MaxRetryTime (rs_config rs)) \<in> set (expiry_timers ?rs')"
      if "map_of (retryItems ?rs') k = Some item" for k item
    proof (cases "k = ID packet")
      case True
      with that have "item = ?item" unfolding m by simp
      then show ?thesis unfolding t using True by simp
    next
      case False
      with that have "map_of (retryItems rs) k = Some item" unfolding m by simp
      with old show ?thesis unfolding t by simp
    qed
    then show ?thesis
      unfolding retry_inv_iff c using d pos by simp
  next
    case False
    then have t: "expiry_timers ?rs' = expiry_timers rs"
      using True by (simp add: AddRetryPacket_def Let_def)
    have "expiry_timers rs = []"
      using assms False unfolding retry_inv_iff by simp
    then show ?thesis
      unfolding retry_inv_iff c t using d False by simp
  qed
qed

lemma MarkDelivered_inv:
  assumes "retry_inv rs"
  shows "retry_inv (MarkDelivered rs now k)"
  using assms
  by (auto simp: retry_inv_iff MarkDelivered_distinct MarkDelivered_frame MarkDelivered_items)

lemma processRetries_inv:
  assumes "retry_inv rs"
  shows "retry_inv (processRetries fmul rs now)"
proof -
  have d: "distinct (map fst (retryItems (processRetries fmul rs now)))"
    using assms by (simp add: retry_inv_iff processRetries_distinct)
  show ?thesis
  proof (cases "0 < MaxRetryTime (rs_config rs)")
    case True
    have "(k, FirstAttempt item' + MaxRetryTime (rs_config rs)) \<in> set (expiry_timers rs)"
      if "map_of (retryItems (processRetries fmul rs now)) k = Some item'" for k item'
    proof -
      from processRetries_first [OF that]
      obtain item where "map_of (retryItems rs) k = Some item"
        and "FirstAttempt item' = FirstAttempt item" by blast
      then show ?thesis using assms True by (simp add: retry_inv_iff)
    qed
    then show ?thesis
      using d True by (simp add: retry_inv_iff processRetries_frame)
  next
    case False
    then show ?thesis
      using d assms by (simp add: retry_inv_iff processRetries_frame)
  qed
qed

lemma expiryTimer_inv:
  assumes "retry_inv rs"
  shows "retry_inv (expiryTimer rs now k)"
proof -
  from expiryTimer_cases [of rs now k] show ?thesis
  proof
    assume "expiryTimer rs now k = rs"
    then show ?thesis using assms by simp
  next
    assume "\<exists>t. t \<in> set (expiry_timers rs) \<and> fst t = k \<and> snd t \<le> now \<and>
           expiryTimer rs now k
             = (handleFailedDelivery rs now k)\<lparr>expiry_timers := remove1 t (expiry_timers rs)\<rparr>"
    then obtain t where t: "t \<in> set (expiry_timers rs)" "fst t = k"
      and e: "expiryTimer rs now k
            = (handleFailedDelivery rs now k)\<lparr>expiry_timers := remove1 t (expiry_timers rs)\<rparr>"
      by blast
    have pos: "0 < MaxRetryTime (rs_config rs)"
      using assms t(1) by (auto simp: retry_inv_iff split: if_splits)
    have d: "distinct (map fst (retryItems (handleFailedDelivery rs now k)))"
      using assms by (simp add: retry_inv_iff handleFailedDelivery_distinct)
    have "(j, FirstAttempt item + MaxRetryTime (rs_config rs))
            \<in> set (remove1 t (expiry_timers rs))"
      if "map_of (retryItems (handleFailedDelivery rs now k)) j = Some item" for j item
    proof -
      from that have jk: "j \<noteq> k" and "map_of (retryItems rs) j = Some item"
        by (simp_all add: handleFailedDelivery_items split: if_splits)
      then have "(j, FirstAttempt item + MaxRetryTime (rs_config rs)) \<in> set (expiry_timers rs)"
        using assms pos by (simp add: retry_inv_iff)
      moreover have "(j, FirstAttempt item + MaxRetryTime (rs_config rs)) \<noteq> t"
        using jk t(2) by auto
      ultimately show ?thesis by simp
    qed
    then show ?thesis
      unfolding e using d pos by (simp add: retry_inv_iff handleFailedDelivery_frame)
  qed
qed

lemma retry_step_inv:
  assumes "retry_inv rs"
  shows "retry_inv (retry_step fmul rs ev)"
proof (cases ev)
  case (Pair now e)
  show ?thesis
  proof (cases e)
    case (EvAdd packet target cb)
    then show ?thesis using Pair assms by (simp add: AddRetryPacket_inv)
  next
    case (EvMarkDelivered k)
    then show ?thesis using Pair assms by (simp add: MarkDelivered_inv)
  next
    case EvTick
    then show ?thesis using Pair assms by (simp add: processRetries_inv)
  next
    case (EvTimer k)
    then show ?thesis using Pair assms by (simp add: expiryTimer_inv)
  next
    case EvClear
    then show ?thesis using Pair assms by (simp add: retry_inv_def ClearRetries_def)
  qed
qed

lemma retry_run_inv:
  assumes "retry_inv rs"
  shows "retry_inv (retry_run fmul rs evs) \<and> rs_config (retry_run fmul rs evs) = rs_config rs"
  using assms
proof (induction evs arbitrary: rs)
  case Nil
  then show ?case by (simp add: retry_run_def)
next
  case (Cons ev evs)
  have r: "retry_run fmul rs (ev # evs) = retry_run fmul (retry_step fmul rs ev) evs"
    by (simp add: retry_run_def)
  from Cons.IH [OF retry_step_inv [OF Cons.prems, of fmul ev]]
  show ?case unfolding r by (simp add: retry_step_config)
qed

lemma retry_run_Cons:
  "retry_run fmul rs (ev # evs) = retry_run fmul (retry_step fmul rs ev) evs"
  by (simp add: retry_run_def)

lemma exact_product_mono:
  "0 \<le> a \<Longrightarrow> 0 \<le> c \<Longrightarrow> k \<le> k' \<Longrightarrow> exact_product a k c \<le> exact_product a k' c"
  by (simp add: exact_product_def mult_left_mono mult_right_mono)


lemma test_retry_state:
  "test_retry c =
     \<lparr>rs_config = DefaultRetryConfig c,
      retryItems = [([0x6D], \<lparr>item_Packet = test_retry_packet, TargetPeerID = [0xB0],
                            item_Attempts = 1, FirstAttempt = 0,
                            NextAttempt = 5000000000, OnComplete = True\<rparr>)],
      completions = [], resent = [], expiry_timers = [([0x6D], 1800000000000)]\<rparr>"
  by (simp add: test_retry_def retry_run_def NewRetryService_def AddRetryPacket_def Let_def
      DefaultRetryConfig_def test_retry_packet_def)

text \<open>
  Claim C5, as the code has it. Take a service in any state that events can bring a new
  service to, and an entry with a callback that is pending in it. \<open>MarkDelivered\<close> calls
  the callback once, with success and status \<^emph>\<open>Delivered\<close>, and removes the entry. The
  entry's timer waits with the first attempt plus \<open>MaxRetryTime\<close> as deadline (when
  \<open>MaxRetryTime\<close> is positive; otherwise no timer exists); when it runs at or after its
  deadline it calls the callback once, with failure and status \<^emph>\<open>Failed\<close>, and removes
  the entry; while no timer of the id has reached its deadline nothing happens. A tick
  of the retry loop calls the callback once with \<^emph>\<open>Failed\<close> and removes the entry when
  the entry is due and has made \<open>MaxRetries\<close> attempts; it makes no callback and runs
  \<open>retryMessage\<close> on the entry, which stays pending, when the entry is due with fewer
  attempts; it leaves alone an entry that is not due. After each of the three
  completions the callback is never called again, and from the state at most one
  callback for the id is ever made, over all further events that do not add the id
  again. \<open>ClearRetries\<close> drops the entry without any callback, and
  none is made for it later. (\<open>AddRetryPacket\<close> of a new id makes the entry with one
  attempt and the first attempt at the time of the call, and, when \<open>MaxRetryTime\<close> is
  positive, starts the expiry timer for that time plus \<open>MaxRetryTime\<close>.)
\<close>

theorem retry_callback_amended:
  assumes r: "rs = retry_run fmul (NewRetryService cfg) evs0"
    and p: "map_of (retryItems rs) mid = Some item" and cb: "OnComplete item"
    and n: "\<not> list_ex (adds_id mid) evs"
  shows
    "completions (MarkDelivered rs now mid)
       = completions rs @ [(mid, True, delivered_info now item)] \<and>
     map_of (retryItems (MarkDelivered rs now mid)) mid = None \<and>
     completions_for mid (retry_run fmul rs ((now, EvMarkDelivered mid) # evs))
       = completions_for mid rs @ [(mid, True, delivered_info now item)] \<and>
     (0 < MaxRetryTime cfg \<longrightarrow>
        (mid, FirstAttempt item + MaxRetryTime cfg) \<in> set (expiry_timers rs)) \<and>
     (MaxRetryTime cfg \<le> 0 \<longrightarrow> expiry_timers rs = []) \<and>
     (0 < MaxRetryTime cfg \<and> FirstAttempt item + MaxRetryTime cfg \<le> now \<longrightarrow>
        completions (expiryTimer rs now mid)
          = completions rs @ [(mid, False, failed_info now item)] \<and>
        map_of (retryItems (expiryTimer rs now mid)) mid = None \<and>
        completions_for mid (retry_run fmul rs ((now, EvTimer mid) # evs))
          = completions_for mid rs @ [(mid, False, failed_info now item)]) \<and>
     ((\<forall>t \<in> set (expiry_timers rs). fst t = mid \<longrightarrow> now < snd t) \<longrightarrow>
        expiryTimer rs now mid = rs) \<and>
     (NextAttempt item < now \<and> MaxRetries cfg \<le> item_Attempts item \<longrightarrow>
        completions_for mid (processRetries fmul rs now)
          = completions_for mid rs @ [(mid, False, failed_info now item)] \<and>
        map_of (retryItems (processRetries fmul rs now)) mid = None \<and>
        completions_for mid (retry_run fmul rs ((now, EvTick) # evs))
          = completions_for mid rs @ [(mid, False, failed_info now item)]) \<and>
     (NextAttempt item < now \<and> item_Attempts item < MaxRetries cfg \<longrightarrow>
        completions_for mid (processRetries fmul rs now) = completions_for mid rs \<and>
        map_of (retryItems (processRetries fmul rs now)) mid
          = map_of (retryItems (retryMessage fmul rs now mid)) mid \<and>
        map_of (retryItems (processRetries fmul rs now)) mid \<noteq> None \<and>
        resent (retryMessage fmul rs now mid)
          = resent rs @ [(item_Packet item, TargetPeerID item)]) \<and>
     (\<not> NextAttempt item < now \<longrightarrow>
        completions_for mid (processRetries fmul rs now) = completions_for mid rs \<and>
        map_of (retryItems (processRetries fmul rs now)) mid = Some item) \<and>
     length (completions_for mid (retry_run fmul rs evs))
       \<le> length (completions_for mid rs) + 1 \<and>
     completions (ClearRetries rs) = completions rs \<and>
     map_of (retryItems (ClearRetries rs)) mid = None \<and>
     completions_for mid (retry_run fmul rs ((now, EvClear) # evs)) = completions_for mid rs \<and>
     (\<forall>rs0 t0 packet target.
        map_of (retryItems rs0) (ID packet) = None \<and> 0 < MaxRetryTime (rs_config rs0) \<longrightarrow>
        map_of (retryItems (retry_step fmul rs0 (t0, EvAdd packet target True))) (ID packet)
          = Some \<lparr>item_Packet = packet, TargetPeerID = target, item_Attempts = 1,
                   FirstAttempt = t0, NextAttempt = t0 + InitialBackoff (rs_config rs0),
                   OnComplete = True\<rparr> \<and>
        expiry_timers (retry_step fmul rs0 (t0, EvAdd packet target True))
          = expiry_timers rs0 @ [(ID packet, t0 + MaxRetryTime (rs_config rs0))])"
proof -
  have inv: "retry_inv rs" and c: "rs_config rs = cfg"
    using retry_run_inv [OF NewRetryService_inv, of fmul cfg evs0]
    unfolding r by (simp_all add: NewRetryService_def)
  have d: "distinct (map fst (retryItems rs))"
    using inv by (simp add: retry_inv_iff)
  have later: "completions_for mid (retry_run fmul rs (ev # evs))
                 = completions_for mid (retry_step fmul rs ev)"
    if "map_of (retryItems (retry_step fmul rs ev)) mid = None" for ev
    unfolding retry_run_Cons using that n by (rule retry_run_absent)
  have D1: "completions (MarkDelivered rs now mid)
       = completions rs @ [(mid, True, delivered_info now item)]"
    using MarkDelivered_pending [OF p, of now] cb by (simp add: delivered_info_def)
  have D2: "map_of (retryItems (MarkDelivered rs now mid)) mid = None"
    by (simp add: MarkDelivered_items)
  have D3: "completions_for mid (retry_run fmul rs ((now, EvMarkDelivered mid) # evs))
       = completions_for mid rs @ [(mid, True, delivered_info now item)]"
    using later [of "(now, EvMarkDelivered mid)"] D1 D2 by (simp add: completions_for_def)
  have X1: "0 < MaxRetryTime cfg \<longrightarrow>
        (mid, FirstAttempt item + MaxRetryTime cfg) \<in> set (expiry_timers rs)"
  proof
    assume pos: "0 < MaxRetryTime cfg"
    have "\<forall>k item. map_of (retryItems rs) k = Some item \<longrightarrow>
            (k, FirstAttempt item + MaxRetryTime cfg) \<in> set (expiry_timers rs)"
      using inv pos unfolding retry_inv_iff c by simp
    with p show "(mid, FirstAttempt item + MaxRetryTime cfg) \<in> set (expiry_timers rs)"
      by blast
  qed
  have X2: "MaxRetryTime cfg \<le> 0 \<longrightarrow> expiry_timers rs = []"
    using inv c by (auto simp: retry_inv_iff)
  have X3: "completions (expiryTimer rs now mid)
          = completions rs @ [(mid, False, failed_info now item)] \<and>
        map_of (retryItems (expiryTimer rs now mid)) mid = None \<and>
        completions_for mid (retry_run fmul rs ((now, EvTimer mid) # evs))
          = completions_for mid rs @ [(mid, False, failed_info now item)]"
    if a: "0 < MaxRetryTime cfg \<and> FirstAttempt item + MaxRetryTime cfg \<le> now"
  proof -
    from a X1 have m: "(mid, FirstAttempt item + MaxRetryTime cfg) \<in> set (expiry_timers rs)"
      and l: "FirstAttempt item + MaxRetryTime cfg \<le> now" by simp_all
    from expiryTimer_due [OF m l] obtain t where
      e: "expiryTimer rs now mid
            = (handleFailedDelivery rs now mid)\<lparr>expiry_timers := remove1 t (expiry_timers rs)\<rparr>"
      by blast
    have 1: "completions (expiryTimer rs now mid)
          = completions rs @ [(mid, False, failed_info now item)]"
      unfolding e using handleFailedDelivery_pending [OF p, of now] cb
      by (simp add: failed_info_def)
    have 2: "map_of (retryItems (expiryTimer rs now mid)) mid = None"
      unfolding e by (simp add: handleFailedDelivery_items)
    have 3: "completions_for mid (retry_run fmul rs ((now, EvTimer mid) # evs))
          = completions_for mid rs @ [(mid, False, failed_info now item)]"
      using later [of "(now, EvTimer mid)"] 1 2 by (simp add: completions_for_def)
    show ?thesis by (intro conjI 1 2 3)
  qed
  have X4: "(\<forall>t \<in> set (expiry_timers rs). fst t = mid \<longrightarrow> now < snd t) \<longrightarrow>
        expiryTimer rs now mid = rs"
    using expiryTimer_early [of rs mid now] by blast
  have T1: "completions_for mid (processRetries fmul rs now)
          = completions_for mid rs @ [(mid, False, failed_info now item)] \<and>
        map_of (retryItems (processRetries fmul rs now)) mid = None \<and>
        completions_for mid (retry_run fmul rs ((now, EvTick) # evs))
          = completions_for mid rs @ [(mid, False, failed_info now item)]"
    if a: "NextAttempt item < now \<and> MaxRetries cfg \<le> item_Attempts item"
  proof -
    from a have due: "NextAttempt item < now"
      and mx: "MaxRetries (rs_config rs) \<le> item_Attempts item" by (simp_all add: c)
    have 1: "completions_for mid (processRetries fmul rs now)
          = completions_for mid rs @ [(mid, False, failed_info now item)]"
      and 2: "map_of (retryItems (processRetries fmul rs now)) mid = None"
      using processRetries_fails [OF d p cb due mx, of fmul] by (simp_all add: failed_info_def)
    have 3: "completions_for mid (retry_run fmul rs ((now, EvTick) # evs))
          = completions_for mid rs @ [(mid, False, failed_info now item)]"
      using later [of "(now, EvTick)"] 1 2 by simp
    show ?thesis by (intro conjI 1 2 3)
  qed
  have T2: "completions_for mid (processRetries fmul rs now) = completions_for mid rs \<and>
        map_of (retryItems (processRetries fmul rs now)) mid
          = map_of (retryItems (retryMessage fmul rs now mid)) mid \<and>
        map_of (retryItems (processRetries fmul rs now)) mid \<noteq> None \<and>
        resent (retryMessage fmul rs now mid)
          = resent rs @ [(item_Packet item, TargetPeerID item)]"
    if a: "NextAttempt item < now \<and> item_Attempts item < MaxRetries cfg"
  proof -
    from a have due: "NextAttempt item < now"
      and mx: "item_Attempts item < MaxRetries (rs_config rs)" by (simp_all add: c)
    have "map_of (retryItems (retryMessage fmul rs now mid)) mid \<noteq> None"
      using p by (simp add: retryMessage_dom)
    then show ?thesis
      using processRetries_retries [OF d p due mx, of fmul] retryMessage_effect(2) [OF p]
      by simp
  qed
  have T3: "completions_for mid (processRetries fmul rs now) = completions_for mid rs \<and>
        map_of (retryItems (processRetries fmul rs now)) mid = Some item"
    if a: "\<not> NextAttempt item < now"
    using processRetries_not_due [OF d p a, of fmul] by simp
  have A: "length (completions_for mid (retry_run fmul rs evs))
       \<le> length (completions_for mid rs) + 1"
    using d n by (rule retry_run_at_most_once)
  have C1: "completions (ClearRetries rs) = completions rs"
    and C2: "map_of (retryItems (ClearRetries rs)) mid = None"
    by (simp_all add: ClearRetries_def)
  have C3: "completions_for mid (retry_run fmul rs ((now, EvClear) # evs))
              = completions_for mid rs"
    using later [of "(now, EvClear)"] C1 C2 by (simp add: completions_for_def)
  have N: "\<forall>rs0 t0 packet target.
        map_of (retryItems rs0) (ID packet) = None \<and> 0 < MaxRetryTime (rs_config rs0) \<longrightarrow>
        map_of (retryItems (retry_step fmul rs0 (t0, EvAdd packet target True))) (ID packet)
          = Some \<lparr>item_Packet = packet, TargetPeerID = target, item_Attempts = 1,
                   FirstAttempt = t0, NextAttempt = t0 + InitialBackoff (rs_config rs0),
                   OnComplete = True\<rparr> \<and>
        expiry_timers (retry_step fmul rs0 (t0, EvAdd packet target True))
          = expiry_timers rs0 @ [(ID packet, t0 + MaxRetryTime (rs_config rs0))]"
    using AddRetryPacket_new by auto
  from X3 have X3': "0 < MaxRetryTime cfg \<and> FirstAttempt item + MaxRetryTime cfg \<le> now \<longrightarrow>
        completions (expiryTimer rs now mid)
          = completions rs @ [(mid, False, failed_info now item)] \<and>
        map_of (retryItems (expiryTimer rs now mid)) mid = None \<and>
        completions_for mid (retry_run fmul rs ((now, EvTimer mid) # evs))
          = completions_for mid rs @ [(mid, False, failed_info now item)]"
    by (rule impI)
  from T1 have T1': "NextAttempt item < now \<and> MaxRetries cfg \<le> item_Attempts item \<longrightarrow>
        completions_for mid (processRetries fmul rs now)
          = completions_for mid rs @ [(mid, False, failed_info now item)] \<and>
        map_of (retryItems (processRetries fmul rs now)) mid = None \<and>
        completions_for mid (retry_run fmul rs ((now, EvTick) # evs))
          = completions_for mid rs @ [(mid, False, failed_info now item)]"
    by (rule impI)
  from T2 have T2': "NextAttempt item < now \<and> item_Attempts item < MaxRetries cfg \<longrightarrow>
        completions_for mid (processRetries fmul rs now) = completions_for mid rs \<and>
        map_of (retryItems (processRetries fmul rs now)) mid
          = map_of (retryItems (retryMessage fmul rs now mid)) mid \<and>
        map_of (retryItems (processRetries fmul rs now)) mid \<noteq> None \<and>
        resent (retryMessage fmul rs now mid)
          = resent rs @ [(item_Packet item, TargetPeerID item)]"
    by (rule impI)
  from T3 have T3': "\<not> NextAttempt item < now \<longrightarrow>
        completions_for mid (processRetries fmul rs now) = completions_for mid rs \<and>
        map_of (retryItems (processRetries fmul rs now)) mid = Some item"
    by (rule impI)
  show ?thesis
    by (intro conjI D1 D2 D3 X1 X2 X3' X4 T1' T2' T3' A C1 C2 C3 N)
qed


theorem retry_callback_amended_witness:
  "completions (MarkDelivered (test_retry 2) 7000000000 [0x6D])
     = [([0x6D], True,
         zero_info\<lparr>Status := DeliveryStatusDelivered, info_Timestamp := 7000,
                    Attempts := 1\<rparr>)] \<and>
   completions_for [0x6D]
     (retry_run exact_product (test_retry 2)
        [(7000000000, EvMarkDelivered [0x6D]), (8000000000, EvTick),
         (1800000000000, EvTimer [0x6D]), (1801000000000, EvMarkDelivered [0x6D])])
     = [([0x6D], True,
         zero_info\<lparr>Status := DeliveryStatusDelivered, info_Timestamp := 7000,
                    Attempts := 1\<rparr>)] \<and>
   completions (expiryTimer (test_retry 2) 1800000000000 [0x6D])
     = [([0x6D], False,
         zero_info\<lparr>Status := DeliveryStatusFailed, info_Timestamp := 1800000,
                    Attempts := 1, Error := msg_max_attempts,
                    FailReason := msg_max_attempts\<rparr>)] \<and>
   expiryTimer (test_retry 2) 1799999999999 [0x6D] = test_retry 2 \<and>
   completions_for [0x6D] (processRetries exact_product (test_retry 2) 7000000000) = [] \<and>
   map_of (retryItems (processRetries exact_product (test_retry 2) 7000000000)) [0x6D]
     = Some \<lparr>item_Packet = test_retry_packet, TargetPeerID = [0xB0], item_Attempts = 2,
              FirstAttempt = 0, NextAttempt = 17000000000, OnComplete = True\<rparr> \<and>
   map_of (retryItems (processRetries exact_product (test_retry 2) 5000000000)) [0x6D]
     = Some \<lparr>item_Packet = test_retry_packet, TargetPeerID = [0xB0], item_Attempts = 1,
              FirstAttempt = 0, NextAttempt = 5000000000, OnComplete = True\<rparr> \<and>
   completions_for [0x6D]
     (processRetries exact_product
        (retry_run exact_product (NewRetryService ((DefaultRetryConfig 2)\<lparr>MaxRetries := 1\<rparr>))
           [(0, EvAdd test_retry_packet [0xB0] True)])
        7000000000)
     = [([0x6D], False,
         zero_info\<lparr>Status := DeliveryStatusFailed, info_Timestamp := 7000,
                    Attempts := 1, Error := msg_max_attempts,
                    FailReason := msg_max_attempts\<rparr>)] \<and>
   completions_for [0x6D]
     (retry_run exact_product (test_retry 2)
        [(1000000000, EvClear), (7000000000, EvTick), (1800000000000, EvTimer [0x6D]),
         (1801000000000, EvMarkDelivered [0x6D])])
     = [] \<and>
   expiry_timers
     (retry_run exact_product (NewRetryService ((DefaultRetryConfig 2)\<lparr>MaxRetryTime := 0\<rparr>))
        [(0, EvAdd test_retry_packet [0xB0] True)])
     = [] \<and>
   map_of (retryItems (retry_step exact_product (NewRetryService (DefaultRetryConfig 2))
                         (0, EvAdd test_retry_packet [0xB0] True))) [0x6D]
     = Some \<lparr>item_Packet = test_retry_packet, TargetPeerID = [0xB0], item_Attempts = 1,
              FirstAttempt = 0, NextAttempt = 5000000000, OnComplete = True\<rparr> \<and>
   expiry_timers (retry_step exact_product (NewRetryService (DefaultRetryConfig 2))
                    (0, EvAdd test_retry_packet [0xB0] True))
     = [([0x6D], 1800000000000)]"
proof -
  let ?item = "\<lparr>item_Packet = test_retry_packet, TargetPeerID = [0xB0], item_Attempts = 1,
                 FirstAttempt = 0, NextAttempt = 5000000000, OnComplete = True\<rparr>"
  let ?cfg1 = "(DefaultRetryConfig 2)\<lparr>MaxRetries := 1\<rparr> :: int RetryConfig"
  let ?rs1 = "retry_run exact_product (NewRetryService ?cfg1)
                [(0, EvAdd test_retry_packet [0xB0] True)]"
  let ?cfg0 = "(DefaultRetryConfig 2)\<lparr>MaxRetryTime := 0\<rparr> :: int RetryConfig"
  let ?rs0 = "retry_run exact_product (NewRetryService ?cfg0)
                [(0, EvAdd test_retry_packet [0xB0] True)]"
  let ?new = "NewRetryService (DefaultRetryConfig 2) :: int RetryService"
  let ?evs = "[(8000000000, EvTick), (1800000000000, EvTimer [0x6D]),
               (1801000000000, EvMarkDelivered [0x6D])]"
  let ?evs' = "[(7000000000, EvTick), (1800000000000, EvTimer [0x6D]),
                (1801000000000, EvMarkDelivered [0x6D])]"
  have r: "test_retry 2 = retry_run exact_product (NewRetryService (DefaultRetryConfig 2))
             [(0, EvAdd test_retry_packet [0xB0] True)]"
    by (simp add: test_retry_def)
  have p: "map_of (retryItems (test_retry 2)) [0x6D] = Some ?item"
    by (simp add: test_retry_state)
  have p1: "map_of (retryItems ?rs1) [0x6D] = Some ?item"
    by (simp add: retry_run_def NewRetryService_def AddRetryPacket_def Let_def
        DefaultRetryConfig_def test_retry_packet_def)
  have p0: "map_of (retryItems ?rs0) [0x6D] = Some ?item"
    by (simp add: retry_run_def NewRetryService_def AddRetryPacket_def Let_def
        DefaultRetryConfig_def test_retry_packet_def)
  have cb: "OnComplete ?item" by simp
  have n: "\<not> list_ex (adds_id [0x6D]) ?evs" "\<not> list_ex (adds_id [0x6D]) ?evs'"
    by (simp_all add: adds_id_def)
  have c0: "completions (test_retry 2) = []" "completions_for [0x6D] (test_retry 2) = []"
    "expiry_timers (test_retry 2) = [([0x6D], 1800000000000)]"
    by (simp_all add: test_retry_state completions_for_def)
  have c1: "completions_for [0x6D] ?rs1 = []"
    by (simp add: retry_run_def NewRetryService_def AddRetryPacket_def Let_def
        DefaultRetryConfig_def completions_for_def)
  have cfg: "MaxRetryTime (DefaultRetryConfig (2::int)) = 1800000000000"
    "MaxRetries (DefaultRetryConfig (2::int)) = 5"
    "MaxBackoff (DefaultRetryConfig (2::int)) = 120000000000"
    "InitialBackoff (DefaultRetryConfig (2::int)) = 5000000000"
    "BackoffFactor (DefaultRetryConfig (2::int)) = 2"
    "MaxRetries ?cfg1 = 1"
    by (simp_all add: DefaultRetryConfig_def)
  have u: "delivered_info 7000000000 ?item
             = zero_info\<lparr>Status := DeliveryStatusDelivered, info_Timestamp := 7000,
                         Attempts := 1\<rparr>"
    "failed_info 1800000000000 ?item
             = zero_info\<lparr>Status := DeliveryStatusFailed, info_Timestamp := 1800000,
                         Attempts := 1, Error := msg_max_attempts,
                         FailReason := msg_max_attempts\<rparr>"
    "failed_info 7000000000 ?item
             = zero_info\<lparr>Status := DeliveryStatusFailed, info_Timestamp := 7000,
                         Attempts := 1, Error := msg_max_attempts,
                         FailReason := msg_max_attempts\<rparr>"
    by (simp_all add: delivered_info_def failed_info_def UnixMilli_def)
  note a = retry_callback_amended [OF r p cb n(1), of 7000000000]
  note b = retry_callback_amended [OF r p cb n(1), of 1800000000000]
  note e = retry_callback_amended [OF r p cb n(1), of 1799999999999]
  note f = retry_callback_amended [OF r p cb n(1), of 5000000000]
  note g = retry_callback_amended [OF refl p1 cb n(1), of 7000000000]
  note h = retry_callback_amended [OF r p cb n(2), of 1000000000]
  have 1: "completions (MarkDelivered (test_retry 2) 7000000000 [0x6D])
     = [([0x6D], True,
         zero_info\<lparr>Status := DeliveryStatusDelivered, info_Timestamp := 7000,
                    Attempts := 1\<rparr>)]"
    using a c0 by (simp add: u cfg)
  have 2: "completions_for [0x6D]
     (retry_run exact_product (test_retry 2)
        [(7000000000, EvMarkDelivered [0x6D]), (8000000000, EvTick),
         (1800000000000, EvTimer [0x6D]), (1801000000000, EvMarkDelivered [0x6D])])
     = [([0x6D], True,
         zero_info\<lparr>Status := DeliveryStatusDelivered, info_Timestamp := 7000,
                    Attempts := 1\<rparr>)]"
    using a c0 by (simp add: u cfg)
  have 3: "completions (expiryTimer (test_retry 2) 1800000000000 [0x6D])
     = [([0x6D], False,
         zero_info\<lparr>Status := DeliveryStatusFailed, info_Timestamp := 1800000,
                    Attempts := 1, Error := msg_max_attempts,
                    FailReason := msg_max_attempts\<rparr>)]"
    using b c0 by (simp add: u cfg)
  have 4: "expiryTimer (test_retry 2) 1799999999999 [0x6D] = test_retry 2"
    using e c0 by (simp add: cfg)
  have rm: "map_of (retryItems (retryMessage exact_product (test_retry 2) 7000000000 [0x6D]))
              [0x6D]
     = Some \<lparr>item_Packet = test_retry_packet, TargetPeerID = [0xB0], item_Attempts = 2,
              FirstAttempt = 0, NextAttempt = 17000000000, OnComplete = True\<rparr>"
    by (simp add: test_retry_state retryMessage_def Let_def int_wrap_def DefaultRetryConfig_def
        exact_product_def)
  have 5: "completions_for [0x6D] (processRetries exact_product (test_retry 2) 7000000000) = []"
    and 6: "map_of (retryItems (processRetries exact_product (test_retry 2) 7000000000)) [0x6D]
     = Some \<lparr>item_Packet = test_retry_packet, TargetPeerID = [0xB0], item_Attempts = 2,
              FirstAttempt = 0, NextAttempt = 17000000000, OnComplete = True\<rparr>"
    using a c0 by (simp_all add: cfg rm)
  have 7: "map_of (retryItems (processRetries exact_product (test_retry 2) 5000000000)) [0x6D]
     = Some ?item"
    using f by (simp add: cfg)
  have 8: "completions_for [0x6D] (processRetries exact_product ?rs1 7000000000)
     = [([0x6D], False,
         zero_info\<lparr>Status := DeliveryStatusFailed, info_Timestamp := 7000,
                    Attempts := 1, Error := msg_max_attempts,
                    FailReason := msg_max_attempts\<rparr>)]"
    using g c1 by (simp add: u cfg)
  have 9: "completions_for [0x6D]
     (retry_run exact_product (test_retry 2)
        [(1000000000, EvClear), (7000000000, EvTick), (1800000000000, EvTimer [0x6D]),
         (1801000000000, EvMarkDelivered [0x6D])])
     = []"
    using h c0 by (simp add: cfg)
  note k = retry_callback_amended [OF refl p0 cb n(1), of 7000000000]
  have 10: "expiry_timers ?rs0 = []"
    using k by (simp add: DefaultRetryConfig_def)
  have fresh: "map_of (retryItems ?new) (ID test_retry_packet) = None"
    "0 < MaxRetryTime (rs_config ?new)" "ID test_retry_packet = [0x6D]"
    "expiry_timers ?new = []" "InitialBackoff (rs_config ?new) = 5000000000"
    "MaxRetryTime (rs_config ?new) = 1800000000000"
    by (simp_all add: NewRetryService_def DefaultRetryConfig_def test_retry_packet_def)
  from a have "\<forall>rs0 t0 packet target.
        map_of (retryItems rs0) (ID packet) = None \<and> 0 < MaxRetryTime (rs_config rs0) \<longrightarrow>
        map_of (retryItems (retry_step exact_product rs0 (t0, EvAdd packet target True)))
            (ID packet)
          = Some \<lparr>item_Packet = packet, TargetPeerID = target, item_Attempts = 1,
                   FirstAttempt = t0, NextAttempt = t0 + InitialBackoff (rs_config rs0),
                   OnComplete = True\<rparr> \<and>
        expiry_timers (retry_step exact_product rs0 (t0, EvAdd packet target True))
          = expiry_timers rs0 @ [(ID packet, t0 + MaxRetryTime (rs_config rs0))]"
    by blast
  from this [rule_format, of ?new test_retry_packet 0 "[0xB0]"] fresh(1,2)
  have "map_of (retryItems (retry_step exact_product ?new
                               (0, EvAdd test_retry_packet [0xB0] True)))
            (ID test_retry_packet)
          = Some \<lparr>item_Packet = test_retry_packet, TargetPeerID = [0xB0], item_Attempts = 1,
                   FirstAttempt = 0, NextAttempt = 0 + InitialBackoff (rs_config ?new),
                   OnComplete = True\<rparr>"
    and "expiry_timers (retry_step exact_product ?new (0, EvAdd test_retry_packet [0xB0] True))
          = expiry_timers ?new @ [(ID test_retry_packet, 0 + MaxRetryTime (rs_config ?new))]"
    by blast+
  then have 11: "map_of (retryItems (retry_step exact_product ?new
                               (0, EvAdd test_retry_packet [0xB0] True))) [0x6D]
          = Some ?item"
    and 12: "expiry_timers (retry_step exact_product ?new
                               (0, EvAdd test_retry_packet [0xB0] True))
          = [([0x6D], 1800000000000)]"
    unfolding fresh(3-6) by simp_all
  show ?thesis by (intro conjI 1 2 3 4 5 6 7 8 9 10 11 12)
qed

text \<open>
  Claim C5 as the specification states it (the callback of every entry fires exactly
  once) fails: an entry with a callback is pending, \<open>ClearRetries\<close> is called, and
  whatever comes later - ticks of the loop, the expiry of the entry's timer after
  \<open>MaxRetryTime\<close>, \<open>MarkDelivered\<close> for the id - finds no entry: the callback has not been
  called at all.
\<close>

theorem retry_callback_counterexample:
  "map_of (retryItems (test_retry 2)) [0x6D]
     = Some \<lparr>item_Packet = test_retry_packet, TargetPeerID = [0xB0], item_Attempts = 1,
              FirstAttempt = 0, NextAttempt = 5000000000, OnComplete = True\<rparr> \<and>
   completions
     (retry_run exact_product (test_retry 2)
        [(1000000000, EvClear), (7000000000, EvTick), (1800000000000, EvTimer [0x6D]),
         (1801000000000, EvMarkDelivered [0x6D])])
     = [] \<and>
   retryItems
     (retry_run exact_product (test_retry 2)
        [(1000000000, EvClear), (7000000000, EvTick), (1800000000000, EvTimer [0x6D]),
         (1801000000000, EvMarkDelivered [0x6D])])
     = []"
  by (simp add: test_retry_state retry_run_def ClearRetries_def processRetries_def
      expiryTimer_def handleFailedDelivery_def MarkDelivered_def Let_def)


text \<open>
  Claim C7, as the code has it. \<open>retryMessage\<close>, which the retry loop runs on every due
  entry that has made fewer than \<open>MaxRetries\<close> attempts, adds one to the entry's attempt
  count (a count below the greatest \<open>int\<close>, so that the increment does not wrap around)
  and sets its next attempt to \<open>now\<close> plus the backoff: the floating-point product
  of \<open>InitialBackoff\<close>, the incremented count less one (the count before the increment)
  and \<open>BackoffFactor\<close>, capped at \<open>MaxBackoff\<close>; the packet goes to \<open>sendPacketFunc\<close> and
  no callback is made. Of two retries under one configuration, the one of the entry with
  the greater attempt count computes the greater or equal backoff, provided the
  floating-point product for the greater count is not the smaller one.
\<close>

theorem retry_backoff_amended:
  assumes p: "map_of (retryItems rs) mid = Some item"
    and p2: "map_of (retryItems rs2) mid2 = Some item2"
    and c2: "rs_config rs2 = rs_config rs"
    and r: "- (2 ^ 63) \<le> item_Attempts item" "item_Attempts item + 1 < 2 ^ 63"
    and r2: "- (2 ^ 63) \<le> item_Attempts item2" "item_Attempts item2 + 1 < 2 ^ 63"
  shows
    "(\<exists>item'.
        map_of (retryItems (retryMessage fmul rs now mid)) mid = Some item' \<and>
        item' = item\<lparr>item_Attempts := item_Attempts item + 1,
                      NextAttempt := now +
                        min (MaxBackoff (rs_config rs))
                            (fmul (InitialBackoff (rs_config rs)) (item_Attempts item)
                                  (BackoffFactor (rs_config rs)))\<rparr> \<and>
        item_Attempts item' = item_Attempts item + 1 \<and>
        NextAttempt item' = now +
          min (MaxBackoff (rs_config rs))
              (fmul (InitialBackoff (rs_config rs)) (item_Attempts item' - 1)
                    (BackoffFactor (rs_config rs))) \<and>
        (distinct (map fst (retryItems rs)) \<and> NextAttempt item < now \<and>
         item_Attempts item < MaxRetries (rs_config rs) \<longrightarrow>
           map_of (retryItems (processRetries fmul rs now)) mid = Some item') \<and>
        (\<exists>item2'.
           map_of (retryItems (retryMessage fmul rs2 now2 mid2)) mid2 = Some item2' \<and>
           item_Attempts item2' = item_Attempts item2 + 1 \<and>
           (item_Attempts item \<le> item_Attempts item2 \<and>
            fmul (InitialBackoff (rs_config rs)) (item_Attempts item)
                 (BackoffFactor (rs_config rs))
              \<le> fmul (InitialBackoff (rs_config rs)) (item_Attempts item2)
                      (BackoffFactor (rs_config rs)) \<longrightarrow>
              NextAttempt item' - now \<le> NextAttempt item2' - now2))) \<and>
     resent (retryMessage fmul rs now mid) = resent rs @ [(item_Packet item, TargetPeerID item)] \<and>
     completions (retryMessage fmul rs now mid) = completions rs"
proof -
  let ?b = "\<lambda>k. min (MaxBackoff (rs_config rs))
                   (fmul (InitialBackoff (rs_config rs)) k (BackoffFactor (rs_config rs)))"
  let ?item' = "item\<lparr>item_Attempts := item_Attempts item + 1,
                      NextAttempt := now + ?b (item_Attempts item)\<rparr>"
  let ?item2' = "item2\<lparr>item_Attempts := item_Attempts item2 + 1,
                        NextAttempt := now2 + ?b (item_Attempts item2)\<rparr>"
  have w: "int_wrap (item_Attempts item + 1) = item_Attempts item + 1"
    "int_wrap (item_Attempts item + 1 - 1) = item_Attempts item"
    "int_wrap (item_Attempts item2 + 1) = item_Attempts item2 + 1"
    "int_wrap (item_Attempts item2 + 1 - 1) = item_Attempts item2"
    using r r2 by (simp_all add: int_wrap_id)
  have 1: "map_of (retryItems (retryMessage fmul rs now mid)) mid = Some ?item'"
    using retryMessage_effect(1) [OF p, of fmul now] by (simp only: w)
  have 2: "item_Attempts ?item' = item_Attempts item + 1" by simp
  have 3: "NextAttempt ?item' = now + ?b (item_Attempts ?item' - 1)" by simp
  have 4: "distinct (map fst (retryItems rs)) \<and> NextAttempt item < now \<and>
         item_Attempts item < MaxRetries (rs_config rs) \<longrightarrow>
           map_of (retryItems (processRetries fmul rs now)) mid = Some ?item'"
    using processRetries_retries [OF _ p, of now fmul] 1 by simp
  have 5: "map_of (retryItems (retryMessage fmul rs2 now2 mid2)) mid2 = Some ?item2'"
    using retryMessage_effect(1) [OF p2, of fmul now2] unfolding c2 by (simp only: w)
  have 6: "item_Attempts ?item2' = item_Attempts item2 + 1" by simp
  have 7: "item_Attempts item \<le> item_Attempts item2 \<and>
            fmul (InitialBackoff (rs_config rs)) (item_Attempts item)
                 (BackoffFactor (rs_config rs))
              \<le> fmul (InitialBackoff (rs_config rs)) (item_Attempts item2)
                      (BackoffFactor (rs_config rs)) \<longrightarrow>
              NextAttempt ?item' - now \<le> NextAttempt ?item2' - now2"
    by (simp add: min_le_iff_disj)
  have 8: "resent (retryMessage fmul rs now mid)
             = resent rs @ [(item_Packet item, TargetPeerID item)]"
    by (rule retryMessage_effect(2) [OF p])
  have 9: "completions (retryMessage fmul rs now mid) = completions rs"
    by (rule retryMessage_completions)
  have E: "\<exists>item2'.
           map_of (retryItems (retryMessage fmul rs2 now2 mid2)) mid2 = Some item2' \<and>
           item_Attempts item2' = item_Attempts item2 + 1 \<and>
           (item_Attempts item \<le> item_Attempts item2 \<and>
            fmul (InitialBackoff (rs_config rs)) (item_Attempts item)
                 (BackoffFactor (rs_config rs))
              \<le> fmul (InitialBackoff (rs_config rs)) (item_Attempts item2)
                      (BackoffFactor (rs_config rs)) \<longrightarrow>
              NextAttempt ?item' - now \<le> NextAttempt item2' - now2)"
    by (intro exI [of _ ?item2'] conjI 5 6 7)
  have F: "\<exists>item'.
        map_of (retryItems (retryMessage fmul rs now mid)) mid = Some item' \<and>
        item' = ?item' \<and>
        item_Attempts item' = item_Attempts item + 1 \<and>
        NextAttempt item' = now + ?b (item_Attempts item' - 1) \<and>
        (distinct (map fst (retryItems rs)) \<and> NextAttempt item < now \<and>
         item_Attempts item < MaxRetries (rs_config rs) \<longrightarrow>
           map_of (retryItems (processRetries fmul rs now)) mid = Some item') \<and>
        (\<exists>item2'.
           map_of (retryItems (retryMessage fmul rs2 now2 mid2)) mid2 = Some item2' \<and>
           item_Attempts item2' = item_Attempts item2 + 1 \<and>
           (item_Attempts item \<le> item_Attempts item2 \<and>
            fmul (InitialBackoff (rs_config rs)) (item_Attempts item)
                 (BackoffFactor (rs_config rs))
              \<le> fmul (InitialBackoff (rs_config rs)) (item_Attempts item2)
                      (BackoffFactor (rs_config rs)) \<longrightarrow>
              NextAttempt item' - now \<le> NextAttempt item2' - now2))"
    by (intro exI [of _ ?item'] conjI refl 1 2 3 4 E)
  show ?thesis by (intro conjI F 8 9)
qed


text \<open>
  With exact products the premise on the product holds whenever \<open>InitialBackoff\<close> and
  \<open>BackoffFactor\<close> are not negative.
\<close>

lemma retry_backoff_exact_mono:
  assumes "map_of (retryItems rs) mid = Some item"
    and "map_of (retryItems rs2) mid2 = Some item2"
    and "rs_config rs2 = rs_config rs"
    and "- (2 ^ 63) \<le> item_Attempts item" and "item_Attempts item2 + 1 < 2 ^ 63"
    and "0 \<le> InitialBackoff (rs_config rs)" and "0 \<le> BackoffFactor (rs_config rs)"
    and "item_Attempts item \<le> item_Attempts item2"
    and "map_of (retryItems (retryMessage exact_product rs now mid)) mid = Some item'"
    and "map_of (retryItems (retryMessage exact_product rs2 now2 mid2)) mid2 = Some item2'"
  shows "NextAttempt item' - now \<le> NextAttempt item2' - now2"
proof -
  have m: "exact_product (InitialBackoff (rs_config rs)) (item_Attempts item)
                 (BackoffFactor (rs_config rs))
              \<le> exact_product (InitialBackoff (rs_config rs)) (item_Attempts item2)
                      (BackoffFactor (rs_config rs))"
    using assms(6-8) by (rule exact_product_mono)
  have w: "int_wrap (item_Attempts item + 1) = item_Attempts item + 1"
    "int_wrap (item_Attempts item + 1 - 1) = item_Attempts item"
    "int_wrap (item_Attempts item2 + 1) = item_Attempts item2 + 1"
    "int_wrap (item_Attempts item2 + 1 - 1) = item_Attempts item2"
    using assms(4,5,8) by (simp_all add: int_wrap_id)
  have 1: "NextAttempt item' = now +
                        min (MaxBackoff (rs_config rs))
                            (exact_product (InitialBackoff (rs_config rs)) (item_Attempts item)
                                  (BackoffFactor (rs_config rs)))"
    using retryMessage_effect(1) [OF assms(1), of exact_product now] assms(9)
    unfolding w by auto
  have 2: "NextAttempt item2' = now2 +
                        min (MaxBackoff (rs_config rs))
                            (exact_product (InitialBackoff (rs_config rs)) (item_Attempts item2)
                                  (BackoffFactor (rs_config rs)))"
    using retryMessage_effect(1) [OF assms(2), of exact_product now2] assms(10)
    unfolding w assms(3) by auto
  show ?thesis
    unfolding 1 2 using m by (simp add: min_le_iff_disj)
qed

theorem retry_backoff_amended_witness:
  "map_of (retryItems (retryMessage exact_product (test_retry 2) 7000000000 [0x6D])) [0x6D]
     = Some \<lparr>item_Packet = test_retry_packet, TargetPeerID = [0xB0], item_Attempts = 2,
              FirstAttempt = 0, NextAttempt = 7000000000 + 10000000000, OnComplete = True\<rparr> \<and>
   map_of (retryItems (processRetries exact_product (test_retry 2) 7000000000)) [0x6D]
     = Some \<lparr>item_Packet = test_retry_packet, TargetPeerID = [0xB0], item_Attempts = 2,
              FirstAttempt = 0, NextAttempt = 7000000000 + 10000000000, OnComplete = True\<rparr> \<and>
   (\<exists>item2'.
      map_of (retryItems
                (retryMessage exact_product
                   (retryMessage exact_product (test_retry 2) 7000000000 [0x6D])
                   18000000000 [0x6D])) [0x6D] = Some item2' \<and>
      item_Attempts item2' = 3 \<and>
      10000000000 \<le> NextAttempt item2' - 18000000000)"
proof -
  let ?item = "\<lparr>item_Packet = test_retry_packet, TargetPeerID = [0xB0], item_Attempts = 1,
                 FirstAttempt = 0, NextAttempt = 5000000000, OnComplete = True\<rparr>"
  let ?item2 = "?item\<lparr>item_Attempts := 2, NextAttempt := 7000000000 + 10000000000\<rparr>"
  let ?rs2 = "retryMessage exact_product (test_retry 2) 7000000000 [0x6D]"
  have p: "map_of (retryItems (test_retry 2)) [0x6D] = Some ?item"
    by (simp add: test_retry_state)
  have cfg: "rs_config (test_retry 2) = DefaultRetryConfig 2"
    "MaxRetries (DefaultRetryConfig (2::int)) = 5"
    "MaxBackoff (DefaultRetryConfig (2::int)) = 120000000000"
    "InitialBackoff (DefaultRetryConfig (2::int)) = 5000000000"
    "BackoffFactor (DefaultRetryConfig (2::int)) = 2"
    by (simp_all add: test_retry_state DefaultRetryConfig_def)
  have d: "distinct (map fst (retryItems (test_retry 2)))"
    by (simp add: test_retry_state)
  have p2: "map_of (retryItems ?rs2) [0x6D] = Some ?item2"
    using retryMessage_effect(1) [OF p, of exact_product 7000000000]
    by (simp add: cfg exact_product_def int_wrap_def)
  have r: "- (2 ^ 63) \<le> item_Attempts ?item" "item_Attempts ?item + 1 < 2 ^ 63"
    "- (2 ^ 63) \<le> item_Attempts ?item2" "item_Attempts ?item2 + 1 < 2 ^ 63"
    by simp_all
  have c2: "rs_config ?rs2 = rs_config (test_retry 2)"
    by (rule retryMessage_config)
  from retry_backoff_amended [OF p p2 c2 r, of exact_product 7000000000 18000000000]
  obtain item' item2' where
    1: "map_of (retryItems ?rs2) [0x6D] = Some item'"
    and 2: "item' = ?item\<lparr>item_Attempts := item_Attempts ?item + 1,
                      NextAttempt := 7000000000 +
                        min (MaxBackoff (rs_config (test_retry 2)))
                            (exact_product (InitialBackoff (rs_config (test_retry 2)))
                               (item_Attempts ?item)
                               (BackoffFactor (rs_config (test_retry 2))))\<rparr>"
    and 3: "distinct (map fst (retryItems (test_retry 2))) \<and> NextAttempt ?item < 7000000000 \<and>
         item_Attempts ?item < MaxRetries (rs_config (test_retry 2)) \<longrightarrow>
           map_of (retryItems (processRetries exact_product (test_retry 2) 7000000000)) [0x6D]
             = Some item'"
    and 4: "map_of (retryItems (retryMessage exact_product ?rs2 18000000000 [0x6D])) [0x6D]
              = Some item2'"
    and 5: "item_Attempts item2' = item_Attempts ?item2 + 1"
    and 6: "item_Attempts ?item \<le> item_Attempts ?item2 \<and>
            exact_product (InitialBackoff (rs_config (test_retry 2))) (item_Attempts ?item)
                 (BackoffFactor (rs_config (test_retry 2)))
              \<le> exact_product (InitialBackoff (rs_config (test_retry 2))) (item_Attempts ?item2)
                      (BackoffFactor (rs_config (test_retry 2))) \<longrightarrow>
              NextAttempt item' - 7000000000 \<le> NextAttempt item2' - 18000000000"
    by blast
  have i: "item' = \<lparr>item_Packet = test_retry_packet, TargetPeerID = [0xB0], item_Attempts = 2,
              FirstAttempt = 0, NextAttempt = 7000000000 + 10000000000, OnComplete = True\<rparr>"
    unfolding 2 by (simp add: cfg exact_product_def)
  have a: "map_of (retryItems ?rs2) [0x6D] = Some item'" by (rule 1)
  have b: "map_of (retryItems (processRetries exact_product (test_retry 2) 7000000000)) [0x6D]
             = Some item'"
    using 3 d by (simp add: cfg)
  have c: "item_Attempts item2' = 3" using 5 by simp
  have e: "10000000000 \<le> NextAttempt item2' - 18000000000"
    using 6 by (simp add: cfg exact_product_def i)
  have "\<exists>item2'.
      map_of (retryItems (retryMessage exact_product ?rs2 18000000000 [0x6D])) [0x6D]
        = Some item2' \<and>
      item_Attempts item2' = 3 \<and>
      10000000000 \<le> NextAttempt item2' - 18000000000"
    by (intro exI [of _ item2'] conjI 4 c e)
  then show ?thesis using a b unfolding i by (intro conjI)
qed

text \<open>
  Claim C7 as the specification states it fails on both counts. With the default
  configuration and the backoff factor 2, the first retry of an entry brings its attempt
  count to 2 and computes the backoff 10 s, the product for the count 1 that the entry
  had before, not the 20 s of the product for its count 2. And with the backoff factor
  -1 the backoff is not monotone: the retry that brings the count to 2 computes -5 s, the
  next one, which brings it to 3, computes -10 s. (All products here are exact in
  \<open>float64\<close>.)
\<close>

theorem retry_backoff_counterexample:
  "map_of (retryItems (retry_run exact_product (test_retry 2) [(7000000000, EvTick)])) [0x6D]
     = Some \<lparr>item_Packet = test_retry_packet, TargetPeerID = [0xB0], item_Attempts = 2,
              FirstAttempt = 0, NextAttempt = 7000000000 + 10000000000, OnComplete = True\<rparr> \<and>
   (10000000000 :: int)
     \<noteq> min (MaxBackoff (DefaultRetryConfig (2 :: int)))
           (exact_product (InitialBackoff (DefaultRetryConfig (2 :: int))) 2
              (BackoffFactor (DefaultRetryConfig (2 :: int)))) \<and>
   map_of (retryItems (retry_run exact_product (test_retry (- 1)) [(7000000000, EvTick)]))
       [0x6D]
     = Some \<lparr>item_Packet = test_retry_packet, TargetPeerID = [0xB0], item_Attempts = 2,
              FirstAttempt = 0, NextAttempt = 7000000000 + (- 5000000000),
              OnComplete = True\<rparr> \<and>
   map_of (retryItems (retry_run exact_product (test_retry (- 1))
                         [(7000000000, EvTick), (8000000000, EvTick)])) [0x6D]
     = Some \<lparr>item_Packet = test_retry_packet, TargetPeerID = [0xB0], item_Attempts = 3,
              FirstAttempt = 0, NextAttempt = 8000000000 + (- 10000000000),
              OnComplete = True\<rparr> \<and>
   (- 10000000000 :: int) < - 5000000000"
  by (simp add: test_retry_state retry_run_def processRetries_def retryMessage_def
      DefaultRetryConfig_def exact_product_def int_wrap_def Let_def)


end
